theory Spec2Isabelle
  imports Complex_Main "HOL-Library.Char_ord" "HOL-Library.List_Lexorder" "HOL-Library.Word"
begin

section \<open>JSON values, as QJsonValue and QJsonObject present them\<close>

text \<open>
  A QJsonValue is undefined, null, a bool, a double, a string, an array or an object.
  Every finite double is a rational number, so a JSON number is a \<open>rat\<close>.
  A QJsonObject is a list of key/value pairs; \<open>contains\<close> and \<open>operator[]\<close> find the
  first pair with the key, and \<open>operator[]\<close> on a missing key gives the undefined value.
\<close>

datatype json =
    JUndefined
  | JNull
  | JBool bool
  | JNum rat
  | JString string
  | JArray "json list"
  | JObject "(string \<times> json) list"

type_synonym json_object = "(string \<times> json) list"

definition contains :: "json_object \<Rightarrow> string \<Rightarrow> bool" where
  "contains obj k = (map_of obj k \<noteq> None)"

definition field :: "json_object \<Rightarrow> string \<Rightarrow> json" where
  "field obj k = (case map_of obj k of None \<Rightarrow> JUndefined | Some v \<Rightarrow> v)"

fun isObject :: "json \<Rightarrow> bool" where
  "isObject (JObject _) = True"
| "isObject _ = False"

fun isArray :: "json \<Rightarrow> bool" where
  "isArray (JArray _) = True"
| "isArray _ = False"

fun isString :: "json \<Rightarrow> bool" where
  "isString (JString _) = True"
| "isString _ = False"

fun toObject :: "json \<Rightarrow> json_object" where
  "toObject (JObject obj) = obj"
| "toObject _ = []"

fun toArray :: "json \<Rightarrow> json list" where
  "toArray (JArray xs) = xs"
| "toArray _ = []"

fun toString :: "json \<Rightarrow> string" where
  "toString (JString s) = s"
| "toString _ = []"

text \<open>
  \<open>QJsonValue::toInt()\<close>: the number when the value is a double that is whole and fits
  a 32-bit int, otherwise the default 0.
\<close>

fun toInt :: "json \<Rightarrow> int" where
  "toInt (JNum r) =
     (if of_int \<lfloor>r\<rfloor> = r \<and> - 2147483648 \<le> \<lfloor>r\<rfloor> \<and> \<lfloor>r\<rfloor> \<le> 2147483647 then \<lfloor>r\<rfloor> else 0)"
| "toInt _ = 0"

text \<open>\<open>QString::number(int)\<close> and \<open>QString::arg(int)\<close>: the decimal digits.\<close>

definition digit_char :: "nat \<Rightarrow> char" where
  "digit_char d = ''0123456789'' ! (d mod 10)"

fun string_of_nat :: "nat \<Rightarrow> string" where
  "string_of_nat n =
     (if n < 10 then [digit_char n] else string_of_nat (n div 10) @ [digit_char (n mod 10)])"

definition QString_number :: "int \<Rightarrow> string" where
  "QString_number i = (if i < 0 then ''-'' @ string_of_nat (nat (- i)) else string_of_nat (nat i))"

section \<open>Transport layer: SpotifyBaseRequest\<close>

text \<open>
  What a finished QNetworkReply holds: \<open>error()\<close> (the QNetworkReply::NetworkError code,
  0 is NoError), \<open>errorString()\<close>, the HTTP status attribute read with \<open>toInt()\<close>, and the
  bytes of \<open>readAll()\<close>. The bytes are either empty or carry what
  \<open>QJsonDocument::fromJson\<close> makes of them: a parse error, an empty document, an array or
  an object.
\<close>

datatype json_doc =
    ParseError
  | EmptyDoc
  | ArrayDoc "json list"
  | ObjectDoc json_object

datatype bytes = NoBytes | Bytes json_doc

fun fromJson :: "bytes \<Rightarrow> json_doc" where
  "fromJson NoBytes = ParseError"
| "fromJson (Bytes d) = d"

record reply =
  error :: int
  errorString :: string
  http_status :: int
  readAll :: bytes

definition NoError :: int where
  "NoError = 0"

text \<open>
  The two message formats of GetReplyData, \<open>QString("%1 (%2)").arg(s).arg(n)\<close> and
  \<open>QString("%1 (%2) (%3)").arg(s).arg(n).arg(m)\<close>, for a text \<open>s\<close> that holds no place
  marker of its own.
\<close>

definition arg2 :: "string \<Rightarrow> int \<Rightarrow> string" where
  "arg2 s n = s @ '' ('' @ QString_number n @ '')''"

definition arg3 :: "string \<Rightarrow> int \<Rightarrow> int \<Rightarrow> string" where
  "arg3 s n m = s @ '' ('' @ QString_number n @ '') ('' @ QString_number m @ '')''"

text \<open>
  The error envelope of GetReplyData (the block under "See if there is Json data containing
  error"): the pair of the error text and the status it leaves in its local variables,
  which start as the empty text and 0. \<open>sub_status\<close> is a local that is initialised to 0
  and never assigned.
\<close>

definition sub_status :: int where
  "sub_status = 0"

definition error_envelope :: "json_doc \<Rightarrow> string \<times> int" where
  "error_envelope json_doc =
     (case json_doc of
        ObjectDoc json_obj \<Rightarrow>
          if json_obj \<noteq> [] \<and> contains json_obj ''error'' \<and> isObject (field json_obj ''error'') then
            let obj_error = toObject (field json_obj ''error'') in
            if obj_error \<noteq> [] \<and> contains obj_error ''status'' \<and> contains obj_error ''message'' then
              let status = toInt (field json_obj ''status'');
                  user_message = toString (field json_obj ''message'')
              in (arg3 user_message status sub_status, status)
            else ([], 0)
          else ([], 0)
      | _ \<Rightarrow> ([], 0))"

text \<open>
  GetReplyData returns the bytes; the model returns with them the text it passes to the
  virtual \<open>Error\<close> (at most one call) and whether it called
  \<open>service->Deauthenticate()\<close> before that call.
\<close>

record reply_data =
  data :: bytes
  reported :: "string option"
  deauthenticated :: bool

definition GetReplyData :: "reply \<Rightarrow> reply_data" where
  "GetReplyData reply =
     (if error reply = NoError \<and> http_status reply = 200 then
        \<lparr>data = readAll reply, reported = None, deauthenticated = False\<rparr>
      else if error reply \<noteq> NoError \<and> error reply < 200 then
        \<lparr>data = NoBytes, reported = Some (arg2 (errorString reply) (error reply)),
         deauthenticated = False\<rparr>
      else
        let (err, status) = error_envelope (fromJson (readAll reply));
            err' = (if err = [] then
                      (if error reply \<noteq> NoError then arg2 (errorString reply) (error reply)
                       else ''Received HTTP code '' @ QString_number (http_status reply))
                    else err)
        in \<lparr>data = NoBytes, reported = Some err',
            deauthenticated = (status = 401 \<and> sub_status = 6001)\<rparr>)"

text \<open>
  ExtractJsonObj: the object, with the text it reports through \<open>Error\<close> when it returns
  the empty object instead.
\<close>

definition ExtractJsonObj :: "bytes \<Rightarrow> json_object \<times> string option" where
  "ExtractJsonObj d =
     (case fromJson d of
        ParseError \<Rightarrow> ([], Some ''Reply from server missing Json data.'')
      | EmptyDoc \<Rightarrow> ([], Some ''Received empty Json document.'')
      | ArrayDoc _ \<Rightarrow> ([], Some ''Json document is not an object.'')
      | ObjectDoc json_obj \<Rightarrow>
          if json_obj = [] then ([], Some ''Received empty Json object.'') else (json_obj, None))"

definition ExtractItems :: "json_object \<Rightarrow> json \<times> string option" where
  "ExtractItems json_obj =
     (if \<not> contains json_obj ''items'' then (JArray [], Some ''Json reply is missing items.'')
      else (field json_obj ''items'', None))"

definition ErrorsToHTML :: "string list \<Rightarrow> string" where
  "ErrorsToHTML errors = concat (map (\<lambda>e. e @ ''<br />'') errors)"

section \<open>Authentication lifecycle: the token state of SpotifyService\<close>

text \<open>
  The token fields of SpotifyService, the QSettings group it writes them to (a map from
  key to QVariant), the one-shot refresh timer, the accumulated login errors, the replies
  of token requests still open, and the signals emitted so far. The crawl reads the
  search limits and the two flags through the same object. A member \<open>name_\<close> of the source
  is the field \<open>name\<close> here.
\<close>

datatype variant = VString string | VULongLong "64 word"

datatype login_signal =
    LoginComplete bool
  | LoginSuccess
  | LoginFailure string
  | ServiceError string

record service =
  access_token :: string
  refresh_token :: string
  expires_in :: "64 word"
  login_time :: "64 word"
  settings :: "string \<rightharpoonup> variant"
  refresh_login_timer_active :: bool
  refresh_login_timer_interval :: int
  login_errors :: "string list"
  token_replies :: "nat list"
  login_signals :: "login_signal list"
  artistssearchlimit :: int
  albumssearchlimit :: int
  songssearchlimit :: int
  service_fetchalbums :: bool
  download_album_covers :: bool

definition authenticated :: "service \<Rightarrow> bool" where
  "authenticated svc = (access_token svc \<noteq> [])"

definition Deauthenticate :: "service \<Rightarrow> service" where
  "Deauthenticate svc =
     svc\<lparr>access_token := [], refresh_token := [], expires_in := 0, login_time := 0,
         settings := (settings svc)(''access_token'' := None, ''refresh_token'' := None,
                                    ''expires_in'' := None, ''login_time'' := None),
         refresh_login_timer_active := False\<rparr>"

definition LoginError :: "string \<Rightarrow> service \<Rightarrow> service" where
  "LoginError err svc =
     (let errs = (if err \<noteq> [] then login_errors svc @ [err] else login_errors svc);
          error_html = concat (map (\<lambda>e. e @ ''<br />'') errs)
      in svc\<lparr>login_signals := login_signals svc @ [LoginFailure error_html, LoginComplete False],
              login_errors := []\<rparr>)"

text \<open>
  AccessTokenRequestFinished for the reply \<open>r\<close> (a pointer, here a number), what the reply
  holds, and the clock reading \<open>now\<close> of \<open>QDateTime::currentDateTime().toSecsSinceEpoch()\<close>.
  \<open>kMsecPerSec\<close> is declared in core/timeconstants.h, which is not among the sources, and
  is a parameter. \<open>expires_in\<close> and \<open>login_time\<close> are quint64: the int and the qint64
  assigned to them convert modulo \<open>2 ^ 64\<close>, and the timer interval is the product cast to
  a 32-bit int. \<open>Error\<close> is inherited from a class that is not among the sources: the
  one call of it is logged as \<open>ServiceError\<close> with the fixed part of its text, without
  the description of the parse error that follows the colon.
\<close>

definition AccessTokenRequestFinished ::
    "64 word \<Rightarrow> nat \<Rightarrow> reply \<Rightarrow> int \<Rightarrow> service \<Rightarrow> service" where
  "AccessTokenRequestFinished kMsecPerSec r reply now svc0 =
     (if r \<notin> set (token_replies svc0) then svc0
      else
        let svc = svc0\<lparr>token_replies := removeAll r (token_replies svc0)\<rparr> in
        if error reply \<noteq> NoError \<or> http_status reply \<noteq> 200 then
          (if error reply \<noteq> NoError \<and> error reply < 200 then
             LoginError (arg2 (errorString reply) (error reply)) svc
           else
             let svc1 =
                   (case fromJson (readAll reply) of
                      ObjectDoc json_obj \<Rightarrow>
                        if json_obj \<noteq> [] \<and> contains json_obj ''error''
                             \<and> contains json_obj ''error_description'' then
                          svc\<lparr>login_errors := login_errors svc @
                                 [''Authentication failure: '' @ toString (field json_obj ''error'')
                                   @ '' ('' @ toString (field json_obj ''error_description'') @ '')'']\<rparr>
                        else svc
                    | _ \<Rightarrow> svc);
                 svc2 =
                   (if login_errors svc1 = [] then
                      (if error reply \<noteq> NoError then
                         svc1\<lparr>login_errors := [arg2 (errorString reply) (error reply)]\<rparr>
                       else
                         svc1\<lparr>login_errors :=
                                 [''Received HTTP code '' @ QString_number (http_status reply)]\<rparr>)
                    else svc1)
             in LoginError [] svc2)
        else
          (case fromJson (readAll reply) of
             ParseError \<Rightarrow>
               svc\<lparr>login_signals := login_signals svc @
                      [ServiceError ''Failed to parse Json data in authentication reply'']\<rparr>
           | EmptyDoc \<Rightarrow> LoginError ''Authentication reply from server has empty Json document.'' svc
           | ArrayDoc _ \<Rightarrow>
               LoginError ''Authentication reply from server has Json document that is not an object.'' svc
           | ObjectDoc json_obj \<Rightarrow>
               if json_obj = [] then
                 LoginError ''Authentication reply from server has empty Json object.'' svc
               else if \<not> contains json_obj ''access_token'' \<or> \<not> contains json_obj ''expires_in'' then
                 LoginError ''Authentication reply from server is missing access token or expires in.'' svc
               else
                 let access = toString (field json_obj ''access_token'');
                     refresh = (if contains json_obj ''refresh_token''
                                then toString (field json_obj ''refresh_token'')
                                else refresh_token svc);
                     expires = (word_of_int (toInt (field json_obj ''expires_in'')) :: 64 word);
                     login = (word_of_int now :: 64 word);
                     svc1 = svc\<lparr>access_token := access, refresh_token := refresh,
                                expires_in := expires, login_time := login,
                                settings := (settings svc)
                                  (''access_token'' \<mapsto> VString access,
                                   ''refresh_token'' \<mapsto> VString refresh,
                                   ''expires_in'' \<mapsto> VULongLong expires,
                                   ''login_time'' \<mapsto> VULongLong login)\<rparr>;
                     svc2 = (if 0 < expires then
                               svc1\<lparr>refresh_login_timer_interval :=
                                       sint (ucast (expires * kMsecPerSec) :: 32 word),
                                     refresh_login_timer_active := True\<rparr>
                             else svc1)
                 in svc2\<lparr>login_signals := login_signals svc2 @ [LoginComplete True, LoginSuccess]\<rparr>))"

section \<open>Track records and the JSON of one track\<close>

text \<open>
  The structs Artist and Album of SpotifyRequest, and the fields of Song that ParseSong
  sets and the crawl reads back. Song's own code is not among the sources: a setter
  stores its argument and the accessor of the same name returns it. The Song fields that
  would share a name with a field of Artist or Album carry the prefix \<open>song_\<close>. A QUrl is
  the text it was built from.
\<close>

record Artist =
  artist_id :: string
  artist :: string

record Album =
  album_id :: string
  album :: string
  cover_url :: string
  album_explicit :: bool

definition new_Artist :: Artist where
  "new_Artist = \<lparr>artist_id = [], artist = []\<rparr>"

definition new_Album :: Album where
  "new_Album = \<lparr>album_id = [], album = [], cover_url = [], album_explicit = False\<rparr>"

record Song =
  song_id :: string
  song_album_id :: string
  song_artist_id :: string
  albumartist :: string
  song_album :: string
  song_artist :: string
  title :: string
  track :: int
  disc :: int
  url :: string
  length_nanosec :: int
  art_automatic :: string
  compilation_detected :: bool
  valid :: bool

type_synonym SongList = "Song list"

definition new_Song :: Song where
  "new_Song = \<lparr>song_id = [], song_album_id = [], song_artist_id = [], albumartist = [],
               song_album = [], song_artist = [], title = [], track = - 1, disc = - 1, url = [],
               length_nanosec = - 1, art_automatic = [], compilation_detected = False,
               valid = False\<rparr>"

text \<open>
  What the crawl calls but the sources do not hold, as parameters: the regular expression
  \<open>Song::kTitleRemoveMisc\<close> (as the function that removes its matches), \<open>kNsecPerSec\<close>,
  \<open>Song::is_compilation\<close>, Qt's conversion of a JSON value through QVariant to a qint64
  and to a bool, \<open>AlbumCoverLoader::CoverFilePath\<close> applied to a song and a cover URL, and
  whether ImageUtils lists a MIME type among its supported types or formats.
\<close>

record env =
  title_remove_misc :: "string \<Rightarrow> string"
  kNsecPerSec :: int
  is_compilation :: "Song \<Rightarrow> bool"
  toLongLong :: "json \<Rightarrow> int"
  toBool :: "json \<Rightarrow> bool"
  CoverFilePath :: "Song \<Rightarrow> string \<Rightarrow> string"
  supported_mimetype :: "string \<Rightarrow> bool"

text \<open>
  The loop over \<open>array_images\<close>, the same in AlbumsReceived and in ParseSong: the local
  \<open>cover_url\<close> (here \<open>cover\<close>) is assigned at every image that passes the checks, and no \<open>break\<close> leaves
  the loop.
\<close>

fun images_loop :: "string \<Rightarrow> json list \<Rightarrow> string" where
  "images_loop cover [] = cover"
| "images_loop cover (v # array_images) =
     (if \<not> isObject v then images_loop cover array_images
      else
        let obj_image = toObject v in
        if obj_image = [] \<or> \<not> contains obj_image ''url'' \<or> \<not> contains obj_image ''width''
             \<or> \<not> contains obj_image ''height'' then images_loop cover array_images
        else
          let width = toInt (field obj_image ''width'');
              height = toInt (field obj_image ''height'')
          in if width \<le> 300 \<or> height \<le> 300 then images_loop cover array_images
             else images_loop (toString (field obj_image ''url'')) array_images)"

text \<open>The loop over \<open>array_artists\<close> of ParseSong, which stops at the first artist it accepts.\<close>

fun artists_loop :: "json list \<Rightarrow> string \<times> string" where
  "artists_loop [] = ([], [])"
| "artists_loop (value_artist # array_artists) =
     (if \<not> isObject value_artist then artists_loop array_artists
      else
        let obj_artist = toObject value_artist in
        if \<not> contains obj_artist ''type'' \<or> \<not> contains obj_artist ''id''
             \<or> \<not> contains obj_artist ''name'' then artists_loop array_artists
        else (toString (field obj_artist ''id''), toString (field obj_artist ''name'')))"

text \<open>
  ParseSong: the song it fills, or the text it reports through \<open>Error\<close> when it leaves the
  song as it was (not valid).
\<close>

definition ParseSong :: "env \<Rightarrow> Song \<Rightarrow> json_object \<Rightarrow> Artist \<Rightarrow> Album \<Rightarrow> Song \<times> string option" where
  "ParseSong E song json_obj album_artist album_arg =
     (if \<not> contains json_obj ''type'' \<or> \<not> contains json_obj ''id'' \<or> \<not> contains json_obj ''name''
           \<or> \<not> contains json_obj ''uri'' \<or> \<not> contains json_obj ''duration_ms''
           \<or> \<not> contains json_obj ''track_number'' \<or> \<not> contains json_obj ''disc_number''
           \<or> \<not> contains json_obj ''explicit'' then
        (song, Some ''Invalid Json reply, track is missing one or more values.'')
      else
        let (artist_id0, artist_title0) =
              (if contains json_obj ''artists'' \<and> isArray (field json_obj ''artists'')
               then artists_loop (toArray (field json_obj ''artists'')) else ([], []));
            (album_id0, album_title0, cover_url0) =
              (if contains json_obj ''album'' \<and> isObject (field json_obj ''album'') then
                 let obj_album = toObject (field json_obj ''album'') in
                 if contains obj_album ''type'' \<and> contains obj_album ''id'' \<and> contains obj_album ''name''
                 then (toString (field obj_album ''id''), toString (field obj_album ''name''),
                       (if contains obj_album ''images'' \<and> isArray (field obj_album ''images'')
                        then images_loop [] (toArray (field obj_album ''images'')) else []))
                 else ([], [], [])
               else ([], [], []));
            (artist_id1, artist_title1) =
              (if artist_id0 = [] \<or> artist_title0 = [] then (artist_id album_artist, artist album_artist)
               else (artist_id0, artist_title0));
            (album_id1, album_title1, cover_url1) =
              (if album_id0 = [] \<or> album_title0 = [] \<or> cover_url0 = []
               then (album_id album_arg, album album_arg, cover_url album_arg)
               else (album_id0, album_title0, cover_url0));
            song1 = song\<lparr>song_id := toString (field json_obj ''id''),
                         song_album_id := album_id1,
                         song_artist_id := artist_id1\<rparr>;
            song2 = (if artist album_artist \<noteq> artist_title1
                     then song1\<lparr>albumartist := artist album_artist\<rparr> else song1)
        in (song2\<lparr>song_album := album_title1,
                   song_artist := artist_title1,
                   title := title_remove_misc E (toString (field json_obj ''name'')),
                   track := toInt (field json_obj ''track_number''),
                   disc := toInt (field json_obj ''disc_number''),
                   url := toString (field json_obj ''uri''),
                   length_nanosec := toLongLong E (field json_obj ''duration'') * kNsecPerSec E,
                   art_automatic := cover_url1,
                   valid := True\<rparr>, None))"

section \<open>QMap and QMultiMap\<close>

text \<open>
  A QMap is a list of pairs sorted by key, with one pair for a key: \<open>insert\<close> replaces the
  value of a key that is present. A QMultiMap keeps every pair; a new pair goes before the
  pairs that have its key, so that \<open>take\<close> and \<open>values\<close> see the most recent first. QString
  compares by code unit, as the lexicographic order on \<open>string\<close> does.
\<close>

definition qcontains :: "('k \<times> 'v) list \<Rightarrow> 'k \<Rightarrow> bool" where
  "qcontains m k = (k \<in> fst ` set m)"

fun qmap_insert :: "'k::linorder \<Rightarrow> 'v \<Rightarrow> ('k \<times> 'v) list \<Rightarrow> ('k \<times> 'v) list" where
  "qmap_insert k v [] = [(k, v)]"
| "qmap_insert k v ((k', v') # m) =
     (if k < k' then (k, v) # (k', v') # m
      else if k = k' then (k, v) # m
      else (k', v') # qmap_insert k v m)"

fun qmultimap_insert :: "'k::linorder \<Rightarrow> 'v \<Rightarrow> ('k \<times> 'v) list \<Rightarrow> ('k \<times> 'v) list" where
  "qmultimap_insert k v [] = [(k, v)]"
| "qmultimap_insert k v ((k', v') # m) =
     (if k \<le> k' then (k, v) # (k', v') # m else (k', v') # qmultimap_insert k v m)"

definition qvalues :: "('k \<times> 'v) list \<Rightarrow> 'v list" where
  "qvalues m = map snd m"

definition qvalues_of :: "('k \<times> 'v) list \<Rightarrow> 'k \<Rightarrow> 'v list" where
  "qvalues_of m k = map snd (filter (\<lambda>kv. fst kv = k) m)"

definition uniqueKeys :: "('k \<times> 'v) list \<Rightarrow> 'k list" where
  "uniqueKeys m = remdups_adj (map fst m)"

definition qremove :: "'k \<Rightarrow> ('k \<times> 'v) list \<Rightarrow> ('k \<times> 'v) list" where
  "qremove k m = filter (\<lambda>kv. fst kv \<noteq> k) m"

text \<open>\<open>take\<close>: the value of the first pair with the key, and the map without that pair.\<close>

fun qtake :: "'k \<Rightarrow> ('k \<times> 'v) list \<Rightarrow> 'v option \<times> ('k \<times> 'v) list" where
  "qtake k [] = (None, [])"
| "qtake k ((k', v') # m) =
     (if k = k' then (Some v', m) else (case qtake k m of (r, m') \<Rightarrow> (r, (k', v') # m')))"

type_synonym SongMap = "(string \<times> Song) list"

section \<open>The crawl: SpotifyRequest\<close>

datatype QueryType =
    QueryType_None
  | QueryType_Artists
  | QueryType_Albums
  | QueryType_Songs
  | QueryType_SearchArtists
  | QueryType_SearchAlbums
  | QueryType_SearchSongs
  | QueryType_StreamURL

record Request =
  offset :: int
  limit :: int

record ArtistAlbumsRequest =
  aa_artist :: Artist
  aa_offset :: int
  aa_limit :: int

record AlbumSongsRequest =
  as_artist :: Artist
  as_album :: Album
  as_offset :: int
  as_limit :: int

record AlbumCoverRequest =
  ac_artist_id :: string
  ac_album_id :: string
  ac_url :: string
  ac_filename :: string

datatype signal =
    Results int SongMap string
  | UpdateStatus int string
  | ProgressSetMaximum int int
  | UpdateProgress int int

text \<open>
  The lambda connected to the \<open>finished\<close> signal of a reply: the slot it calls and the
  values it captured.
\<close>

datatype continuation =
    ArtistsReply int int
  | AlbumsReply int int
  | SongsReply int int
  | ArtistAlbumsReply Artist int
  | AlbumSongsReply Artist Album int
  | AlbumCoverReply string string string

text \<open>
  The members of one SpotifyRequest. A QNetworkReply pointer is a number. The counters are
  C++ ints; the model counts in \<open>int\<close>.
\<close>

record members =
  service :: service
  query_type :: QueryType
  fetchalbums :: bool
  query_id :: int
  search_text :: string
  finished :: bool
  artists_requests_queue :: "Request list"
  albums_requests_queue :: "Request list"
  songs_requests_queue :: "Request list"
  artist_albums_requests_queue :: "ArtistAlbumsRequest list"
  album_songs_requests_queue :: "AlbumSongsRequest list"
  album_cover_requests_queue :: "AlbumCoverRequest list"
  artist_albums_requests_pending :: "(string \<times> ArtistAlbumsRequest) list"
  album_songs_requests_pending :: "(string \<times> AlbumSongsRequest) list"
  album_covers_requests_sent :: "(string \<times> string) list"
  artists_requests_active :: int
  artists_total :: int
  artists_received :: int
  albums_requests_active :: int
  songs_requests_active :: int
  artist_albums_requests_active :: int
  artist_albums_requested :: int
  artist_albums_received :: int
  album_songs_requests_active :: int
  album_songs_requested :: int
  album_songs_received :: int
  album_covers_requests_active :: int
  album_covers_requested :: int
  album_covers_received :: int
  songs :: SongMap
  errors :: "string list"
  no_results :: bool
  replies :: "nat list"
  album_cover_replies :: "nat list"

text \<open>
  A crawl is the members with what surrounds the object: \<open>next_reply\<close> is the next fresh
  reply, \<open>network\<close> lists the requests handed to the network (reply, resource or URL,
  parameters), \<open>connections\<close> the replies whose \<open>finished\<close> signal is still to come with
  the lambda connected to it, and \<open>emitted\<close> the signals emitted so far, each with the
  members as they were when it was emitted, which is what a slot connected to the signal
  finds.
\<close>

record crawl = members +
  connections :: "(nat \<times> continuation) list"
  next_reply :: nat
  network :: "(nat \<times> string \<times> (string \<times> string) list) list"
  emitted :: "(signal \<times> members) list"

definition kMaxConcurrentArtistsRequests :: int where
  "kMaxConcurrentArtistsRequests = 3"

definition kMaxConcurrentAlbumsRequests :: int where
  "kMaxConcurrentAlbumsRequests = 3"

definition kMaxConcurrentSongsRequests :: int where
  "kMaxConcurrentSongsRequests = 3"

definition kMaxConcurrentArtistAlbumsRequests :: int where
  "kMaxConcurrentArtistAlbumsRequests = 3"

definition kMaxConcurrentAlbumSongsRequests :: int where
  "kMaxConcurrentAlbumSongsRequests = 3"

definition kMaxConcurrentAlbumCoverRequests :: int where
  "kMaxConcurrentAlbumCoverRequests = 1"

text \<open>The constructor.\<close>

definition SpotifyRequest :: "service \<Rightarrow> QueryType \<Rightarrow> crawl" where
  "SpotifyRequest svc t =
     \<lparr>service = svc, query_type = t, fetchalbums = service_fetchalbums svc, query_id = - 1,
      search_text = [], finished = False,
      artists_requests_queue = [], albums_requests_queue = [], songs_requests_queue = [],
      artist_albums_requests_queue = [], album_songs_requests_queue = [],
      album_cover_requests_queue = [],
      artist_albums_requests_pending = [], album_songs_requests_pending = [],
      album_covers_requests_sent = [],
      artists_requests_active = 0, artists_total = 0, artists_received = 0,
      albums_requests_active = 0, songs_requests_active = 0,
      artist_albums_requests_active = 0, artist_albums_requested = 0, artist_albums_received = 0,
      album_songs_requests_active = 0, album_songs_requested = 0, album_songs_received = 0,
      album_covers_requests_active = 0, album_covers_requested = 0, album_covers_received = 0,
      songs = [], errors = [], no_results = False, replies = [], album_cover_replies = [],
      connections = [], next_reply = 0, network = [], emitted = []\<rparr>"

definition emit :: "signal \<Rightarrow> crawl \<Rightarrow> crawl" where
  "emit sig st = st\<lparr>emitted := emitted st @ [(sig, members.truncate st)]\<rparr>"

definition signals :: "crawl \<Rightarrow> signal list" where
  "signals st = map fst (emitted st)"

definition IsQuery :: "crawl \<Rightarrow> bool" where
  "IsQuery st = (query_type st = QueryType_Artists \<or> query_type st = QueryType_Albums
                  \<or> query_type st = QueryType_Songs)"

definition IsSearch :: "crawl \<Rightarrow> bool" where
  "IsSearch st = (query_type st = QueryType_SearchArtists \<or> query_type st = QueryType_SearchAlbums
                   \<or> query_type st = QueryType_SearchSongs)"

subsection \<open>FinishCheck and Error\<close>

text \<open>The condition of the \<open>if\<close> of FinishCheck, conjunct by conjunct.\<close>

definition finish_condition :: "crawl \<Rightarrow> bool" where
  "finish_condition st =
     (\<not> finished st \<and>
      albums_requests_queue st = [] \<and>
      artists_requests_queue st = [] \<and>
      songs_requests_queue st = [] \<and>
      artist_albums_requests_queue st = [] \<and>
      album_songs_requests_queue st = [] \<and>
      album_cover_requests_queue st = [] \<and>
      artist_albums_requests_pending st = [] \<and>
      album_songs_requests_pending st = [] \<and>
      album_covers_requests_sent st = [] \<and>
      artists_requests_active st \<le> 0 \<and>
      albums_requests_active st \<le> 0 \<and>
      songs_requests_active st \<le> 0 \<and>
      artist_albums_requests_active st \<le> 0 \<and>
      artist_albums_received st \<ge> artist_albums_requested st \<and>
      album_songs_requests_active st \<le> 0 \<and>
      album_songs_received st \<ge> album_songs_requested st \<and>
      album_covers_requested st \<le> album_covers_received st \<and>
      album_covers_requests_active st \<le> 0 \<and>
      album_covers_received st \<ge> album_covers_requested st)"

definition FinishCheck :: "crawl \<Rightarrow> crawl" where
  "FinishCheck st =
     (if finish_condition st then
        let st1 = st\<lparr>finished := True\<rparr> in
        if no_results st1 \<and> songs st1 = [] then
          (if IsSearch st1 then emit (Results (query_id st1) [] ''No match.'') st1
           else emit (Results (query_id st1) [] []) st1)
        else
          (if songs st1 = [] \<and> errors st1 = [] then
             emit (Results (query_id st1) (songs st1) ''Unknown error'') st1
           else emit (Results (query_id st1) (songs st1) (ErrorsToHTML (errors st1))) st1)
      else st)"

definition Error :: "string \<Rightarrow> crawl \<Rightarrow> crawl" where
  "Error err st = FinishCheck (if err \<noteq> [] then st\<lparr>errors := errors st @ [err]\<rparr> else st)"

text \<open>A call of \<open>Error\<close> that a helper of the transport layer makes, if it makes one.\<close>

fun report :: "string option \<Rightarrow> crawl \<Rightarrow> crawl" where
  "report None st = st"
| "report (Some err) st = Error err st"

text \<open>The effects of \<open>GetReplyData(reply)\<close> on the crawl; its result is \<open>data (GetReplyData reply)\<close>.\<close>

definition received :: "reply \<Rightarrow> crawl \<Rightarrow> crawl" where
  "received reply st =
     report (reported (GetReplyData reply))
       (if deauthenticated (GetReplyData reply) then st\<lparr>service := Deauthenticate (service st)\<rparr>
        else st)"

text \<open>
  \<open>network_->get(req)\<close> hands a request to the network and returns the new reply, which is
  \<open>next_reply\<close> of the state before the call. CreateRequest builds the request from the
  resource name and the parameters and gets it; the \<open>sslErrors\<close> signal that it connects
  to HandleSSLErrors is delivered by \<open>step\<close> below.
\<close>

definition network_get :: "string \<Rightarrow> (string \<times> string) list \<Rightarrow> crawl \<Rightarrow> crawl" where
  "network_get u params st =
     st\<lparr>network := network st @ [(next_reply st, u, params)],
        next_reply := Suc (next_reply st)\<rparr>"

definition CreateRequest :: "string \<Rightarrow> (string \<times> string) list \<Rightarrow> crawl \<Rightarrow> crawl" where
  "CreateRequest ressource_name params st = network_get ressource_name params st"

definition connect :: "nat \<Rightarrow> continuation \<Rightarrow> crawl \<Rightarrow> crawl" where
  "connect reply k st = st\<lparr>connections := connections st @ [(reply, k)]\<rparr>"

definition limit_offset_params :: "int \<Rightarrow> int \<Rightarrow> (string \<times> string) list" where
  "limit_offset_params l off =
     (if l > 0 then [(''limit'', QString_number l)] else []) @
     (if off > 0 then [(''offset'', QString_number off)] else [])"

subsection \<open>The request queues of the three top tiers\<close>

text \<open>
  Each \<open>Flush...Requests\<close> is the loop of the source; \<open>..._step\<close> is its body, run when the
  queue is not empty. Where the query type names no resource the reply stays \<open>nullptr\<close> and
  the body ends at \<open>continue\<close>, after it has counted the request as active.
\<close>

definition FlushArtistsRequests_step :: "crawl \<Rightarrow> crawl" where
  "FlushArtistsRequests_step st =
     (case artists_requests_queue st of
        [] \<Rightarrow> st
      | request # queue \<Rightarrow>
          let st1 = st\<lparr>artists_requests_queue := queue,
                       artists_requests_active := artists_requests_active st + 1\<rparr>;
              parameters =
                (if query_type st = QueryType_SearchArtists
                 then [(''type'', ''artist''), (''q'', search_text st)] else [])
                @ limit_offset_params (limit request) (offset request)
          in if query_type st = QueryType_Artists \<or> query_type st = QueryType_SearchArtists then
               let reply = next_reply st1;
                   st2 = CreateRequest
                           (if query_type st = QueryType_Artists then ''me/artists'' else ''search'')
                           parameters st1
               in connect reply (ArtistsReply (limit request) (offset request))
                    (st2\<lparr>replies := replies st2 @ [reply]\<rparr>)
             else st1)"

function FlushArtistsRequests :: "crawl \<Rightarrow> crawl" where
  "FlushArtistsRequests st =
     (if artists_requests_queue st \<noteq> []
         \<and> artists_requests_active st < kMaxConcurrentArtistsRequests
      then FlushArtistsRequests (FlushArtistsRequests_step st) else st)"
  by pat_completeness auto
termination
  by (relation "measure (\<lambda>st. length (artists_requests_queue st))")
     (auto simp: FlushArtistsRequests_step_def CreateRequest_def network_get_def connect_def Let_def
           split: list.splits)

declare FlushArtistsRequests.simps [simp del]

definition AddArtistsRequest :: "int \<Rightarrow> int \<Rightarrow> crawl \<Rightarrow> crawl" where
  "AddArtistsRequest off l st =
     (let st1 = st\<lparr>artists_requests_queue :=
                     artists_requests_queue st @ [\<lparr>offset = off, limit = l\<rparr>]\<rparr>
      in if artists_requests_active st1 < kMaxConcurrentArtistsRequests
         then FlushArtistsRequests st1 else st1)"

definition AddArtistsSearchRequest :: "int \<Rightarrow> crawl \<Rightarrow> crawl" where
  "AddArtistsSearchRequest off st = AddArtistsRequest off (artistssearchlimit (service st)) st"

definition FlushAlbumsRequests_step :: "crawl \<Rightarrow> crawl" where
  "FlushAlbumsRequests_step st =
     (case albums_requests_queue st of
        [] \<Rightarrow> st
      | request # queue \<Rightarrow>
          let st1 = st\<lparr>albums_requests_queue := queue,
                       albums_requests_active := albums_requests_active st + 1\<rparr>;
              parameters =
                (if query_type st = QueryType_SearchAlbums
                 then [(''type'', ''album''), (''q'', search_text st)] else [])
                @ limit_offset_params (limit request) (offset request)
          in if query_type st = QueryType_Albums \<or> query_type st = QueryType_SearchAlbums then
               let reply = next_reply st1;
                   st2 = CreateRequest
                           (if query_type st = QueryType_Albums then ''me/albums'' else ''search'')
                           parameters st1
               in connect reply (AlbumsReply (limit request) (offset request))
                    (st2\<lparr>replies := replies st2 @ [reply]\<rparr>)
             else st1)"

function FlushAlbumsRequests :: "crawl \<Rightarrow> crawl" where
  "FlushAlbumsRequests st =
     (if albums_requests_queue st \<noteq> []
         \<and> albums_requests_active st < kMaxConcurrentAlbumsRequests
      then FlushAlbumsRequests (FlushAlbumsRequests_step st) else st)"
  by pat_completeness auto
termination
  by (relation "measure (\<lambda>st. length (albums_requests_queue st))")
     (auto simp: FlushAlbumsRequests_step_def CreateRequest_def network_get_def connect_def Let_def
           split: list.splits)

declare FlushAlbumsRequests.simps [simp del]

definition AddAlbumsRequest :: "int \<Rightarrow> int \<Rightarrow> crawl \<Rightarrow> crawl" where
  "AddAlbumsRequest off l st =
     (let st1 = st\<lparr>albums_requests_queue :=
                     albums_requests_queue st @ [\<lparr>offset = off, limit = l\<rparr>]\<rparr>
      in if albums_requests_active st1 < kMaxConcurrentAlbumsRequests
         then FlushAlbumsRequests st1 else st1)"

definition AddAlbumsSearchRequest :: "int \<Rightarrow> crawl \<Rightarrow> crawl" where
  "AddAlbumsSearchRequest off st = AddAlbumsRequest off (albumssearchlimit (service st)) st"

definition FlushSongsRequests_step :: "crawl \<Rightarrow> crawl" where
  "FlushSongsRequests_step st =
     (case songs_requests_queue st of
        [] \<Rightarrow> st
      | request # queue \<Rightarrow>
          let st1 = st\<lparr>songs_requests_queue := queue,
                       songs_requests_active := songs_requests_active st + 1\<rparr>;
              parameters =
                (if query_type st = QueryType_SearchSongs
                 then [(''type'', ''track''), (''q'', search_text st)] else [])
                @ limit_offset_params (limit request) (offset request)
          in if query_type st = QueryType_Songs \<or> query_type st = QueryType_SearchSongs then
               let reply = next_reply st1;
                   st2 = CreateRequest
                           (if query_type st = QueryType_Songs then ''me/tracks'' else ''search'')
                           parameters st1
               in connect reply (SongsReply (limit request) (offset request))
                    (st2\<lparr>replies := replies st2 @ [reply]\<rparr>)
             else st1)"

function FlushSongsRequests :: "crawl \<Rightarrow> crawl" where
  "FlushSongsRequests st =
     (if songs_requests_queue st \<noteq> []
         \<and> songs_requests_active st < kMaxConcurrentSongsRequests
      then FlushSongsRequests (FlushSongsRequests_step st) else st)"
  by pat_completeness auto
termination
  by (relation "measure (\<lambda>st. length (songs_requests_queue st))")
     (auto simp: FlushSongsRequests_step_def CreateRequest_def network_get_def connect_def Let_def
           split: list.splits)

declare FlushSongsRequests.simps [simp del]

definition AddSongsRequest :: "int \<Rightarrow> int \<Rightarrow> crawl \<Rightarrow> crawl" where
  "AddSongsRequest off l st =
     (let st1 = st\<lparr>songs_requests_queue :=
                     songs_requests_queue st @ [\<lparr>offset = off, limit = l\<rparr>]\<rparr>
      in if songs_requests_active st1 < kMaxConcurrentSongsRequests
         then FlushSongsRequests st1 else st1)"

definition AddSongsSearchRequest :: "int \<Rightarrow> crawl \<Rightarrow> crawl" where
  "AddSongsSearchRequest off st = AddSongsRequest off (songssearchlimit (service st)) st"

subsection \<open>The queues of the per-artist and per-album listings\<close>

definition FlushArtistAlbumsRequests_step :: "crawl \<Rightarrow> crawl" where
  "FlushArtistAlbumsRequests_step st =
     (case artist_albums_requests_queue st of
        [] \<Rightarrow> st
      | request # queue \<Rightarrow>
          let st1 = st\<lparr>artist_albums_requests_queue := queue,
                       artist_albums_requests_active := artist_albums_requests_active st + 1\<rparr>;
              parameters = limit_offset_params 0 (aa_offset request);
              reply = next_reply st1;
              st2 = CreateRequest
                      (''artists/'' @ artist_id (aa_artist request) @ ''/albums'') parameters st1;
              st3 = connect reply (ArtistAlbumsReply (aa_artist request) (aa_offset request)) st2
          in st3\<lparr>replies := replies st3 @ [reply]\<rparr>)"

function FlushArtistAlbumsRequests :: "crawl \<Rightarrow> crawl" where
  "FlushArtistAlbumsRequests st =
     (if artist_albums_requests_queue st \<noteq> []
         \<and> artist_albums_requests_active st < kMaxConcurrentArtistAlbumsRequests
      then FlushArtistAlbumsRequests (FlushArtistAlbumsRequests_step st) else st)"
  by pat_completeness auto
termination
  by (relation "measure (\<lambda>st. length (artist_albums_requests_queue st))")
     (auto simp: FlushArtistAlbumsRequests_step_def CreateRequest_def network_get_def connect_def Let_def
           split: list.splits)

declare FlushArtistAlbumsRequests.simps [simp del]

definition AddArtistAlbumsRequest :: "Artist \<Rightarrow> int \<Rightarrow> crawl \<Rightarrow> crawl" where
  "AddArtistAlbumsRequest a off st =
     (let st1 = st\<lparr>artist_albums_requests_queue :=
                     artist_albums_requests_queue st
                       @ [\<lparr>aa_artist = a, aa_offset = off, aa_limit = 0\<rparr>]\<rparr>
      in if artist_albums_requests_active st1 < kMaxConcurrentArtistAlbumsRequests
         then FlushArtistAlbumsRequests st1 else st1)"

definition FlushAlbumSongsRequests_step :: "crawl \<Rightarrow> crawl" where
  "FlushAlbumSongsRequests_step st =
     (case album_songs_requests_queue st of
        [] \<Rightarrow> st
      | request # queue \<Rightarrow>
          let st1 = st\<lparr>album_songs_requests_queue := queue,
                       album_songs_requests_active := album_songs_requests_active st + 1\<rparr>;
              parameters = limit_offset_params 0 (as_offset request);
              reply = next_reply st1;
              st2 = CreateRequest
                      (''albums/'' @ album_id (as_album request) @ ''/tracks'') parameters st1;
              st3 = st2\<lparr>replies := replies st2 @ [reply]\<rparr>
          in connect reply
               (AlbumSongsReply (as_artist request) (as_album request) (as_offset request)) st3)"

function FlushAlbumSongsRequests :: "crawl \<Rightarrow> crawl" where
  "FlushAlbumSongsRequests st =
     (if album_songs_requests_queue st \<noteq> []
         \<and> album_songs_requests_active st < kMaxConcurrentAlbumSongsRequests
      then FlushAlbumSongsRequests (FlushAlbumSongsRequests_step st) else st)"
  by pat_completeness auto
termination
  by (relation "measure (\<lambda>st. length (album_songs_requests_queue st))")
     (auto simp: FlushAlbumSongsRequests_step_def CreateRequest_def network_get_def connect_def Let_def
           split: list.splits)

declare FlushAlbumSongsRequests.simps [simp del]

definition AddAlbumSongsRequest :: "Artist \<Rightarrow> Album \<Rightarrow> int \<Rightarrow> crawl \<Rightarrow> crawl" where
  "AddAlbumSongsRequest a al off st =
     (let st1 = st\<lparr>album_songs_requests_queue :=
                     album_songs_requests_queue st
                       @ [\<lparr>as_artist = a, as_album = al, as_offset = off, as_limit = 0\<rparr>],
                   album_songs_requested := album_songs_requested st + 1\<rparr>
      in if album_songs_requests_active st1 < kMaxConcurrentAlbumSongsRequests
         then FlushAlbumSongsRequests st1 else st1)"

subsection \<open>Album covers\<close>

definition AddAlbumCoverRequest :: "env \<Rightarrow> Song \<Rightarrow> crawl \<Rightarrow> crawl" where
  "AddAlbumCoverRequest E song st =
     (if qcontains (album_covers_requests_sent st) (song_album_id song) then
        st\<lparr>album_covers_requests_sent :=
             qmultimap_insert (song_album_id song) (song_id song) (album_covers_requests_sent st)\<rparr>
      else
        let request = \<lparr>ac_artist_id = [], ac_album_id = song_album_id song,
                       ac_url = art_automatic song,
                       ac_filename = CoverFilePath E song (art_automatic song)\<rparr>
        in if ac_filename request = [] then st
           else st\<lparr>album_covers_requests_sent :=
                      qmultimap_insert (song_album_id song) (song_id song)
                        (album_covers_requests_sent st),
                    album_covers_requested := album_covers_requested st + 1,
                    album_cover_requests_queue := album_cover_requests_queue st @ [request]\<rparr>)"

definition FlushAlbumCoverRequests_step :: "crawl \<Rightarrow> crawl" where
  "FlushAlbumCoverRequests_step st =
     (case album_cover_requests_queue st of
        [] \<Rightarrow> st
      | request # queue \<Rightarrow>
          let st1 = st\<lparr>album_cover_requests_queue := queue,
                       album_covers_requests_active := album_covers_requests_active st + 1\<rparr>;
              reply = next_reply st1;
              st2 = network_get (ac_url request) [] st1;
              st3 = st2\<lparr>album_cover_replies := album_cover_replies st2 @ [reply]\<rparr>
          in connect reply
               (AlbumCoverReply (ac_album_id request) (ac_url request) (ac_filename request)) st3)"

function FlushAlbumCoverRequests :: "crawl \<Rightarrow> crawl" where
  "FlushAlbumCoverRequests st =
     (if album_cover_requests_queue st \<noteq> []
         \<and> album_covers_requests_active st < kMaxConcurrentAlbumCoverRequests
      then FlushAlbumCoverRequests (FlushAlbumCoverRequests_step st) else st)"
  by pat_completeness auto
termination
  by (relation "measure (\<lambda>st. length (album_cover_requests_queue st))")
     (auto simp: FlushAlbumCoverRequests_step_def CreateRequest_def network_get_def connect_def Let_def
           split: list.splits)

declare FlushAlbumCoverRequests.simps [simp del]

definition status_text :: "string \<Rightarrow> int \<Rightarrow> string \<Rightarrow> string" where
  "status_text pre n post = pre @ QString_number n @ post"

definition GetAlbumCovers :: "env \<Rightarrow> crawl \<Rightarrow> crawl" where
  "GetAlbumCovers E st =
     (let st1 = fold (AddAlbumCoverRequest E) (qvalues (songs st)) st;
          st2 = FlushAlbumCoverRequests st1;
          st3 = (if album_covers_requested st2 = 1
                 then emit (UpdateStatus (query_id st2)
                        (status_text ''Retrieving album cover for '' (album_covers_requested st2)
                           '' album...'')) st2
                 else emit (UpdateStatus (query_id st2)
                        (status_text ''Retrieving album covers for '' (album_covers_requested st2)
                           '' albums...'')) st2);
          st4 = emit (ProgressSetMaximum (query_id st3) (album_covers_requested st3)) st3
      in emit (UpdateProgress (query_id st4) 0) st4)"

definition AlbumCoverFinishCheck :: "crawl \<Rightarrow> crawl" where
  "AlbumCoverFinishCheck st =
     FinishCheck
       (if album_cover_requests_queue st \<noteq> []
           \<and> album_covers_requests_active st < kMaxConcurrentAlbumCoverRequests
        then FlushAlbumCoverRequests st else st)"

subsection \<open>The artists tier\<close>

definition ArtistsFinishCheck :: "int \<Rightarrow> int \<Rightarrow> int \<Rightarrow> crawl \<Rightarrow> crawl" where
  "ArtistsFinishCheck l off artists_recv st =
     (if finished st then st
      else
        let st1 =
              (if (l = 0 \<or> l > artists_recv) \<and> artists_received st < artists_total st then
                 let offset_next = off + artists_recv in
                 if offset_next > 0 \<and> offset_next < artists_total st then
                   (if query_type st = QueryType_Artists then AddArtistsRequest offset_next 0 st
                    else if query_type st = QueryType_SearchArtists
                    then AddArtistsSearchRequest offset_next st
                    else st)
                 else st
               else st);
            st2 =
              (if artists_requests_queue st1 \<noteq> []
                  \<and> artists_requests_active st1 < kMaxConcurrentArtistsRequests
               then FlushArtistsRequests st1 else st1);
            st3 =
              (if artists_requests_queue st2 = [] \<and> artists_requests_active st2 \<le> 0 then
                 let st4 = fold (\<lambda>request s.
                                  let s1 = AddArtistAlbumsRequest (aa_artist request) 0 s
                                  in s1\<lparr>artist_albums_requested := artist_albums_requested s1 + 1\<rparr>)
                             (qvalues (artist_albums_requests_pending st2)) st2;
                     st5 = st4\<lparr>artist_albums_requests_pending := []\<rparr>
                 in if artist_albums_requested st5 > 0 then
                      let st6 =
                            (if artist_albums_requested st5 = 1
                             then emit (UpdateStatus (query_id st5)
                                    (status_text ''Retrieving albums for ''
                                       (artist_albums_requested st5) '' artist...'')) st5
                             else emit (UpdateStatus (query_id st5)
                                    (status_text ''Retrieving albums for ''
                                       (artist_albums_requested st5) '' artists...'')) st5);
                          st7 = emit (ProgressSetMaximum (query_id st6) (artist_albums_requested st6)) st6
                      in emit (UpdateProgress (query_id st7) 0) st7
                    else st5
               else st2)
        in FinishCheck st3)"

text \<open>One turn of the loop over \<open>array_items\<close> of ArtistsReplyReceived.\<close>

definition artists_item :: "json \<Rightarrow> crawl \<Rightarrow> crawl" where
  "artists_item value_item st =
     (if \<not> isObject value_item then Error ''Invalid Json reply, item in array is not a object.'' st
      else
        let obj_item0 = toObject value_item in
        if contains obj_item0 ''item'' \<and> \<not> isObject (field obj_item0 ''item'') then
          Error ''Invalid Json reply, item in array is not a object.'' st
        else
          let obj_item = (if contains obj_item0 ''item'' then toObject (field obj_item0 ''item'')
                          else obj_item0)
          in if \<not> contains obj_item ''id'' \<or> \<not> contains obj_item ''name'' then
               Error ''Invalid Json reply, item missing id or album.'' st
             else
               let a_id = toString (field obj_item ''id'');
                   a_name = toString (field obj_item ''name'')
               in if qcontains (artist_albums_requests_pending st) a_id then st
                  else st\<lparr>artist_albums_requests_pending :=
                            qmap_insert a_id
                              \<lparr>aa_artist = \<lparr>artist_id = a_id, artist = a_name\<rparr>,
                               aa_offset = 0, aa_limit = 0\<rparr>
                              (artist_albums_requests_pending st)\<rparr>)"

definition offset_mismatch :: "int \<Rightarrow> int \<Rightarrow> string" where
  "offset_mismatch off offset_requested =
     ''Offset returned does not match offset requested! '' @ QString_number off @ '' != ''
       @ QString_number offset_requested"

definition ArtistsReplyReceived :: "nat \<Rightarrow> reply \<Rightarrow> int \<Rightarrow> int \<Rightarrow> crawl \<Rightarrow> crawl" where
  "ArtistsReplyReceived r reply limit_requested offset_requested st0 =
     (if r \<notin> set (replies st0) then st0
      else
        let st1 = st0\<lparr>replies := removeAll r (replies st0)\<rparr>;
            st2 = received reply st1;
            bs = data (GetReplyData reply);
            st = st2\<lparr>artists_requests_active := artists_requests_active st2 - 1\<rparr>
        in if finished st then st
           else if bs = NoBytes then ArtistsFinishCheck 0 0 0 st
           else
             let st3 = report (snd (ExtractJsonObj bs)) st;
                 json_obj = fst (ExtractJsonObj bs)
             in if json_obj = [] then ArtistsFinishCheck 0 0 0 st3
                else if \<not> contains json_obj ''artists'' \<or> \<not> isObject (field json_obj ''artists'') then
                  ArtistsFinishCheck 0 0 0 (Error ''Json object missing artists.'' st3)
                else
                  let obj_artists = toObject (field json_obj ''artists'') in
                  if \<not> contains obj_artists ''limit'' \<or> \<not> contains obj_artists ''offset''
                       \<or> \<not> contains obj_artists ''total'' \<or> \<not> contains obj_artists ''items'' then
                    ArtistsFinishCheck 0 0 0 (Error ''Json object missing values.'' st3)
                  else
                    let off = toInt (field obj_artists ''offset'');
                        total = toInt (field obj_artists ''total'')
                    in if offset_requested \<noteq> 0 \<and> total \<noteq> artists_total st3 then
                         ArtistsFinishCheck 0 0 0
                           (Error (''Total returned does not match previous total! ''
                                     @ QString_number total @ '' != ''
                                     @ QString_number (artists_total st3)) st3)
                       else
                         let st4 = (if offset_requested = 0 then st3\<lparr>artists_total := total\<rparr>
                                    else st3)
                         in if off \<noteq> offset_requested then
                              ArtistsFinishCheck 0 0 0 (Error (offset_mismatch off offset_requested) st4)
                            else
                              let st5 =
                                    (if offset_requested = 0 then
                                       emit (UpdateProgress (query_id st4) (artists_received st4))
                                         (emit (ProgressSetMaximum (query_id st4) (artists_total st4)) st4)
                                     else st4);
                                  st6 = report (snd (ExtractItems obj_artists)) st5;
                                  value_items = fst (ExtractItems obj_artists)
                              in if \<not> isArray value_items then ArtistsFinishCheck 0 0 0 st6
                                 else
                                   let array_items = toArray value_items in
                                   if array_items = [] then
                                     ArtistsFinishCheck 0 0 0
                                       (if offset_requested = 0 then st6\<lparr>no_results := True\<rparr>
                                        else st6)
                                   else
                                     let st7 = fold artists_item array_items st6;
                                         artists_recv = int (length array_items);
                                         st8 = st7\<lparr>artists_received :=
                                                     artists_received st7 + artists_recv\<rparr>;
                                         st9 = (if offset_requested \<noteq> 0
                                                then emit (UpdateProgress (query_id st8)
                                                             (artists_received st8)) st8
                                                else st8)
                                     in ArtistsFinishCheck limit_requested off artists_recv st9)"

subsection \<open>The albums tier and the per-artist album listings\<close>

definition AlbumsFinishCheck :: "Artist \<Rightarrow> int \<Rightarrow> int \<Rightarrow> int \<Rightarrow> int \<Rightarrow> crawl \<Rightarrow> crawl" where
  "AlbumsFinishCheck a l off albums_total albums_received st =
     (if finished st then st
      else
        let st1 =
              (if l = 0 \<or> l > albums_received then
                 let offset_next = off + albums_received in
                 if offset_next > 0 \<and> offset_next < albums_total then
                   (case query_type st of
                      QueryType_Albums \<Rightarrow> AddAlbumsRequest offset_next 0 st
                    | QueryType_SearchAlbums \<Rightarrow> AddAlbumsSearchRequest offset_next st
                    | QueryType_Artists \<Rightarrow> AddArtistAlbumsRequest a offset_next st
                    | QueryType_SearchArtists \<Rightarrow> AddArtistAlbumsRequest a offset_next st
                    | _ \<Rightarrow> st)
                 else st
               else st);
            st2 =
              (if albums_requests_queue st1 = [] \<and> albums_requests_active st1 \<le> 0
                  \<and> artist_albums_requests_queue st1 = []
                  \<and> artist_albums_requests_active st1 \<le> 0 then
                 let st3 = fold (\<lambda>request s.
                                  AddAlbumSongsRequest (as_artist request) (as_album request) 0 s)
                             (qvalues (album_songs_requests_pending st1)) st1;
                     st4 = st3\<lparr>album_songs_requests_pending := []\<rparr>
                 in if album_songs_requested st4 > 0 then
                      let st5 =
                            (if album_songs_requested st4 = 1
                             then emit (UpdateStatus (query_id st4)
                                    (status_text ''Retrieving songs for ''
                                       (album_songs_requested st4) '' album...'')) st4
                             else emit (UpdateStatus (query_id st4)
                                    (status_text ''Retrieving songs for ''
                                       (album_songs_requested st4) '' albums...'')) st4);
                          st6 = emit (ProgressSetMaximum (query_id st5) (album_songs_requested st5)) st5
                      in emit (UpdateProgress (query_id st6) 0) st6
                    else st4
               else st1)
        in FinishCheck st2)"

definition add_pending_album :: "Artist \<Rightarrow> string \<Rightarrow> string \<Rightarrow> string \<Rightarrow> crawl \<Rightarrow> crawl" where
  "add_pending_album a al_id al_title cover st =
     (if qcontains (album_songs_requests_pending st) al_id then st
      else st\<lparr>album_songs_requests_pending :=
                qmap_insert al_id
                  \<lparr>as_artist = a,
                   as_album = \<lparr>album_id = al_id, album = al_title, cover_url = cover,
                               album_explicit = False\<rparr>,
                   as_offset = 0, as_limit = 0\<rparr>
                  (album_songs_requests_pending st)\<rparr>)"

text \<open>
  One turn of the loop over \<open>array_items\<close> of AlbumsReceived; \<open>add_pending_album\<close> is the end
  of the loop body, from the test of \<open>album_songs_requests_pending_.contains(album_id)\<close> on.
\<close>

definition albums_item :: "env \<Rightarrow> Artist \<Rightarrow> json \<Rightarrow> crawl \<Rightarrow> crawl" where
  "albums_item E a value_item st =
     (if \<not> isObject value_item then Error ''Invalid Json reply, item in array is not a object.'' st
      else
        let obj_item0 = toObject value_item in
        if contains obj_item0 ''item'' \<and> \<not> isObject (field obj_item0 ''item'') then
          Error ''Invalid Json reply, item in array is not a object.'' st
        else
          let obj_item = (if contains obj_item0 ''item'' then toObject (field obj_item0 ''item'')
                          else obj_item0)
          in if contains obj_item ''type'' then
               (if \<not> contains obj_item ''id'' \<or> \<not> contains obj_item ''name''
                     \<or> \<not> contains obj_item ''images'' then
                  Error ''Invalid Json reply, item is missing ID, name or images.'' st
                else
                  add_pending_album a (toString (field obj_item ''id''))
                    (toString (field obj_item ''name''))
                    (if isArray (field obj_item ''images'')
                     then images_loop [] (toArray (field obj_item ''images'')) else [])
                    st)
             else if contains obj_item ''album'' then
               (let value_album = field obj_item ''album'' in
                if \<not> isObject value_album then
                  Error ''Invalid Json reply, item album is not a object.'' st
                else
                  let obj_album = toObject value_album in
                  if \<not> contains obj_album ''id'' \<or> \<not> contains obj_album ''title'' then
                    Error ''Invalid Json reply, item album is missing ID or title.'' st
                  else
                    let al_id = (if isString (field obj_album ''id'')
                                 then toString (field obj_album ''id'')
                                 else QString_number (toInt (field obj_album ''id'')));
                        al_title0 = toString (field obj_album ''title'');
                        al_title =
                          (if contains obj_album ''explicit''
                              \<and> toBool E (field obj_album ''explicit'') \<and> al_title0 \<noteq> []
                           then al_title0 @ '' (Explicit)'' else al_title0)
                    in add_pending_album a al_id al_title [] st)
             else Error ''Invalid Json reply, item missing type or album.'' st)"

definition AlbumsReceived :: "env \<Rightarrow> nat \<Rightarrow> reply \<Rightarrow> Artist \<Rightarrow> int \<Rightarrow> int \<Rightarrow> crawl \<Rightarrow> crawl" where
  "AlbumsReceived E r reply a limit_requested offset_requested st0 =
     (if r \<notin> set (replies st0) then st0
      else
        let st1 = st0\<lparr>replies := removeAll r (replies st0)\<rparr>;
            st = received reply st1;
            bs = data (GetReplyData reply)
        in if finished st then st
           else if bs = NoBytes then AlbumsFinishCheck a 0 0 0 0 st
           else
             let st3 = report (snd (ExtractJsonObj bs)) st;
                 json_obj0 = fst (ExtractJsonObj bs)
             in if json_obj0 = [] then AlbumsFinishCheck a 0 0 0 0 st3
                else
                  let json_obj = (if contains json_obj0 ''albums'' \<and> isObject (field json_obj0 ''albums'')
                                  then toObject (field json_obj0 ''albums'') else json_obj0)
                  in if \<not> contains json_obj ''limit'' \<or> \<not> contains json_obj ''offset''
                          \<or> \<not> contains json_obj ''total'' \<or> \<not> contains json_obj ''items'' then
                       AlbumsFinishCheck a 0 0 0 0 (Error ''Json object missing values.'' st3)
                     else
                       let off = toInt (field json_obj ''offset'');
                           albums_total = toInt (field json_obj ''total'')
                       in if off \<noteq> offset_requested then
                            AlbumsFinishCheck a 0 0 0 0 (Error (offset_mismatch off offset_requested) st3)
                          else
                            let st4 = report (snd (ExtractItems json_obj)) st3;
                                value_items = fst (ExtractItems json_obj)
                            in if \<not> isArray value_items then AlbumsFinishCheck a 0 0 0 0 st4
                               else
                                 let array_items = toArray value_items in
                                 if array_items = [] then
                                   AlbumsFinishCheck a 0 0 0 0
                                     (if (query_type st4 = QueryType_Albums
                                           \<or> query_type st4 = QueryType_SearchAlbums
                                           \<or> (query_type st4 = QueryType_SearchSongs \<and> fetchalbums st4))
                                          \<and> offset_requested = 0
                                      then st4\<lparr>no_results := True\<rparr> else st4)
                                 else
                                   AlbumsFinishCheck a limit_requested off albums_total
                                     (int (length array_items))
                                     (fold (albums_item E a) array_items st4))"

definition AlbumsReplyReceived :: "env \<Rightarrow> nat \<Rightarrow> reply \<Rightarrow> int \<Rightarrow> int \<Rightarrow> crawl \<Rightarrow> crawl" where
  "AlbumsReplyReceived E r reply limit_requested offset_requested st =
     (let st1 = st\<lparr>albums_requests_active := albums_requests_active st - 1\<rparr>;
          st2 = AlbumsReceived E r reply new_Artist limit_requested offset_requested st1
      in if albums_requests_queue st2 \<noteq> []
            \<and> albums_requests_active st2 < kMaxConcurrentAlbumsRequests
         then FlushAlbumsRequests st2 else st2)"

definition ArtistAlbumsReplyReceived :: "env \<Rightarrow> nat \<Rightarrow> reply \<Rightarrow> Artist \<Rightarrow> int \<Rightarrow> crawl \<Rightarrow> crawl" where
  "ArtistAlbumsReplyReceived E r reply a offset_requested st =
     (let st1 = st\<lparr>artist_albums_requests_active := artist_albums_requests_active st - 1,
                   artist_albums_received := artist_albums_received st + 1\<rparr>;
          st2 = emit (UpdateProgress (query_id st1) (artist_albums_received st1)) st1;
          st3 = AlbumsReceived E r reply a 0 offset_requested st2
      in if artist_albums_requests_queue st3 \<noteq> []
            \<and> artist_albums_requests_active st3 < kMaxConcurrentArtistAlbumsRequests
         then FlushArtistAlbumsRequests st3 else st3)"

subsection \<open>The songs tier and the per-album song listings\<close>

text \<open>
  SongsFinishCheck. Its first \<open>if\<close> after the paging tests the songs queue against
  \<open>kMaxConcurrentAlbumSongsRequests\<close> and calls FlushAlbumSongsRequests, as the source does.
\<close>

definition SongsFinishCheck ::
    "env \<Rightarrow> Artist \<Rightarrow> Album \<Rightarrow> int \<Rightarrow> int \<Rightarrow> int \<Rightarrow> int \<Rightarrow> crawl \<Rightarrow> crawl" where
  "SongsFinishCheck E a al l off songs_total songs_recv st =
     (if finished st then st
      else
        let st1 =
              (if l = 0 \<or> l > songs_recv then
                 let offset_next = off + songs_recv in
                 if offset_next > 0 \<and> offset_next < songs_total then
                   (case query_type st of
                      QueryType_Songs \<Rightarrow> AddSongsRequest offset_next 0 st
                    | QueryType_SearchSongs \<Rightarrow>
                        if artist_id a = [] \<and> album_id al = []
                        then AddSongsSearchRequest offset_next st
                        else AddAlbumSongsRequest a al offset_next st
                    | QueryType_Artists \<Rightarrow> AddAlbumSongsRequest a al offset_next st
                    | QueryType_SearchArtists \<Rightarrow> AddAlbumSongsRequest a al offset_next st
                    | QueryType_Albums \<Rightarrow> AddAlbumSongsRequest a al offset_next st
                    | QueryType_SearchAlbums \<Rightarrow> AddAlbumSongsRequest a al offset_next st
                    | _ \<Rightarrow> st)
                 else st
               else st);
            st2 =
              (if songs_requests_queue st1 \<noteq> []
                  \<and> songs_requests_active st1 < kMaxConcurrentAlbumSongsRequests
               then FlushAlbumSongsRequests st1 else st1);
            st3 =
              (if album_songs_requests_queue st2 \<noteq> []
                  \<and> album_songs_requests_active st2 < kMaxConcurrentAlbumSongsRequests
               then FlushAlbumSongsRequests st2 else st2);
            st4 =
              (if download_album_covers (service st3) \<and> IsQuery st3
                  \<and> songs_requests_queue st3 = [] \<and> songs_requests_active st3 \<le> 0
                  \<and> album_songs_requests_queue st3 = [] \<and> album_songs_requests_active st3 \<le> 0
                  \<and> album_cover_requests_queue st3 = [] \<and> album_covers_received st3 \<le> 0
                  \<and> album_covers_requests_sent st3 = []
                  \<and> album_songs_received st3 \<ge> album_songs_requested st3
               then GetAlbumCovers E st3 else st3)
        in FinishCheck st4)"

text \<open>The locals of the first loop of SongsReceived, and one turn of that loop.\<close>

record songs_locals =
  compilation :: bool
  multidisc :: bool
  parsed :: SongList
  songs_received :: int

definition songs_item ::
    "env \<Rightarrow> Artist \<Rightarrow> Album \<Rightarrow> json \<Rightarrow> songs_locals \<times> crawl \<Rightarrow> songs_locals \<times> crawl" where
  "songs_item E a al value_item lst =
     (let L = fst lst; st = snd lst in
      if \<not> isObject value_item then (L, Error ''Invalid Json reply, track is not a object.'' st)
      else
        let obj_item0 = toObject value_item in
        if contains obj_item0 ''item'' \<and> \<not> isObject (field obj_item0 ''item'') then
          (L, Error ''Invalid Json reply, item is not a object.'' st)
        else
          let obj_item = (if contains obj_item0 ''item'' then toObject (field obj_item0 ''item'')
                          else obj_item0);
              L1 = L\<lparr>songs_received := songs_received L + 1\<rparr>;
              song = fst (ParseSong E new_Song obj_item a al);
              st1 = report (snd (ParseSong E new_Song obj_item a al)) st
          in if \<not> valid song then (L1, st1)
             else (L1\<lparr>multidisc := (multidisc L1 \<or> disc song \<ge> 2),
                      compilation := (compilation L1 \<or> is_compilation E song),
                      parsed := parsed L1 @ [song]\<rparr>, st1))"

text \<open>The second loop of SongsReceived, which fills \<open>songs_\<close>.\<close>

definition insert_song :: "songs_locals \<Rightarrow> Song \<Rightarrow> crawl \<Rightarrow> crawl" where
  "insert_song L song0 st =
     (let song1 = (if compilation L then song0\<lparr>compilation_detected := True\<rparr> else song0);
          song2 = (if \<not> multidisc L then song1\<lparr>disc := 0\<rparr> else song1)
      in st\<lparr>songs := qmap_insert (song_id song2) song2 (songs st)\<rparr>)"

definition SongsReceived ::
    "env \<Rightarrow> nat \<Rightarrow> reply \<Rightarrow> Artist \<Rightarrow> Album \<Rightarrow> int \<Rightarrow> int \<Rightarrow> crawl \<Rightarrow> crawl" where
  "SongsReceived E r reply a al limit_requested offset_requested st0 =
     (if r \<notin> set (replies st0) then st0
      else
        let st1 = st0\<lparr>replies := removeAll r (replies st0)\<rparr>;
            st = received reply st1;
            bs = data (GetReplyData reply)
        in if finished st then st
           else if bs = NoBytes then
             SongsFinishCheck E a al limit_requested offset_requested 0 0 st
           else
             let st3 = report (snd (ExtractJsonObj bs)) st;
                 json_obj0 = fst (ExtractJsonObj bs)
             in if json_obj0 = [] then
                  SongsFinishCheck E a al limit_requested offset_requested 0 0 st3
                else
                  let json_obj = (if contains json_obj0 ''tracks'' \<and> isObject (field json_obj0 ''tracks'')
                                  then toObject (field json_obj0 ''tracks'') else json_obj0)
                  in if \<not> contains json_obj ''limit'' \<or> \<not> contains json_obj ''offset''
                          \<or> \<not> contains json_obj ''total'' \<or> \<not> contains json_obj ''items'' then
                       SongsFinishCheck E a al limit_requested offset_requested 0 0
                         (Error ''Json object missing values.'' st3)
                     else
                       let off = toInt (field json_obj ''offset'');
                           songs_total = toInt (field json_obj ''total'')
                       in if off \<noteq> offset_requested then
                            SongsFinishCheck E a al limit_requested offset_requested songs_total 0
                              (Error (offset_mismatch off offset_requested) st3)
                          else
                            let st4 = report (snd (ExtractItems json_obj)) st3;
                                json_value = fst (ExtractItems json_obj)
                            in if \<not> isArray json_value then
                                 SongsFinishCheck E a al limit_requested offset_requested songs_total 0 st4
                               else
                                 let json_items = toArray json_value in
                                 if json_items = [] then
                                   SongsFinishCheck E a al limit_requested offset_requested songs_total 0
                                     (if (query_type st4 = QueryType_Songs
                                           \<or> query_type st4 = QueryType_SearchSongs)
                                          \<and> offset_requested = 0
                                      then st4\<lparr>no_results := True\<rparr> else st4)
                                 else
                                   let lst = fold (songs_item E a al) json_items
                                               (\<lparr>compilation = False, multidisc = False, parsed = [],
                                                 songs_received = 0\<rparr>, st4);
                                       st5 = fold (insert_song (fst lst)) (parsed (fst lst)) (snd lst)
                                   in SongsFinishCheck E a al limit_requested offset_requested
                                        songs_total (songs_received (fst lst)) st5)"

definition SongsReplyReceived :: "env \<Rightarrow> nat \<Rightarrow> reply \<Rightarrow> int \<Rightarrow> int \<Rightarrow> crawl \<Rightarrow> crawl" where
  "SongsReplyReceived E r reply limit_requested offset_requested st =
     (let st1 = st\<lparr>songs_requests_active := songs_requests_active st - 1\<rparr>
      in if query_type st1 = QueryType_SearchSongs \<and> fetchalbums st1
         then AlbumsReceived E r reply new_Artist limit_requested offset_requested st1
         else SongsReceived E r reply new_Artist new_Album limit_requested offset_requested st1)"

definition AlbumSongsReplyReceived ::
    "env \<Rightarrow> nat \<Rightarrow> reply \<Rightarrow> Artist \<Rightarrow> Album \<Rightarrow> int \<Rightarrow> crawl \<Rightarrow> crawl" where
  "AlbumSongsReplyReceived E r reply a al offset_requested st =
     (let st1 = st\<lparr>album_songs_requests_active := album_songs_requests_active st - 1,
                   album_songs_received := album_songs_received st + 1\<rparr>;
          st2 = (if offset_requested = 0
                 then emit (UpdateProgress (query_id st1) (album_songs_received st1)) st1 else st1)
      in SongsReceived E r reply a al 0 offset_requested st2)"

subsection \<open>A cover arrives\<close>

text \<open>
  What AlbumCoverReceived reads from the reply of a cover request: the reply itself, the
  content type header, and whether \<open>QImage::loadFromData\<close> and then \<open>QImage::save\<close>
  succeed on its bytes.
\<close>

record cover_reply = reply +
  content_type :: string
  loadFromData :: bool
  save :: bool

definition fromLocalFile :: "string \<Rightarrow> string" where
  "fromLocalFile filename = ''file://'' @ filename"

text \<open>
  The loop \<open>while (album_covers_requests_sent_.contains(album_id))\<close> that runs once the
  image is saved: it takes the song ids sent for the album one by one and points each
  song that \<open>songs_\<close> still holds at the file.
\<close>

definition set_art_automatic :: "string \<Rightarrow> string \<Rightarrow> SongMap \<Rightarrow> SongMap" where
  "set_art_automatic s_id u m = map (\<lambda>kv. if fst kv = s_id then (fst kv, (snd kv)\<lparr>art_automatic := u\<rparr>) else kv) m"

definition cover_saved_step :: "string \<Rightarrow> string \<Rightarrow> crawl \<Rightarrow> crawl" where
  "cover_saved_step al_id filename st =
     (let st1 = st\<lparr>album_covers_requests_sent := snd (qtake al_id (album_covers_requests_sent st))\<rparr>
      in case fst (qtake al_id (album_covers_requests_sent st)) of
           None \<Rightarrow> st1
         | Some s_id \<Rightarrow>
             if qcontains (songs st1) s_id
             then st1\<lparr>songs := set_art_automatic s_id (fromLocalFile filename) (songs st1)\<rparr>
             else st1)"

function cover_saved :: "string \<Rightarrow> string \<Rightarrow> crawl \<Rightarrow> crawl" where
  "cover_saved al_id filename st =
     (if qcontains (album_covers_requests_sent st) al_id
      then cover_saved al_id filename (cover_saved_step al_id filename st) else st)"
  by pat_completeness auto
termination
proof (relation "measure (\<lambda>(al_id, filename, st). length (album_covers_requests_sent st))")
  show "wf (measure (\<lambda>(al_id, filename, st). length (album_covers_requests_sent st)))"
    by simp
next
  fix al_id filename :: string and st :: crawl
  assume c: "qcontains (album_covers_requests_sent st) al_id"
  have "\<And>m :: (string \<times> string) list. qcontains m al_id \<Longrightarrow> length (snd (qtake al_id m)) < length m"
  proof -
    fix m :: "(string \<times> string) list"
    show "qcontains m al_id \<Longrightarrow> length (snd (qtake al_id m)) < length m"
      by (induction m) (force simp: qcontains_def split: prod.splits)+
  qed
  from this [OF c]
  show "((al_id, filename, cover_saved_step al_id filename st), (al_id, filename, st))
          \<in> measure (\<lambda>(al_id, filename, st). length (album_covers_requests_sent st))"
    by (simp add: cover_saved_step_def Let_def split: option.splits)
qed

declare cover_saved.simps [simp del]

definition mimetype_of :: "string \<Rightarrow> string" where
  "mimetype_of header = takeWhile (\<lambda>c. c \<noteq> CHR '';'') header"

definition AlbumCoverReceived ::
    "env \<Rightarrow> nat \<Rightarrow> cover_reply \<Rightarrow> string \<Rightarrow> string \<Rightarrow> string \<Rightarrow> crawl \<Rightarrow> crawl" where
  "AlbumCoverReceived E r reply al_id u filename st0 =
     (if r \<notin> set (album_cover_replies st0) then AlbumCoverFinishCheck st0
      else
        let st = st0\<lparr>album_cover_replies := removeAll r (album_cover_replies st0),
                     album_covers_requests_active := album_covers_requests_active st0 - 1,
                     album_covers_received := album_covers_received st0 + 1\<rparr>
        in if finished st then st
           else
             let st1 = emit (UpdateProgress (query_id st) (album_covers_received st)) st in
             if \<not> qcontains (album_covers_requests_sent st1) al_id then AlbumCoverFinishCheck st1
             else if error reply \<noteq> NoError then
               (let st2 = Error (arg2 (errorString reply) (error reply)) st1
                in AlbumCoverFinishCheck
                     (st2\<lparr>album_covers_requests_sent := qremove al_id (album_covers_requests_sent st2)\<rparr>))
             else if http_status reply \<noteq> 200 then
               (let st2 = Error (''Received HTTP code '' @ QString_number (http_status reply)
                                  @ '' for '' @ u @ ''.'') st1
                in AlbumCoverFinishCheck
                     (st2\<lparr>album_covers_requests_sent := qremove al_id (album_covers_requests_sent st2)\<rparr>))
             else if \<not> supported_mimetype E (mimetype_of (content_type reply)) then
               (let st2 = Error (''Unsupported mimetype for image reader ''
                                  @ mimetype_of (content_type reply) @ '' for '' @ u) st1
                in AlbumCoverFinishCheck
                     (st2\<lparr>album_covers_requests_sent := qremove al_id (album_covers_requests_sent st2)\<rparr>))
             else if readAll reply = NoBytes then
               (let st2 = Error (''Received empty image data for '' @ u) st1
                in AlbumCoverFinishCheck
                     (st2\<lparr>album_covers_requests_sent := qremove al_id (album_covers_requests_sent st2)\<rparr>))
             else if loadFromData reply then
               (if save reply then AlbumCoverFinishCheck (cover_saved al_id filename st1)
                else
                  let st2 = Error (''Error saving image data to '' @ filename) st1
                  in AlbumCoverFinishCheck
                       (st2\<lparr>album_covers_requests_sent := qremove al_id (album_covers_requests_sent st2)\<rparr>))
             else
               AlbumCoverFinishCheck
                 (Error (''Error decoding image data from '' @ u)
                    (st1\<lparr>album_covers_requests_sent := qremove al_id (album_covers_requests_sent st1)\<rparr>)))"

subsection \<open>Starting a crawl, and what the event loop delivers to it\<close>

definition Search :: "int \<Rightarrow> string \<Rightarrow> crawl \<Rightarrow> crawl" where
  "Search q_id text st = st\<lparr>query_id := q_id, search_text := text\<rparr>"

definition GetArtists :: "crawl \<Rightarrow> crawl" where
  "GetArtists st =
     AddArtistsRequest 0 0
       (emit (UpdateProgress (query_id st) 0) (emit (UpdateStatus (query_id st) ''Retrieving artists...'') st))"

definition GetAlbums :: "crawl \<Rightarrow> crawl" where
  "GetAlbums st =
     AddAlbumsRequest 0 0
       (emit (UpdateProgress (query_id st) 0) (emit (UpdateStatus (query_id st) ''Retrieving albums...'') st))"

definition GetSongs :: "crawl \<Rightarrow> crawl" where
  "GetSongs st =
     AddSongsRequest 0 0
       (emit (UpdateProgress (query_id st) 0) (emit (UpdateStatus (query_id st) ''Retrieving songs...'') st))"

definition ArtistsSearch :: "crawl \<Rightarrow> crawl" where
  "ArtistsSearch st =
     AddArtistsSearchRequest 0
       (emit (UpdateProgress (query_id st) 0) (emit (UpdateStatus (query_id st) ''Searching...'') st))"

definition AlbumsSearch :: "crawl \<Rightarrow> crawl" where
  "AlbumsSearch st =
     AddAlbumsSearchRequest 0
       (emit (UpdateProgress (query_id st) 0) (emit (UpdateStatus (query_id st) ''Searching...'') st))"

definition SongsSearch :: "crawl \<Rightarrow> crawl" where
  "SongsSearch st =
     AddSongsSearchRequest 0
       (emit (UpdateProgress (query_id st) 0) (emit (UpdateStatus (query_id st) ''Searching...'') st))"

definition Process :: "crawl \<Rightarrow> crawl" where
  "Process st =
     (if \<not> authenticated (service st) then emit (UpdateStatus (query_id st) ''Authenticating...'') st
      else
        (case query_type st of
           QueryType_Artists \<Rightarrow> GetArtists st
         | QueryType_Albums \<Rightarrow> GetAlbums st
         | QueryType_Songs \<Rightarrow> GetSongs st
         | QueryType_SearchArtists \<Rightarrow> ArtistsSearch st
         | QueryType_SearchAlbums \<Rightarrow> AlbumsSearch st
         | QueryType_SearchSongs \<Rightarrow> SongsSearch st
         | _ \<Rightarrow> Error ''Invalid query type.'' st))"

definition HandleSSLErrors :: "string list \<Rightarrow> crawl \<Rightarrow> crawl" where
  "HandleSSLErrors ssl_errors st = fold Error ssl_errors st"

text \<open>
  The calls that reach a crawl: \<open>Search\<close> and \<open>Process\<close> from its owner, and from the
  event loop the \<open>finished\<close> signal of a reply (once for a reply, with what the reply then
  holds) and the \<open>sslErrors\<close> signal of a reply made by CreateRequest that has not
  finished. A signal runs the lambda connected to it; \<open>finished\<close> of a reply that has no
  lambda, or that does not hold what the lambda reads, runs nothing.
\<close>

datatype event =
    Call_Search int string
  | Call_Process
  | Finished nat reply
  | CoverFinished nat cover_reply
  | SslErrors nat "string list"

definition disconnect :: "nat \<Rightarrow> crawl \<Rightarrow> crawl" where
  "disconnect r st = st\<lparr>connections := filter (\<lambda>c. fst c \<noteq> r) (connections st)\<rparr>"

fun is_cover :: "continuation \<Rightarrow> bool" where
  "is_cover (AlbumCoverReply _ _ _) = True"
| "is_cover _ = False"

definition step :: "env \<Rightarrow> event \<Rightarrow> crawl \<Rightarrow> crawl" where
  "step E ev st =
     (case ev of
        Call_Search q_id text \<Rightarrow> Search q_id text st
      | Call_Process \<Rightarrow> Process st
      | Finished r reply \<Rightarrow>
          (case map_of (connections st) r of
             Some (ArtistsReply l off) \<Rightarrow> ArtistsReplyReceived r reply l off (disconnect r st)
           | Some (AlbumsReply l off) \<Rightarrow> AlbumsReplyReceived E r reply l off (disconnect r st)
           | Some (SongsReply l off) \<Rightarrow> SongsReplyReceived E r reply l off (disconnect r st)
           | Some (ArtistAlbumsReply a off) \<Rightarrow>
               ArtistAlbumsReplyReceived E r reply a off (disconnect r st)
           | Some (AlbumSongsReply a al off) \<Rightarrow>
               AlbumSongsReplyReceived E r reply a al off (disconnect r st)
           | _ \<Rightarrow> st)
      | CoverFinished r reply \<Rightarrow>
          (case map_of (connections st) r of
             Some (AlbumCoverReply al_id u filename) \<Rightarrow>
               AlbumCoverReceived E r reply al_id u filename (disconnect r st)
           | _ \<Rightarrow> st)
      | SslErrors r ssl_errors \<Rightarrow>
          (case map_of (connections st) r of
             None \<Rightarrow> st
           | Some k \<Rightarrow> if is_cover k then st else HandleSSLErrors ssl_errors st))"

definition run :: "env \<Rightarrow> event list \<Rightarrow> crawl \<Rightarrow> crawl" where
  "run E evs st = fold (step E) evs st"

text \<open>The \<open>Results\<close> signals among the signals emitted.\<close>

fun is_Results :: "signal \<Rightarrow> bool" where
  "is_Results (Results _ _ _) = True"
| "is_Results _ = False"

definition results :: "crawl \<Rightarrow> signal list" where
  "results st = map fst (filter (\<lambda>e. is_Results (fst e)) (emitted st))"

section \<open>Favorites: SpotifyFavoriteRequest\<close>

datatype FavoriteType = FavoriteType_Artists | FavoriteType_Albums | FavoriteType_Songs

fun FavoriteText :: "FavoriteType \<Rightarrow> string" where
  "FavoriteText FavoriteType_Artists = ''artists''"
| "FavoriteText FavoriteType_Albums = ''albums''"
| "FavoriteText FavoriteType_Songs = ''tracks''"

fun FavoriteMethod :: "FavoriteType \<Rightarrow> string" where
  "FavoriteMethod FavoriteType_Artists = ''artistIds''"
| "FavoriteMethod FavoriteType_Albums = ''albumIds''"
| "FavoriteMethod FavoriteType_Songs = ''trackIds''"

datatype favorite_signal =
    ArtistsAdded SongList
  | AlbumsAdded SongList
  | SongsAdded SongList
  | ArtistsRemoved SongList
  | AlbumsRemoved SongList
  | SongsRemoved SongList

datatype favorite_continuation =
    AddFavoritesReply FavoriteType SongList
  | RemoveFavoritesReply FavoriteType SongList

datatype http_method = POST | DELETE

text \<open>
  The members of the SpotifyFavoriteRequest, with the requests handed to the network
  (reply, method, URL, body), the lambdas connected to replies not yet finished, and the
  signals emitted so far.
\<close>

record favorite_request =
  fav_service :: service
  fav_replies :: "nat list"
  fav_connections :: "(nat \<times> favorite_continuation) list"
  fav_next_reply :: nat
  fav_network :: "(nat \<times> http_method \<times> string \<times> string) list"
  fav_emitted :: "favorite_signal list"

definition kApiUrl :: string where
  "kApiUrl = ''https://api.spotify.com/v1''"

text \<open>The id that the \<open>switch\<close> of AddFavorites and of RemoveFavorites reads from a song.\<close>

fun favorite_id :: "FavoriteType \<Rightarrow> Song \<Rightarrow> string" where
  "favorite_id FavoriteType_Artists song = song_artist_id song"
| "favorite_id FavoriteType_Albums song = song_album_id song"
| "favorite_id FavoriteType_Songs song = song_id song"

fun join :: "string \<Rightarrow> string list \<Rightarrow> string" where
  "join sep [] = []"
| "join sep [x] = x"
| "join sep (x # y # ys) = x @ sep @ join sep (y # ys)"

text \<open>
  The URL query of AddFavoritesRequest is built by Qt's percent encoding, which is not
  modelled: the body logged is the parameter name, \<open>=\<close> and the joined ids.
\<close>

definition AddFavoritesRequest :: "FavoriteType \<Rightarrow> string list \<Rightarrow> SongList \<Rightarrow> favorite_request \<Rightarrow> favorite_request" where
  "AddFavoritesRequest t id_list songs_arg fr =
     (let reply = fav_next_reply fr
      in fr\<lparr>fav_network := fav_network fr @
                [(reply, POST, kApiUrl @ ''/users//favorites/'' @ FavoriteText t,
                  FavoriteMethod t @ ''='' @ join '','' id_list)],
             fav_next_reply := Suc reply,
             fav_connections := fav_connections fr @ [(reply, AddFavoritesReply t songs_arg)],
             fav_replies := fav_replies fr @ [reply]\<rparr>)"

definition add_id_list :: "FavoriteType \<Rightarrow> SongList \<Rightarrow> string list" where
  "add_id_list t songs_arg =
     fold (\<lambda>song id_list.
             if favorite_id t song = [] then id_list
             else if favorite_id t song \<noteq> [] \<and> favorite_id t song \<notin> set id_list
             then id_list @ [favorite_id t song] else id_list)
          songs_arg []"

definition AddFavorites :: "FavoriteType \<Rightarrow> SongList \<Rightarrow> favorite_request \<Rightarrow> favorite_request" where
  "AddFavorites t songs_arg fr =
     (if add_id_list t songs_arg = [] then fr
      else AddFavoritesRequest t (add_id_list t songs_arg) songs_arg fr)"

definition AddArtists :: "SongList \<Rightarrow> favorite_request \<Rightarrow> favorite_request" where
  "AddArtists = AddFavorites FavoriteType_Artists"

definition AddAlbums :: "SongList \<Rightarrow> favorite_request \<Rightarrow> favorite_request" where
  "AddAlbums = AddFavorites FavoriteType_Albums"

definition AddSongs :: "SongMap \<Rightarrow> favorite_request \<Rightarrow> favorite_request" where
  "AddSongs m = AddFavoritesRequest FavoriteType_Songs (map fst m) (qvalues m)"

definition RemoveFavoritesRequest :: "FavoriteType \<Rightarrow> string \<Rightarrow> SongList \<Rightarrow> favorite_request \<Rightarrow> favorite_request" where
  "RemoveFavoritesRequest t i songs_arg fr =
     (let reply = fav_next_reply fr
      in fr\<lparr>fav_network := fav_network fr @
                [(reply, DELETE, kApiUrl @ ''/users//favorites/'' @ FavoriteText t @ ''/'' @ i, [])],
             fav_next_reply := Suc reply,
             fav_connections := fav_connections fr @ [(reply, RemoveFavoritesReply t songs_arg)],
             fav_replies := fav_replies fr @ [reply]\<rparr>)"

definition remove_songs_map :: "FavoriteType \<Rightarrow> SongList \<Rightarrow> (string \<times> Song) list" where
  "remove_songs_map t songs_arg =
     fold (\<lambda>song songs_map.
             if favorite_id t song = [] then songs_map
             else qmultimap_insert (favorite_id t song) song songs_map)
          songs_arg []"

definition RemoveFavorites :: "FavoriteType \<Rightarrow> SongList \<Rightarrow> favorite_request \<Rightarrow> favorite_request" where
  "RemoveFavorites t songs_arg fr =
     fold (\<lambda>i. RemoveFavoritesRequest t i (qvalues_of (remove_songs_map t songs_arg) i))
          (uniqueKeys (remove_songs_map t songs_arg)) fr"

definition RemoveArtists :: "SongList \<Rightarrow> favorite_request \<Rightarrow> favorite_request" where
  "RemoveArtists = RemoveFavorites FavoriteType_Artists"

definition RemoveAlbums :: "SongList \<Rightarrow> favorite_request \<Rightarrow> favorite_request" where
  "RemoveAlbums = RemoveFavorites FavoriteType_Albums"

definition RemoveSongs :: "SongList \<Rightarrow> favorite_request \<Rightarrow> favorite_request" where
  "RemoveSongs = RemoveFavorites FavoriteType_Songs"

definition RemoveSongsByMap :: "SongMap \<Rightarrow> favorite_request \<Rightarrow> favorite_request" where
  "RemoveSongsByMap m fr =
     fold (\<lambda>song. RemoveFavoritesRequest FavoriteType_Songs (song_id song) [song]) (qvalues m) fr"

text \<open>
  The reply slots. \<open>Error\<close> of this class only logs, so of GetReplyData only the call of
  Deauthenticate can change anything.
\<close>

definition fav_received :: "reply \<Rightarrow> favorite_request \<Rightarrow> favorite_request" where
  "fav_received reply fr =
     (if deauthenticated (GetReplyData reply)
      then fr\<lparr>fav_service := Deauthenticate (fav_service fr)\<rparr> else fr)"

definition AddFavoritesReply_slot :: "nat \<Rightarrow> reply \<Rightarrow> FavoriteType \<Rightarrow> SongList \<Rightarrow> favorite_request \<Rightarrow> favorite_request" where
  "AddFavoritesReply_slot r reply t songs_arg fr0 =
     (if r \<notin> set (fav_replies fr0) then fr0
      else
        let fr = fav_received reply (fr0\<lparr>fav_replies := removeAll r (fav_replies fr0)\<rparr>)
        in if error reply \<noteq> NoError then fr
           else
             (case t of
                FavoriteType_Artists \<Rightarrow> fr\<lparr>fav_emitted := fav_emitted fr @ [ArtistsAdded songs_arg]\<rparr>
              | FavoriteType_Albums \<Rightarrow> fr\<lparr>fav_emitted := fav_emitted fr @ [AlbumsAdded songs_arg]\<rparr>
              | FavoriteType_Songs \<Rightarrow> fr\<lparr>fav_emitted := fav_emitted fr @ [SongsAdded songs_arg]\<rparr>))"

definition RemoveFavoritesReply_slot :: "nat \<Rightarrow> reply \<Rightarrow> FavoriteType \<Rightarrow> SongList \<Rightarrow> favorite_request \<Rightarrow> favorite_request" where
  "RemoveFavoritesReply_slot r reply t songs_arg fr0 =
     (if r \<notin> set (fav_replies fr0) then fr0
      else
        let fr = fav_received reply (fr0\<lparr>fav_replies := removeAll r (fav_replies fr0)\<rparr>)
        in if error reply \<noteq> NoError then fr
           else
             (case t of
                FavoriteType_Artists \<Rightarrow> fr\<lparr>fav_emitted := fav_emitted fr @ [ArtistsRemoved songs_arg]\<rparr>
              | FavoriteType_Albums \<Rightarrow> fr\<lparr>fav_emitted := fav_emitted fr @ [AlbumsRemoved songs_arg]\<rparr>
              | FavoriteType_Songs \<Rightarrow> fr\<lparr>fav_emitted := fav_emitted fr @ [SongsRemoved songs_arg]\<rparr>))"

text \<open>The \<open>finished\<close> signal of a reply runs the lambda connected to it, once.\<close>

definition fav_finished :: "nat \<Rightarrow> reply \<Rightarrow> favorite_request \<Rightarrow> favorite_request" where
  "fav_finished r reply fr =
     (case map_of (fav_connections fr) r of
        None \<Rightarrow> fr
      | Some (AddFavoritesReply t songs_arg) \<Rightarrow>
          AddFavoritesReply_slot r reply t songs_arg
            (fr\<lparr>fav_connections := filter (\<lambda>c. fst c \<noteq> r) (fav_connections fr)\<rparr>)
      | Some (RemoveFavoritesReply t songs_arg) \<Rightarrow>
          RemoveFavoritesReply_slot r reply t songs_arg
            (fr\<lparr>fav_connections := filter (\<lambda>c. fst c \<noteq> r) (fav_connections fr)\<rparr>))"

section \<open>Predicates and examples used in the statements\<close>

text \<open>
  An image that passes every check of the loop over \<open>array_images\<close>, and the URL the loop
  reads from it.
\<close>

definition accepted_image :: "json \<Rightarrow> bool" where
  "accepted_image v =
     (isObject v \<and> toObject v \<noteq> [] \<and> contains (toObject v) ''url''
      \<and> contains (toObject v) ''width'' \<and> contains (toObject v) ''height''
      \<and> 300 < toInt (field (toObject v) ''width'') \<and> 300 < toInt (field (toObject v) ''height''))"

definition image_url :: "json \<Rightarrow> string" where
  "image_url v = toString (field (toObject v) ''url'')"

text \<open>
  In the words of the specification: the first image with both dimensions greater than 300
  is the cover candidate (no candidate is the empty URL).
\<close>

definition first_image_over_300 :: "json list \<Rightarrow> string" where
  "first_image_over_300 array_images =
     (case filter accepted_image array_images of [] \<Rightarrow> [] | v # _ \<Rightarrow> image_url v)"

text \<open>The last such image, or the URL \<open>c\<close> held before the loop when there is none.\<close>

definition last_image_over_300 :: "string \<Rightarrow> json list \<Rightarrow> string" where
  "last_image_over_300 c array_images =
     (case rev (filter accepted_image array_images) of [] \<Rightarrow> c | v # _ \<Rightarrow> image_url v)"

definition image :: "string \<Rightarrow> int \<Rightarrow> int \<Rightarrow> json" where
  "image u w h =
     JObject [(''url'', JString u), (''width'', JNum (of_int w)), (''height'', JNum (of_int h))]"

text \<open>Example values: a service that is logged in, a reply with a JSON object, a page.\<close>

definition example_service :: service where
  "example_service =
     \<lparr>access_token = ''token'', refresh_token = ''refresh'', expires_in = 3600, login_time = 0,
      settings = Map.empty, refresh_login_timer_active = False, refresh_login_timer_interval = 0,
      login_errors = [], token_replies = [0], login_signals = [],
      artistssearchlimit = 4, albumssearchlimit = 10, songssearchlimit = 10,
      service_fetchalbums = True, download_album_covers = True\<rparr>"

definition ok_reply :: "json_object \<Rightarrow> reply" where
  "ok_reply obj = \<lparr>error = 0, errorString = [], http_status = 200, readAll = Bytes (ObjectDoc obj)\<rparr>"

definition error_reply :: "int \<Rightarrow> json_object \<Rightarrow> reply" where
  "error_reply code obj =
     \<lparr>error = 204, errorString = ''Host requires authentication'', http_status = code,
      readAll = Bytes (ObjectDoc obj)\<rparr>"

text \<open>The URL of the request that RemoveFavoritesRequest makes for an id.\<close>

definition remove_url :: "FavoriteType \<Rightarrow> string \<Rightarrow> string" where
  "remove_url t i = kApiUrl @ ''/users//favorites/'' @ FavoriteText t @ ''/'' @ i"

text \<open>Example values: a song with its three ids, a favorite request that has sent nothing.\<close>

definition song_of :: "string \<Rightarrow> string \<Rightarrow> string \<Rightarrow> Song" where
  "song_of s al ar = new_Song\<lparr>song_id := s, song_album_id := al, song_artist_id := ar\<rparr>"

definition example_favorite_request :: favorite_request where
  "example_favorite_request =
     \<lparr>fav_service = example_service, fav_replies = [], fav_connections = [], fav_next_reply = 0,
      fav_network = [], fav_emitted = []\<rparr>"

text \<open>
  What a reply must hold for the function that handles it to set \<open>no_results_\<close>: the
  page it reads has the four values, its offset is 0, and its items are an array with no
  element. AlbumsReceived and SongsReceived read the page from the object under the key
  "albums" or "tracks" if the reply has one and from the reply's own object otherwise;
  ArtistsReplyReceived reads it from the object under "artists". The two functions test
  the query type as well.
\<close>

definition page :: "string \<Rightarrow> reply \<Rightarrow> json_object" where
  "page key reply =
     (let json_obj = fst (ExtractJsonObj (data (GetReplyData reply)))
      in if contains json_obj key \<and> isObject (field json_obj key)
         then toObject (field json_obj key) else json_obj)"

definition artists_page :: "reply \<Rightarrow> json_object" where
  "artists_page reply =
     toObject (field (fst (ExtractJsonObj (data (GetReplyData reply)))) ''artists'')"

definition first_page_empty :: "json_object \<Rightarrow> bool" where
  "first_page_empty obj =
     (contains obj ''limit'' \<and> contains obj ''offset'' \<and> contains obj ''total''
      \<and> contains obj ''items'' \<and> toInt (field obj ''offset'') = 0
      \<and> isArray (field obj ''items'') \<and> toArray (field obj ''items'') = [])"

definition albums_flag :: "crawl \<Rightarrow> bool" where
  "albums_flag st =
     (query_type st = QueryType_Albums \<or> query_type st = QueryType_SearchAlbums
      \<or> (query_type st = QueryType_SearchSongs \<and> fetchalbums st))"

definition songs_flag :: "crawl \<Rightarrow> bool" where
  "songs_flag st = (query_type st = QueryType_Songs \<or> query_type st = QueryType_SearchSongs)"

text \<open>
  Classes of predicates on crawls, by the elementary changes of a crawl that keep them.
  The first class is kept by what the handling of a reply does before it turns to the
  queues: an assignment to \<open>service_\<close>, \<open>errors_\<close>, \<open>artists_total_\<close> or
  \<open>artists_received_\<close>, a signal other than \<open>Results\<close>, FinishCheck, and an insertion into
  \<open>songs_\<close>.
\<close>

definition parse_stable :: "(crawl \<Rightarrow> bool) \<Rightarrow> bool" where
  "parse_stable P =
     ((\<forall>f s. P (service_update f s) = P s) \<and>
      (\<forall>f s. P (errors_update f s) = P s) \<and>
      (\<forall>f s. P (artists_total_update f s) = P s) \<and>
      (\<forall>f s. P (artists_received_update f s) = P s) \<and>
      (\<forall>sig s. \<not> is_Results sig \<longrightarrow> P s \<longrightarrow> P (emit sig s)) \<and>
      (\<forall>s. P s \<longrightarrow> P (FinishCheck s)) \<and>
      (\<forall>L song s. P s \<longrightarrow> P (insert_song L song s)))"

text \<open>
  The second class is kept, in addition, by an assignment to any other member that the
  predicate does not read, by the body of a flush loop run under the loop's condition,
  and by one turn of the loop that rewrites covers.
\<close>

definition stable1 :: "(crawl \<Rightarrow> bool) \<Rightarrow> bool" where
  "stable1 P =
     (parse_stable P \<and>
      (\<forall>f s. P (query_id_update f s) = P s) \<and>
      (\<forall>f s. P (search_text_update f s) = P s) \<and>
      (\<forall>f s. P (artists_requests_queue_update f s) = P s) \<and>
      (\<forall>f s. P (albums_requests_queue_update f s) = P s) \<and>
      (\<forall>f s. P (songs_requests_queue_update f s) = P s) \<and>
      (\<forall>f s. P (artist_albums_requests_queue_update f s) = P s) \<and>
      (\<forall>f s. P (album_songs_requests_queue_update f s) = P s) \<and>
      (\<forall>f s. P (album_cover_requests_queue_update f s) = P s) \<and>
      (\<forall>f s. P (artist_albums_requests_pending_update f s) = P s) \<and>
      (\<forall>f s. P (album_songs_requests_pending_update f s) = P s) \<and>
      (\<forall>f s. P (album_covers_requests_sent_update f s) = P s) \<and>
      (\<forall>f s. P (artist_albums_requested_update f s) = P s) \<and>
      (\<forall>f s. P (artist_albums_received_update f s) = P s) \<and>
      (\<forall>f s. P (album_songs_requested_update f s) = P s) \<and>
      (\<forall>f s. P (album_songs_received_update f s) = P s) \<and>
      (\<forall>f s. P (album_covers_requested_update f s) = P s) \<and>
      (\<forall>f s. P (album_covers_received_update f s) = P s) \<and>
      (\<forall>f s. P (replies_update f s) = P s) \<and>
      (\<forall>f s. P (album_cover_replies_update f s) = P s) \<and>
      (\<forall>s. artists_requests_queue s \<noteq> [] \<longrightarrow> artists_requests_active s < kMaxConcurrentArtistsRequests
             \<longrightarrow> P s \<longrightarrow> P (FlushArtistsRequests_step s)) \<and>
      (\<forall>s. albums_requests_queue s \<noteq> [] \<longrightarrow> albums_requests_active s < kMaxConcurrentAlbumsRequests
             \<longrightarrow> P s \<longrightarrow> P (FlushAlbumsRequests_step s)) \<and>
      (\<forall>s. songs_requests_queue s \<noteq> [] \<longrightarrow> songs_requests_active s < kMaxConcurrentSongsRequests
             \<longrightarrow> P s \<longrightarrow> P (FlushSongsRequests_step s)) \<and>
      (\<forall>s. artist_albums_requests_queue s \<noteq> [] \<longrightarrow> artist_albums_requests_active s < kMaxConcurrentArtistAlbumsRequests
             \<longrightarrow> P s \<longrightarrow> P (FlushArtistAlbumsRequests_step s)) \<and>
      (\<forall>s. album_songs_requests_queue s \<noteq> [] \<longrightarrow> album_songs_requests_active s < kMaxConcurrentAlbumSongsRequests
             \<longrightarrow> P s \<longrightarrow> P (FlushAlbumSongsRequests_step s)) \<and>
      (\<forall>s. album_cover_requests_queue s \<noteq> [] \<longrightarrow> album_covers_requests_active s < kMaxConcurrentAlbumCoverRequests
             \<longrightarrow> P s \<longrightarrow> P (FlushAlbumCoverRequests_step s)) \<and>
      (\<forall>a f s. P s \<longrightarrow> P (cover_saved_step a f s)))"

text \<open>The third class is kept by setting \<open>no_results_\<close> as well.\<close>

definition stable0 :: "(crawl \<Rightarrow> bool) \<Rightarrow> bool" where
  "stable0 P = (stable1 P \<and> (\<forall>s. P s \<longrightarrow> P (no_results_update (\<lambda>_. True) s)))"

text \<open>
  A predicate is stable when the steps of the event loop keep it too: a decrement of an
  active-request counter and the disconnection of a reply.
\<close>

definition stable :: "(crawl \<Rightarrow> bool) \<Rightarrow> bool" where
  "stable P =
     (stable0 P \<and>
      (\<forall>f s. f (artists_requests_active s) \<le> artists_requests_active s \<longrightarrow> P s \<longrightarrow> P (artists_requests_active_update f s)) \<and>
      (\<forall>f s. f (albums_requests_active s) \<le> albums_requests_active s \<longrightarrow> P s \<longrightarrow> P (albums_requests_active_update f s)) \<and>
      (\<forall>f s. f (songs_requests_active s) \<le> songs_requests_active s \<longrightarrow> P s \<longrightarrow> P (songs_requests_active_update f s)) \<and>
      (\<forall>f s. f (artist_albums_requests_active s) \<le> artist_albums_requests_active s \<longrightarrow> P s \<longrightarrow> P (artist_albums_requests_active_update f s)) \<and>
      (\<forall>f s. f (album_songs_requests_active s) \<le> album_songs_requests_active s \<longrightarrow> P s \<longrightarrow> P (album_songs_requests_active_update f s)) \<and>
      (\<forall>f s. f (album_covers_requests_active s) \<le> album_covers_requests_active s \<longrightarrow> P s \<longrightarrow> P (album_covers_requests_active_update f s)) \<and>
      (\<forall>r s. P s \<longrightarrow> P (disconnect r s)))"

text \<open>The predicates that the crawl keeps: the bound on the active-request counters,\<close>

definition active_bounded :: "crawl \<Rightarrow> bool" where
  "active_bounded st =
     (artists_requests_active st \<le> kMaxConcurrentArtistsRequests \<and>
      albums_requests_active st \<le> kMaxConcurrentAlbumsRequests \<and>
      songs_requests_active st \<le> kMaxConcurrentSongsRequests \<and>
      artist_albums_requests_active st \<le> kMaxConcurrentArtistAlbumsRequests \<and>
      album_songs_requests_active st \<le> kMaxConcurrentAlbumSongsRequests \<and>
      album_covers_requests_active st \<le> kMaxConcurrentAlbumCoverRequests)"


text \<open>
  and a song map that is strictly sorted by key with every song under its own id, in
  \<open>songs_\<close> and in every \<open>Results\<close> signal emitted.
\<close>

definition songs_keyed :: "SongMap \<Rightarrow> bool" where
  "songs_keyed m = (sorted_wrt (<) (map fst m) \<and> (\<forall>kv \<in> set m. song_id (snd kv) = fst kv))"

fun results_keyed :: "signal \<Rightarrow> bool" where
  "results_keyed (Results q m e) = songs_keyed m"
| "results_keyed _ = True"

definition songs_inv :: "crawl \<Rightarrow> bool" where
  "songs_inv st = (songs_keyed (songs st) \<and> (\<forall>sig \<in> set (signals st). results_keyed sig))"

text \<open>
  A \<open>Results\<close> signal hands over \<open>songs_\<close> when the map it carries is the \<open>songs_\<close> of
  the members as they were when it was emitted.
\<close>

fun results_carry :: "signal \<times> members \<Rightarrow> bool" where
  "results_carry (Results q m e, mem) = (m = songs mem)"
| "results_carry _ = True"

definition songs_handed :: "crawl \<Rightarrow> bool" where
  "songs_handed st = list_all results_carry (emitted st)"












text \<open>Example values: the parameters of a crawl, a page of a listing, a track, an album item.\<close>

definition example_env :: env where
  "example_env =
     \<lparr>title_remove_misc = (\<lambda>s. s), kNsecPerSec = 1000000000, is_compilation = (\<lambda>s. False),
      toLongLong = toInt, toBool = (\<lambda>j. j = JBool True),
      CoverFilePath = (\<lambda>s u. ''/covers/'' @ song_album_id s),
      supported_mimetype = (\<lambda>m. m = ''image/jpeg'')\<rparr>"

definition example_page :: "int \<Rightarrow> int \<Rightarrow> json list \<Rightarrow> json_object" where
  "example_page off tot items =
     [(''limit'', JNum 50), (''offset'', JNum (of_int off)), (''total'', JNum (of_int tot)),
      (''items'', JArray items)]"

definition example_track :: "string \<Rightarrow> string \<Rightarrow> json" where
  "example_track i n =
     JObject [(''type'', JString ''track''), (''id'', JString i), (''name'', JString n),
              (''uri'', JString (''spotify:track:'' @ i)), (''duration_ms'', JNum 1000),
              (''track_number'', JNum 1), (''disc_number'', JNum 1), (''explicit'', JBool False)]"


section \<open>Cover selection\<close>

lemma images_loop_append:
  "images_loop c (xs @ [v]) = (if accepted_image v then image_url v else images_loop c xs)"
  by (induction xs arbitrary: c) (auto simp: accepted_image_def image_url_def Let_def)

text \<open>
  C4, as the code has it: of the images of an \<open>images[]\<close> array that are objects with
  \<open>url\<close>, \<open>width\<close> and \<open>height\<close> and whose width and height, read as ints, both exceed
  300, the loop keeps the URL of the last one; with no such image it keeps the URL it
  started from, which is empty at both places that run the loop.
\<close>

theorem images_loop_selects_last:
  "images_loop c array_images = last_image_over_300 c array_images"
proof (induction array_images arbitrary: c rule: rev_induct)
  case Nil
  show ?case by (simp add: last_image_over_300_def)
next
  case (snoc v xs)
  show ?case
    by (simp add: images_loop_append snoc last_image_over_300_def)
qed

theorem images_loop_selects_last_witness:
  "images_loop [] [image ''a'' 640 640, image ''b'' 400 400, image ''c'' 64 64] = ''b''"
  using images_loop_selects_last
          [of "[]" "[image ''a'' 640 640, image ''b'' 400 400, image ''c'' 64 64]"]
  by (simp add: last_image_over_300_def accepted_image_def image_def image_url_def
        contains_def field_def)

text \<open>
  C4 as stated fails: of two images that both exceed 300 by 300 the loop keeps the second,
  not the first.
\<close>

theorem images_loop_first_counterexample:
  "images_loop [] [image ''a'' 640 640, image ''b'' 400 400, image ''c'' 64 64]
     \<noteq> first_image_over_300 [image ''a'' 640 640, image ''b'' 400 400, image ''c'' 64 64]"
  by (simp add: first_image_over_300_def accepted_image_def image_def image_url_def
        contains_def field_def)

section \<open>Error replies\<close>

text \<open>
  C5 at an HTTP 401 reply whose body is
  \<open>{"error": {"status": 401, "message": "Invalid access token"}}\<close>: the text GetReplyData
  reports holds neither the message nor the status of the nested object, because both
  are read from the outer object.
\<close>

theorem GetReplyData_nested_message_lost:
  "reported (GetReplyData
      (error_reply 401 [(''error'', JObject [(''status'', JNum 401),
                                             (''message'', JString ''Invalid access token'')])]))
     = Some '' (0) (0)''"
  by (simp add: GetReplyData_def error_reply_def NoError_def error_envelope_def contains_def
        field_def arg3_def QString_number_def digit_char_def sub_status_def)

lemma GetReplyData_never_deauthenticates: "deauthenticated (GetReplyData reply) = False"
  by (simp add: GetReplyData_def sub_status_def Let_def split: prod.splits)

text \<open>
  C6 at an HTTP 401 reply whose envelope carries status 401 and the sub-status 6001 under
  every name the body could give it: GetReplyData does not call Deauthenticate, because
  \<open>sub_status\<close> is never read from the reply.
\<close>

theorem GetReplyData_session_invalid_not_deauthenticated:
  "\<not> deauthenticated (GetReplyData
        (error_reply 401 [(''error'', JObject [(''status'', JNum 401), (''sub_status'', JNum 6001),
                                               (''subStatus'', JNum 6001),
                                               (''message'', JString ''Session invalid'')]),
                          (''status'', JNum 401), (''sub_status'', JNum 6001),
                          (''subStatus'', JNum 6001), (''message'', JString ''Session invalid'')]))"
  by (simp add: GetReplyData_def error_reply_def NoError_def sub_status_def Let_def
        split: prod.splits)

section \<open>Token replies\<close>

text \<open>
  C7: a token reply that is still open, finished without error and with HTTP 200, whose
  body is a JSON object with \<open>access_token\<close> and \<open>expires_in\<close> and no \<open>refresh_token\<close>,
  leaves the stored refresh token as it was and writes the same value to the settings,
  while the access token, expires-in and login time are replaced in memory and in the
  settings.
\<close>

theorem refresh_token_retained:
  assumes "r \<in> set (token_replies svc)"
    and "error reply = NoError" and "http_status reply = 200"
    and "readAll reply = Bytes (ObjectDoc json_obj)"
    and "contains json_obj ''access_token''" and "contains json_obj ''expires_in''"
    and "\<not> contains json_obj ''refresh_token''"
  shows "refresh_token (AccessTokenRequestFinished k r reply now svc) = refresh_token svc
     \<and> settings (AccessTokenRequestFinished k r reply now svc) ''refresh_token''
         = Some (VString (refresh_token svc))
     \<and> access_token (AccessTokenRequestFinished k r reply now svc)
         = toString (field json_obj ''access_token'')
     \<and> expires_in (AccessTokenRequestFinished k r reply now svc)
         = word_of_int (toInt (field json_obj ''expires_in''))
     \<and> login_time (AccessTokenRequestFinished k r reply now svc) = word_of_int now
     \<and> settings (AccessTokenRequestFinished k r reply now svc) ''access_token''
         = Some (VString (toString (field json_obj ''access_token'')))
     \<and> settings (AccessTokenRequestFinished k r reply now svc) ''expires_in''
         = Some (VULongLong (word_of_int (toInt (field json_obj ''expires_in''))))
     \<and> settings (AccessTokenRequestFinished k r reply now svc) ''login_time''
         = Some (VULongLong (word_of_int now))"
proof -
  have "json_obj \<noteq> []"
    using assms(5) by (auto simp: contains_def)
  with assms show ?thesis
    by (simp add: AccessTokenRequestFinished_def Let_def)
qed

theorem refresh_token_retained_witness:
  "(0::nat) \<in> set (token_replies example_service)
   \<and> error (ok_reply [(''access_token'', JString ''X''), (''expires_in'', JNum 3600)]) = NoError
   \<and> http_status (ok_reply [(''access_token'', JString ''X''), (''expires_in'', JNum 3600)]) = 200
   \<and> \<not> contains [(''access_token'', JString ''X''), (''expires_in'', JNum 3600)] ''refresh_token''
   \<and> refresh_token (AccessTokenRequestFinished 1000 0
         (ok_reply [(''access_token'', JString ''X''), (''expires_in'', JNum 3600)])
         1700000000 example_service) = ''refresh''
   \<and> access_token (AccessTokenRequestFinished 1000 0
         (ok_reply [(''access_token'', JString ''X''), (''expires_in'', JNum 3600)])
         1700000000 example_service) = ''X''
   \<and> expires_in (AccessTokenRequestFinished 1000 0
         (ok_reply [(''access_token'', JString ''X''), (''expires_in'', JNum 3600)])
         1700000000 example_service) = 3600"
  using refresh_token_retained
          [of 0 example_service
              "ok_reply [(''access_token'', JString ''X''), (''expires_in'', JNum 3600)]"
              "[(''access_token'', JString ''X''), (''expires_in'', JNum 3600)]" 1000 1700000000]
  by (simp add: example_service_def ok_reply_def NoError_def contains_def field_def)

section \<open>Favorites\<close>

lemma qmultimap_insert_keys: "fst ` set (qmultimap_insert k v m) = insert k (fst ` set m)"
  by (induction k v m rule: qmultimap_insert.induct) (simp_all add: insert_commute)

lemma sorted_distinct_remdups_adj: "sorted xs \<Longrightarrow> distinct (remdups_adj xs)"
proof (induction xs rule: remdups_adj.induct)
  case (3 x y xs)
  show ?case
  proof (cases "x = y")
    case True
    with 3 show ?thesis by simp
  next
    case False
    from "3.prems" have "x \<le> y" and "\<forall>z \<in> set xs. y \<le> z" by auto
    with False have "x \<notin> set (y # xs)" by auto
    with False 3 show ?thesis by simp
  qed
qed simp_all

lemma qmultimap_insert_sorted:
  "sorted (map fst m) \<Longrightarrow> sorted (map fst (qmultimap_insert k v m))"
proof (induction m)
  case Nil
  show ?case by simp
next
  case (Cons kv m)
  show ?case
  proof (cases "k \<le> fst kv")
    case True
    with Cons.prems show ?thesis
      by (cases kv) (auto intro: order_trans)
  next
    case False
    then have "fst kv \<le> k" by simp
    with False Cons show ?thesis
      by (cases kv) (auto simp: qmultimap_insert_keys)
  qed
qed


lemma remove_songs_map_fold:
  "sorted (map fst m) \<Longrightarrow>
   sorted (map fst (fold (\<lambda>song songs_map.
             if favorite_id t song = [] then songs_map
             else qmultimap_insert (favorite_id t song) song songs_map) xs m))
   \<and> fst ` set (fold (\<lambda>song songs_map.
             if favorite_id t song = [] then songs_map
             else qmultimap_insert (favorite_id t song) song songs_map) xs m)
      = fst ` set m \<union> (favorite_id t ` set xs - {[]})"
proof (induction xs arbitrary: m)
  case Nil
  then show ?case by simp
next
  case (Cons x xs)
  show ?case
  proof (cases "favorite_id t x = []")
    case True
    with Cons show ?thesis by auto
  next
    case False
    have s: "sorted (map fst (qmultimap_insert (favorite_id t x) x m))"
      using Cons.prems by (rule qmultimap_insert_sorted)
    from Cons.IH [OF s] False show ?thesis
      by (auto simp: qmultimap_insert_keys)
  qed
qed

lemma add_id_list_fold:
  "\<forall>song \<in> set xs. favorite_id t song = [] \<Longrightarrow>
   fold (\<lambda>song id_list.
             if favorite_id t song = [] then id_list
             else if favorite_id t song \<noteq> [] \<and> favorite_id t song \<notin> set id_list
             then id_list @ [favorite_id t song] else id_list) xs ids = ids"
  by (induction xs arbitrary: ids) auto

lemma remove_requests_fold:
  "map snd (fav_network (fold (\<lambda>i. RemoveFavoritesRequest t i (g i)) ids fr))
     = map snd (fav_network fr) @ map (\<lambda>i. (DELETE, remove_url t i, [])) ids"
  by (induction ids arbitrary: fr) (auto simp: RemoveFavoritesRequest_def Let_def remove_url_def)

text \<open>
  C10: when every song passed to AddFavorites or to RemoveFavorites has an empty id for the
  category, the call leaves the favorite request as it was: no request is handed to the
  network and no lambda is connected, so no added or removed signal can follow from the
  call. RemoveFavorites hands the network one DELETE request for each id of
  \<open>uniqueKeys\<close>, and these ids are distinct and are the non-empty ids of the songs.
\<close>

theorem favorites_skip_empty_ids:
  "((\<forall>song \<in> set songs_arg. favorite_id t song = []) \<longrightarrow>
       AddFavorites t songs_arg fr = fr \<and> RemoveFavorites t songs_arg fr = fr)
   \<and> distinct (uniqueKeys (remove_songs_map t songs_arg))
   \<and> set (uniqueKeys (remove_songs_map t songs_arg)) = favorite_id t ` set songs_arg - {[]}
   \<and> map snd (fav_network (RemoveFavorites t songs_arg fr))
       = map snd (fav_network fr)
         @ map (\<lambda>i. (DELETE, remove_url t i, [])) (uniqueKeys (remove_songs_map t songs_arg))"
proof -
  have m: "sorted (map fst (remove_songs_map t songs_arg))"
          "fst ` set (remove_songs_map t songs_arg) = favorite_id t ` set songs_arg - {[]}"
    using remove_songs_map_fold [of "[]" t songs_arg] by (simp_all add: remove_songs_map_def)
  have d: "distinct (uniqueKeys (remove_songs_map t songs_arg))"
    unfolding uniqueKeys_def using m(1) by (rule sorted_distinct_remdups_adj)
  have k: "set (uniqueKeys (remove_songs_map t songs_arg)) = favorite_id t ` set songs_arg - {[]}"
    using m(2) by (simp add: uniqueKeys_def)
  have e: "(\<forall>song \<in> set songs_arg. favorite_id t song = []) \<longrightarrow>
       AddFavorites t songs_arg fr = fr \<and> RemoveFavorites t songs_arg fr = fr"
  proof
    assume a: "\<forall>song \<in> set songs_arg. favorite_id t song = []"
    then have "add_id_list t songs_arg = []"
      unfolding add_id_list_def by (rule add_id_list_fold)
    then have 1: "AddFavorites t songs_arg fr = fr" by (simp add: AddFavorites_def)
    from a k have "set (uniqueKeys (remove_songs_map t songs_arg)) = {}" by auto
    then have 2: "RemoveFavorites t songs_arg fr = fr" by (simp add: RemoveFavorites_def)
    from 1 2 show "AddFavorites t songs_arg fr = fr \<and> RemoveFavorites t songs_arg fr = fr" ..
  qed
  have n: "map snd (fav_network (RemoveFavorites t songs_arg fr))
       = map snd (fav_network fr)
         @ map (\<lambda>i. (DELETE, remove_url t i, [])) (uniqueKeys (remove_songs_map t songs_arg))"
    unfolding RemoveFavorites_def by (rule remove_requests_fold)
  from e d k n show ?thesis by blast
qed

theorem favorites_skip_empty_ids_witness:
  "favorite_id FavoriteType_Artists (song_of ''s1'' ''B'' []) = []
   \<and> favorite_id FavoriteType_Artists (song_of ''s2'' ''A'' []) = []
   \<and> AddFavorites FavoriteType_Artists [song_of ''s1'' ''B'' [], song_of ''s2'' ''A'' []]
         example_favorite_request = example_favorite_request
   \<and> RemoveFavorites FavoriteType_Artists [song_of ''s1'' ''B'' [], song_of ''s2'' ''A'' []]
         example_favorite_request = example_favorite_request"
  using favorites_skip_empty_ids
          [of "[song_of ''s1'' ''B'' [], song_of ''s2'' ''A'' []]" FavoriteType_Artists
              example_favorite_request]
  by (simp add: song_of_def)

section \<open>Predicates kept throughout a crawl\<close>

lemma parse_upd:
  assumes "parse_stable P"
  shows "P (service_update f0 s) = P s"
    and "P (errors_update f1 s) = P s"
    and "P (artists_total_update f2 s) = P s"
    and "P (artists_received_update f3 s) = P s"
  using assms by (simp_all add: parse_stable_def)

lemma parse_prim:
  assumes "parse_stable P" and "P s"
  shows "\<not> is_Results sig \<Longrightarrow> P (emit sig s)"
    and "P (FinishCheck s)"
    and "P (insert_song L song s)"
  using assms by (simp_all add: parse_stable_def)

lemma stable1_parse: "stable1 P \<Longrightarrow> parse_stable P"
  by (simp add: stable1_def)

lemma stable1_upd:
  assumes "stable1 P"
  shows "P (service_update f0 s) = P s"
    and "P (errors_update f1 s) = P s"
    and "P (artists_total_update f2 s) = P s"
    and "P (artists_received_update f3 s) = P s"
    and "P (query_id_update f4 s) = P s"
    and "P (search_text_update f5 s) = P s"
    and "P (artists_requests_queue_update f6 s) = P s"
    and "P (albums_requests_queue_update f7 s) = P s"
    and "P (songs_requests_queue_update f8 s) = P s"
    and "P (artist_albums_requests_queue_update f9 s) = P s"
    and "P (album_songs_requests_queue_update f10 s) = P s"
    and "P (album_cover_requests_queue_update f11 s) = P s"
    and "P (artist_albums_requests_pending_update f12 s) = P s"
    and "P (album_songs_requests_pending_update f13 s) = P s"
    and "P (album_covers_requests_sent_update f14 s) = P s"
    and "P (artist_albums_requested_update f15 s) = P s"
    and "P (artist_albums_received_update f16 s) = P s"
    and "P (album_songs_requested_update f17 s) = P s"
    and "P (album_songs_received_update f18 s) = P s"
    and "P (album_covers_requested_update f19 s) = P s"
    and "P (album_covers_received_update f20 s) = P s"
    and "P (replies_update f21 s) = P s"
    and "P (album_cover_replies_update f22 s) = P s"
  using assms by (simp_all add: stable1_def parse_stable_def)

lemma stable1_prim:
  assumes "stable1 P" and "P s"
  shows "\<not> is_Results sig \<Longrightarrow> P (emit sig s)"
    and "P (FinishCheck s)"
    and "artists_requests_queue s \<noteq> [] \<Longrightarrow> artists_requests_active s < kMaxConcurrentArtistsRequests \<Longrightarrow> P (FlushArtistsRequests_step s)"
    and "albums_requests_queue s \<noteq> [] \<Longrightarrow> albums_requests_active s < kMaxConcurrentAlbumsRequests \<Longrightarrow> P (FlushAlbumsRequests_step s)"
    and "songs_requests_queue s \<noteq> [] \<Longrightarrow> songs_requests_active s < kMaxConcurrentSongsRequests \<Longrightarrow> P (FlushSongsRequests_step s)"
    and "artist_albums_requests_queue s \<noteq> [] \<Longrightarrow> artist_albums_requests_active s < kMaxConcurrentArtistAlbumsRequests \<Longrightarrow> P (FlushArtistAlbumsRequests_step s)"
    and "album_songs_requests_queue s \<noteq> [] \<Longrightarrow> album_songs_requests_active s < kMaxConcurrentAlbumSongsRequests \<Longrightarrow> P (FlushAlbumSongsRequests_step s)"
    and "album_cover_requests_queue s \<noteq> [] \<Longrightarrow> album_covers_requests_active s < kMaxConcurrentAlbumCoverRequests \<Longrightarrow> P (FlushAlbumCoverRequests_step s)"
    and "P (insert_song L song s)"
    and "P (cover_saved_step a f s)"
  using assms by (simp_all add: stable1_def parse_stable_def)

lemma stable0_stable1: "stable0 P \<Longrightarrow> stable1 P"
  by (simp add: stable0_def)

lemma stable0_no_results: "stable0 P \<Longrightarrow> P s \<Longrightarrow> P (s\<lparr>no_results := True\<rparr>)"
  by (simp add: stable0_def)

lemma stable_stable0: "stable P \<Longrightarrow> stable0 P"
  by (simp add: stable_def)

lemma stable_dec:
  assumes "stable P" and "P s"
  shows "f0 (artists_requests_active s) \<le> artists_requests_active s \<Longrightarrow> P (artists_requests_active_update f0 s)"
    and "f1 (albums_requests_active s) \<le> albums_requests_active s \<Longrightarrow> P (albums_requests_active_update f1 s)"
    and "f2 (songs_requests_active s) \<le> songs_requests_active s \<Longrightarrow> P (songs_requests_active_update f2 s)"
    and "f3 (artist_albums_requests_active s) \<le> artist_albums_requests_active s \<Longrightarrow> P (artist_albums_requests_active_update f3 s)"
    and "f4 (album_songs_requests_active s) \<le> album_songs_requests_active s \<Longrightarrow> P (album_songs_requests_active_update f4 s)"
    and "f5 (album_covers_requests_active s) \<le> album_covers_requests_active s \<Longrightarrow> P (album_covers_requests_active_update f5 s)"
    and "P (disconnect r s)"
  using assms by (simp_all add: stable_def)

text \<open>
  The rules that carry a predicate through the \<open>let\<close>s and the branches of a function:
  the first six for a predicate that every branch keeps, the last three where the
  branch taken matters or the predicate changes on the way.
\<close>

lemma pres_Let_state: "P a \<Longrightarrow> (\<And>x. P x \<Longrightarrow> P (f x)) \<Longrightarrow> P (Let a f)"
  by simp

lemma pres_Let_value: "(\<And>x. P (f x)) \<Longrightarrow> P (Let a f)"
  by simp

lemma pres_Let_unfold: "P (f a) \<Longrightarrow> P (Let a f)"
  by simp

lemma pres_if: "P a \<Longrightarrow> P b \<Longrightarrow> P (if c then a else b)"
  by simp

lemma pres_case_QueryType:
  "P a \<Longrightarrow> P b \<Longrightarrow> P c \<Longrightarrow> P d \<Longrightarrow> P e \<Longrightarrow> P f \<Longrightarrow> P g \<Longrightarrow> P h
     \<Longrightarrow> P (case_QueryType a b c d e f g h t)"
  by (simp split: QueryType.split)

lemma pres_fold: "(\<And>x s. P s \<Longrightarrow> P (f x s)) \<Longrightarrow> P st \<Longrightarrow> P (fold f xs st)"
  by (induction xs arbitrary: st) simp_all

lemma pres_ifc: "(c \<Longrightarrow> P a) \<Longrightarrow> (\<not> c \<Longrightarrow> P b) \<Longrightarrow> P (if c then a else b)"
  by simp

lemma pres_Let_mid: "Q a \<Longrightarrow> (\<And>x. Q x \<Longrightarrow> P (f x)) \<Longrightarrow> P (Let a f)"
  by simp

lemma FlushArtistsRequests_loop:
  assumes "\<And>s. artists_requests_queue s \<noteq> [] \<Longrightarrow> artists_requests_active s < kMaxConcurrentArtistsRequests \<Longrightarrow> P s \<Longrightarrow> P (FlushArtistsRequests_step s)"
  shows "P st \<Longrightarrow> P (FlushArtistsRequests st)"
proof (induction st rule: FlushArtistsRequests.induct)
  case (1 st)
  show ?case
  proof (cases "artists_requests_queue st \<noteq> [] \<and> artists_requests_active st < kMaxConcurrentArtistsRequests")
    case True
    then have "P (FlushArtistsRequests_step st)"
      using "1.prems" assms by blast
    with "1.IH" True show ?thesis
      by (subst FlushArtistsRequests.simps) simp
  next
    case False
    with "1.prems" show ?thesis
      by (subst FlushArtistsRequests.simps) auto
  qed
qed

lemma FlushArtistsRequests_done:
  "artists_requests_queue (FlushArtistsRequests st) = [] \<or> \<not> artists_requests_active (FlushArtistsRequests st) < kMaxConcurrentArtistsRequests"
proof (induction st rule: FlushArtistsRequests.induct)
  case (1 st)
  show ?case
  proof (cases "artists_requests_queue st \<noteq> [] \<and> artists_requests_active st < kMaxConcurrentArtistsRequests")
    case True
    with "1.IH" show ?thesis
      by (subst (1 2) FlushArtistsRequests.simps) simp
  next
    case False
    then show ?thesis
      by (subst (1 2) FlushArtistsRequests.simps) auto
  qed
qed

lemma FlushArtistsRequests_stable:
  assumes "stable1 P"
  shows "P st \<Longrightarrow> P (FlushArtistsRequests st)"
  by (rule FlushArtistsRequests_loop) (rule stable1_prim(3) [OF assms])

lemma FlushAlbumsRequests_loop:
  assumes "\<And>s. albums_requests_queue s \<noteq> [] \<Longrightarrow> albums_requests_active s < kMaxConcurrentAlbumsRequests \<Longrightarrow> P s \<Longrightarrow> P (FlushAlbumsRequests_step s)"
  shows "P st \<Longrightarrow> P (FlushAlbumsRequests st)"
proof (induction st rule: FlushAlbumsRequests.induct)
  case (1 st)
  show ?case
  proof (cases "albums_requests_queue st \<noteq> [] \<and> albums_requests_active st < kMaxConcurrentAlbumsRequests")
    case True
    then have "P (FlushAlbumsRequests_step st)"
      using "1.prems" assms by blast
    with "1.IH" True show ?thesis
      by (subst FlushAlbumsRequests.simps) simp
  next
    case False
    with "1.prems" show ?thesis
      by (subst FlushAlbumsRequests.simps) auto
  qed
qed

lemma FlushAlbumsRequests_done:
  "albums_requests_queue (FlushAlbumsRequests st) = [] \<or> \<not> albums_requests_active (FlushAlbumsRequests st) < kMaxConcurrentAlbumsRequests"
proof (induction st rule: FlushAlbumsRequests.induct)
  case (1 st)
  show ?case
  proof (cases "albums_requests_queue st \<noteq> [] \<and> albums_requests_active st < kMaxConcurrentAlbumsRequests")
    case True
    with "1.IH" show ?thesis
      by (subst (1 2) FlushAlbumsRequests.simps) simp
  next
    case False
    then show ?thesis
      by (subst (1 2) FlushAlbumsRequests.simps) auto
  qed
qed

lemma FlushAlbumsRequests_stable:
  assumes "stable1 P"
  shows "P st \<Longrightarrow> P (FlushAlbumsRequests st)"
  by (rule FlushAlbumsRequests_loop) (rule stable1_prim(4) [OF assms])

lemma FlushSongsRequests_loop:
  assumes "\<And>s. songs_requests_queue s \<noteq> [] \<Longrightarrow> songs_requests_active s < kMaxConcurrentSongsRequests \<Longrightarrow> P s \<Longrightarrow> P (FlushSongsRequests_step s)"
  shows "P st \<Longrightarrow> P (FlushSongsRequests st)"
proof (induction st rule: FlushSongsRequests.induct)
  case (1 st)
  show ?case
  proof (cases "songs_requests_queue st \<noteq> [] \<and> songs_requests_active st < kMaxConcurrentSongsRequests")
    case True
    then have "P (FlushSongsRequests_step st)"
      using "1.prems" assms by blast
    with "1.IH" True show ?thesis
      by (subst FlushSongsRequests.simps) simp
  next
    case False
    with "1.prems" show ?thesis
      by (subst FlushSongsRequests.simps) auto
  qed
qed

lemma FlushSongsRequests_done:
  "songs_requests_queue (FlushSongsRequests st) = [] \<or> \<not> songs_requests_active (FlushSongsRequests st) < kMaxConcurrentSongsRequests"
proof (induction st rule: FlushSongsRequests.induct)
  case (1 st)
  show ?case
  proof (cases "songs_requests_queue st \<noteq> [] \<and> songs_requests_active st < kMaxConcurrentSongsRequests")
    case True
    with "1.IH" show ?thesis
      by (subst (1 2) FlushSongsRequests.simps) simp
  next
    case False
    then show ?thesis
      by (subst (1 2) FlushSongsRequests.simps) auto
  qed
qed

lemma FlushSongsRequests_stable:
  assumes "stable1 P"
  shows "P st \<Longrightarrow> P (FlushSongsRequests st)"
  by (rule FlushSongsRequests_loop) (rule stable1_prim(5) [OF assms])

lemma FlushArtistAlbumsRequests_loop:
  assumes "\<And>s. artist_albums_requests_queue s \<noteq> [] \<Longrightarrow> artist_albums_requests_active s < kMaxConcurrentArtistAlbumsRequests \<Longrightarrow> P s \<Longrightarrow> P (FlushArtistAlbumsRequests_step s)"
  shows "P st \<Longrightarrow> P (FlushArtistAlbumsRequests st)"
proof (induction st rule: FlushArtistAlbumsRequests.induct)
  case (1 st)
  show ?case
  proof (cases "artist_albums_requests_queue st \<noteq> [] \<and> artist_albums_requests_active st < kMaxConcurrentArtistAlbumsRequests")
    case True
    then have "P (FlushArtistAlbumsRequests_step st)"
      using "1.prems" assms by blast
    with "1.IH" True show ?thesis
      by (subst FlushArtistAlbumsRequests.simps) simp
  next
    case False
    with "1.prems" show ?thesis
      by (subst FlushArtistAlbumsRequests.simps) auto
  qed
qed

lemma FlushArtistAlbumsRequests_done:
  "artist_albums_requests_queue (FlushArtistAlbumsRequests st) = [] \<or> \<not> artist_albums_requests_active (FlushArtistAlbumsRequests st) < kMaxConcurrentArtistAlbumsRequests"
proof (induction st rule: FlushArtistAlbumsRequests.induct)
  case (1 st)
  show ?case
  proof (cases "artist_albums_requests_queue st \<noteq> [] \<and> artist_albums_requests_active st < kMaxConcurrentArtistAlbumsRequests")
    case True
    with "1.IH" show ?thesis
      by (subst (1 2) FlushArtistAlbumsRequests.simps) simp
  next
    case False
    then show ?thesis
      by (subst (1 2) FlushArtistAlbumsRequests.simps) auto
  qed
qed

lemma FlushArtistAlbumsRequests_stable:
  assumes "stable1 P"
  shows "P st \<Longrightarrow> P (FlushArtistAlbumsRequests st)"
  by (rule FlushArtistAlbumsRequests_loop) (rule stable1_prim(6) [OF assms])

lemma FlushAlbumSongsRequests_loop:
  assumes "\<And>s. album_songs_requests_queue s \<noteq> [] \<Longrightarrow> album_songs_requests_active s < kMaxConcurrentAlbumSongsRequests \<Longrightarrow> P s \<Longrightarrow> P (FlushAlbumSongsRequests_step s)"
  shows "P st \<Longrightarrow> P (FlushAlbumSongsRequests st)"
proof (induction st rule: FlushAlbumSongsRequests.induct)
  case (1 st)
  show ?case
  proof (cases "album_songs_requests_queue st \<noteq> [] \<and> album_songs_requests_active st < kMaxConcurrentAlbumSongsRequests")
    case True
    then have "P (FlushAlbumSongsRequests_step st)"
      using "1.prems" assms by blast
    with "1.IH" True show ?thesis
      by (subst FlushAlbumSongsRequests.simps) simp
  next
    case False
    with "1.prems" show ?thesis
      by (subst FlushAlbumSongsRequests.simps) auto
  qed
qed

lemma FlushAlbumSongsRequests_done:
  "album_songs_requests_queue (FlushAlbumSongsRequests st) = [] \<or> \<not> album_songs_requests_active (FlushAlbumSongsRequests st) < kMaxConcurrentAlbumSongsRequests"
proof (induction st rule: FlushAlbumSongsRequests.induct)
  case (1 st)
  show ?case
  proof (cases "album_songs_requests_queue st \<noteq> [] \<and> album_songs_requests_active st < kMaxConcurrentAlbumSongsRequests")
    case True
    with "1.IH" show ?thesis
      by (subst (1 2) FlushAlbumSongsRequests.simps) simp
  next
    case False
    then show ?thesis
      by (subst (1 2) FlushAlbumSongsRequests.simps) auto
  qed
qed

lemma FlushAlbumSongsRequests_stable:
  assumes "stable1 P"
  shows "P st \<Longrightarrow> P (FlushAlbumSongsRequests st)"
  by (rule FlushAlbumSongsRequests_loop) (rule stable1_prim(7) [OF assms])

lemma FlushAlbumCoverRequests_loop:
  assumes "\<And>s. album_cover_requests_queue s \<noteq> [] \<Longrightarrow> album_covers_requests_active s < kMaxConcurrentAlbumCoverRequests \<Longrightarrow> P s \<Longrightarrow> P (FlushAlbumCoverRequests_step s)"
  shows "P st \<Longrightarrow> P (FlushAlbumCoverRequests st)"
proof (induction st rule: FlushAlbumCoverRequests.induct)
  case (1 st)
  show ?case
  proof (cases "album_cover_requests_queue st \<noteq> [] \<and> album_covers_requests_active st < kMaxConcurrentAlbumCoverRequests")
    case True
    then have "P (FlushAlbumCoverRequests_step st)"
      using "1.prems" assms by blast
    with "1.IH" True show ?thesis
      by (subst FlushAlbumCoverRequests.simps) simp
  next
    case False
    with "1.prems" show ?thesis
      by (subst FlushAlbumCoverRequests.simps) auto
  qed
qed

lemma FlushAlbumCoverRequests_done:
  "album_cover_requests_queue (FlushAlbumCoverRequests st) = [] \<or> \<not> album_covers_requests_active (FlushAlbumCoverRequests st) < kMaxConcurrentAlbumCoverRequests"
proof (induction st rule: FlushAlbumCoverRequests.induct)
  case (1 st)
  show ?case
  proof (cases "album_cover_requests_queue st \<noteq> [] \<and> album_covers_requests_active st < kMaxConcurrentAlbumCoverRequests")
    case True
    with "1.IH" show ?thesis
      by (subst (1 2) FlushAlbumCoverRequests.simps) simp
  next
    case False
    then show ?thesis
      by (subst (1 2) FlushAlbumCoverRequests.simps) auto
  qed
qed

lemma FlushAlbumCoverRequests_stable:
  assumes "stable1 P"
  shows "P st \<Longrightarrow> P (FlushAlbumCoverRequests st)"
  by (rule FlushAlbumCoverRequests_loop) (rule stable1_prim(8) [OF assms])

lemma Error_stable:
  assumes "parse_stable P" and "P st"
  shows "P (Error err st)"
proof -
  note R = pres_Let_state [of P] pres_Let_value [of P] pres_if [of P] pres_case_QueryType [of P]
    pres_fold [of P] parse_upd [OF assms(1), THEN iffD2] parse_prim [OF assms(1)]
    
  show ?thesis
    unfolding Error_def
    by (rule assms(2) | assumption | rule R | simp)+
qed

lemma report_stable:
  assumes "parse_stable P" and "P st"
  shows "P (report e st)"
  using assms by (cases e) (simp_all add: Error_stable)

lemma received_stable:
  assumes "parse_stable P" and "P st"
  shows "P (received reply st)"
proof -
  note R = pres_Let_state [of P] pres_Let_value [of P] pres_if [of P] pres_case_QueryType [of P]
    pres_fold [of P] parse_upd [OF assms(1), THEN iffD2] parse_prim [OF assms(1)]
    report_stable [OF assms(1)]
  show ?thesis
    unfolding received_def
    by (rule assms(2) | assumption | rule R | simp)+
qed

lemma HandleSSLErrors_stable:
  assumes "parse_stable P" and "P st"
  shows "P (HandleSSLErrors ssl_errors st)"
proof -
  note R = pres_Let_state [of P] pres_Let_value [of P] pres_if [of P] pres_case_QueryType [of P]
    pres_fold [of P] parse_upd [OF assms(1), THEN iffD2] parse_prim [OF assms(1)]
    Error_stable [OF assms(1)]
  show ?thesis
    unfolding HandleSSLErrors_def
    by (rule assms(2) | assumption | rule R | simp)+
qed

lemma songs_item_stable:
  assumes "parse_stable P" and "P (snd lst)"
  shows "P (snd (songs_item E a al value_item lst))"
proof -
  note [simp] = Error_stable [OF assms(1)] report_stable [OF assms(1)]
  show ?thesis
    using assms(2) by (simp add: songs_item_def Let_def)
qed

lemma songs_items_stable:
  assumes "parse_stable P"
  shows "P (snd lst) \<Longrightarrow> P (snd (fold (songs_item E a al) xs lst))"
  by (induction xs arbitrary: lst) (simp_all add: songs_item_stable [OF assms])

text \<open>
  The turns of the loops that fill the two pending maps, for a predicate that an
  insertion into the map keeps.
\<close>

lemma artists_item_rule:
  assumes "parse_stable P" and "P st"
    and ins: "\<And>k v s. P s \<Longrightarrow>
                P (s\<lparr>artist_albums_requests_pending :=
                       qmap_insert k v (artist_albums_requests_pending s)\<rparr>)"
  shows "P (artists_item value_item st)"
proof -
  note R = pres_Let_state [of P] pres_Let_value [of P] pres_if [of P] pres_case_QueryType [of P]
    pres_fold [of P] parse_upd [OF assms(1), THEN iffD2] parse_prim [OF assms(1)]
    Error_stable [OF assms(1)]
  show ?thesis
    unfolding artists_item_def
    by (rule assms(2) | assumption | rule ins | rule R | simp)+
qed

lemma add_pending_album_rule:
  assumes "P st"
    and ins: "\<And>k v s. P s \<Longrightarrow>
                P (s\<lparr>album_songs_requests_pending :=
                       qmap_insert k v (album_songs_requests_pending s)\<rparr>)"
  shows "P (add_pending_album a i t c st)"
  unfolding add_pending_album_def
  by (rule pres_if [of P]) (rule assms(1), rule ins, rule assms(1))

lemma albums_item_rule:
  assumes "parse_stable P" and "P st"
    and pend: "\<And>a' i t c s. P s \<Longrightarrow> P (add_pending_album a' i t c s)"
  shows "P (albums_item E a value_item st)"
proof -
  note R = pres_Let_state [of P] pres_Let_value [of P] pres_if [of P] pres_case_QueryType [of P]
    pres_fold [of P] parse_upd [OF assms(1), THEN iffD2] parse_prim [OF assms(1)]
    Error_stable [OF assms(1)]
  show ?thesis
    unfolding albums_item_def
    by (rule assms(2) | assumption | rule pend | rule R | simp)+
qed

lemma AddArtistsRequest_stable:
  assumes "stable1 P" and "P st"
  shows "P (AddArtistsRequest off l st)"
proof -
  note R = pres_Let_state [of P] pres_Let_value [of P] pres_if [of P] pres_case_QueryType [of P]
    pres_fold [of P] stable1_upd [OF assms(1), THEN iffD2] stable1_prim [OF assms(1)]
    FlushArtistsRequests_stable [OF assms(1)]
  show ?thesis
    unfolding AddArtistsRequest_def
    by (rule assms(2) | assumption | rule R | simp)+
qed

lemma AddArtistsSearchRequest_stable:
  assumes "stable1 P" and "P st"
  shows "P (AddArtistsSearchRequest off st)"
proof -
  note R = pres_Let_state [of P] pres_Let_value [of P] pres_if [of P] pres_case_QueryType [of P]
    pres_fold [of P] stable1_upd [OF assms(1), THEN iffD2] stable1_prim [OF assms(1)]
    AddArtistsRequest_stable [OF assms(1)]
  show ?thesis
    unfolding AddArtistsSearchRequest_def
    by (rule assms(2) | assumption | rule R | simp)+
qed

lemma AddAlbumsRequest_stable:
  assumes "stable1 P" and "P st"
  shows "P (AddAlbumsRequest off l st)"
proof -
  note R = pres_Let_state [of P] pres_Let_value [of P] pres_if [of P] pres_case_QueryType [of P]
    pres_fold [of P] stable1_upd [OF assms(1), THEN iffD2] stable1_prim [OF assms(1)]
    FlushAlbumsRequests_stable [OF assms(1)]
  show ?thesis
    unfolding AddAlbumsRequest_def
    by (rule assms(2) | assumption | rule R | simp)+
qed

lemma AddAlbumsSearchRequest_stable:
  assumes "stable1 P" and "P st"
  shows "P (AddAlbumsSearchRequest off st)"
proof -
  note R = pres_Let_state [of P] pres_Let_value [of P] pres_if [of P] pres_case_QueryType [of P]
    pres_fold [of P] stable1_upd [OF assms(1), THEN iffD2] stable1_prim [OF assms(1)]
    AddAlbumsRequest_stable [OF assms(1)]
  show ?thesis
    unfolding AddAlbumsSearchRequest_def
    by (rule assms(2) | assumption | rule R | simp)+
qed

lemma AddSongsRequest_stable:
  assumes "stable1 P" and "P st"
  shows "P (AddSongsRequest off l st)"
proof -
  note R = pres_Let_state [of P] pres_Let_value [of P] pres_if [of P] pres_case_QueryType [of P]
    pres_fold [of P] stable1_upd [OF assms(1), THEN iffD2] stable1_prim [OF assms(1)]
    FlushSongsRequests_stable [OF assms(1)]
  show ?thesis
    unfolding AddSongsRequest_def
    by (rule assms(2) | assumption | rule R | simp)+
qed

lemma AddSongsSearchRequest_stable:
  assumes "stable1 P" and "P st"
  shows "P (AddSongsSearchRequest off st)"
proof -
  note R = pres_Let_state [of P] pres_Let_value [of P] pres_if [of P] pres_case_QueryType [of P]
    pres_fold [of P] stable1_upd [OF assms(1), THEN iffD2] stable1_prim [OF assms(1)]
    AddSongsRequest_stable [OF assms(1)]
  show ?thesis
    unfolding AddSongsSearchRequest_def
    by (rule assms(2) | assumption | rule R | simp)+
qed

lemma AddArtistAlbumsRequest_stable:
  assumes "stable1 P" and "P st"
  shows "P (AddArtistAlbumsRequest a off st)"
proof -
  note R = pres_Let_state [of P] pres_Let_value [of P] pres_if [of P] pres_case_QueryType [of P]
    pres_fold [of P] stable1_upd [OF assms(1), THEN iffD2] stable1_prim [OF assms(1)]
    FlushArtistAlbumsRequests_stable [OF assms(1)]
  show ?thesis
    unfolding AddArtistAlbumsRequest_def
    by (rule assms(2) | assumption | rule R | simp)+
qed

lemma AddAlbumSongsRequest_stable:
  assumes "stable1 P" and "P st"
  shows "P (AddAlbumSongsRequest a al off st)"
proof -
  note R = pres_Let_state [of P] pres_Let_value [of P] pres_if [of P] pres_case_QueryType [of P]
    pres_fold [of P] stable1_upd [OF assms(1), THEN iffD2] stable1_prim [OF assms(1)]
    FlushAlbumSongsRequests_stable [OF assms(1)]
  show ?thesis
    unfolding AddAlbumSongsRequest_def
    by (rule assms(2) | assumption | rule R | simp)+
qed

lemma AddAlbumCoverRequest_stable:
  assumes "stable1 P" and "P st"
  shows "P (AddAlbumCoverRequest E song st)"
proof -
  note R = pres_Let_state [of P] pres_Let_value [of P] pres_if [of P] pres_case_QueryType [of P]
    pres_fold [of P] stable1_upd [OF assms(1), THEN iffD2] stable1_prim [OF assms(1)]
    
  show ?thesis
    unfolding AddAlbumCoverRequest_def
    by (rule assms(2) | assumption | rule R | simp)+
qed

lemma GetAlbumCovers_stable:
  assumes "stable1 P" and "P st"
  shows "P (GetAlbumCovers E st)"
proof -
  note R = pres_Let_state [of P] pres_Let_value [of P] pres_if [of P] pres_case_QueryType [of P]
    pres_fold [of P] stable1_upd [OF assms(1), THEN iffD2] stable1_prim [OF assms(1)]
    AddAlbumCoverRequest_stable [OF assms(1)]
    FlushAlbumCoverRequests_stable [OF assms(1)]
  show ?thesis
    unfolding GetAlbumCovers_def
    by (rule assms(2) | assumption | rule R | simp)+
qed

lemma AlbumCoverFinishCheck_stable:
  assumes "stable1 P" and "P st"
  shows "P (AlbumCoverFinishCheck  st)"
proof -
  note R = pres_Let_state [of P] pres_Let_value [of P] pres_if [of P] pres_case_QueryType [of P]
    pres_fold [of P] stable1_upd [OF assms(1), THEN iffD2] stable1_prim [OF assms(1)]
    FlushAlbumCoverRequests_stable [OF assms(1)]
  show ?thesis
    unfolding AlbumCoverFinishCheck_def
    by (rule assms(2) | assumption | rule R | simp)+
qed

lemma ArtistsFinishCheck_stable:
  assumes "stable1 P" and "P st"
  shows "P (ArtistsFinishCheck l off n st)"
proof -
  note R = pres_Let_state [of P] pres_Let_value [of P] pres_if [of P] pres_case_QueryType [of P]
    pres_fold [of P] stable1_upd [OF assms(1), THEN iffD2] stable1_prim [OF assms(1)]
    FlushArtistsRequests_stable [OF assms(1)]
    AddArtistsRequest_stable [OF assms(1)]
    AddArtistsSearchRequest_stable [OF assms(1)]
    AddArtistAlbumsRequest_stable [OF assms(1)]
  show ?thesis
    unfolding ArtistsFinishCheck_def
    by (rule assms(2) | assumption | rule R | simp)+
qed

lemma AlbumsFinishCheck_stable:
  assumes "stable1 P" and "P st"
  shows "P (AlbumsFinishCheck a l off tot n st)"
proof -
  note R = pres_Let_state [of P] pres_Let_value [of P] pres_if [of P] pres_case_QueryType [of P]
    pres_fold [of P] stable1_upd [OF assms(1), THEN iffD2] stable1_prim [OF assms(1)]
    AddAlbumsRequest_stable [OF assms(1)]
    AddAlbumsSearchRequest_stable [OF assms(1)]
    AddArtistAlbumsRequest_stable [OF assms(1)]
    AddAlbumSongsRequest_stable [OF assms(1)]
  show ?thesis
    unfolding AlbumsFinishCheck_def
    by (rule assms(2) | assumption | rule R | simp)+
qed

lemma SongsFinishCheck_stable:
  assumes "stable1 P" and "P st"
  shows "P (SongsFinishCheck E a al l off tot n st)"
proof -
  note R = pres_Let_state [of P] pres_Let_value [of P] pres_if [of P] pres_case_QueryType [of P]
    pres_fold [of P] stable1_upd [OF assms(1), THEN iffD2] stable1_prim [OF assms(1)]
    AddSongsRequest_stable [OF assms(1)]
    AddSongsSearchRequest_stable [OF assms(1)]
    AddAlbumSongsRequest_stable [OF assms(1)]
    FlushAlbumSongsRequests_stable [OF assms(1)]
    GetAlbumCovers_stable [OF assms(1)]
  show ?thesis
    unfolding SongsFinishCheck_def
    by (rule assms(2) | assumption | rule R | simp)+
qed

lemma cover_saved_loop:
  "(\<And>s. qcontains (album_covers_requests_sent s) al_id \<Longrightarrow> P s
          \<Longrightarrow> P (cover_saved_step al_id filename s))
   \<Longrightarrow> P st \<Longrightarrow> P (cover_saved al_id filename st)"
proof (induction al_id filename st rule: cover_saved.induct)
  case (1 al_id filename st)
  show ?case
  proof (cases "qcontains (album_covers_requests_sent st) al_id")
    case True
    have "P (cover_saved_step al_id filename st)"
      using True "1.prems" by blast
    with "1.IH" True "1.prems"(1) show ?thesis
      by (subst cover_saved.simps) simp
  next
    case False
    with "1.prems" show ?thesis
      by (subst cover_saved.simps) simp
  qed
qed

lemma cover_saved_stable:
  assumes "stable1 P"
  shows "P st \<Longrightarrow> P (cover_saved al_id filename st)"
  by (rule cover_saved_loop) (rule stable1_prim(10) [OF assms])

lemma Search_stable:
  assumes "stable1 P" and "P st"
  shows "P (Search q_id search st)"
proof -
  note R = pres_Let_state [of P] pres_Let_value [of P] pres_if [of P] pres_case_QueryType [of P]
    pres_fold [of P] stable1_upd [OF assms(1), THEN iffD2] stable1_prim [OF assms(1)]
    
  show ?thesis
    unfolding Search_def
    by (rule assms(2) | assumption | rule R | simp)+
qed

lemma GetArtists_stable:
  assumes "stable1 P" and "P st"
  shows "P (GetArtists  st)"
proof -
  note R = pres_Let_state [of P] pres_Let_value [of P] pres_if [of P] pres_case_QueryType [of P]
    pres_fold [of P] stable1_upd [OF assms(1), THEN iffD2] stable1_prim [OF assms(1)]
    AddArtistsRequest_stable [OF assms(1)]
  show ?thesis
    unfolding GetArtists_def
    by (rule assms(2) | assumption | rule R | simp)+
qed

lemma GetAlbums_stable:
  assumes "stable1 P" and "P st"
  shows "P (GetAlbums  st)"
proof -
  note R = pres_Let_state [of P] pres_Let_value [of P] pres_if [of P] pres_case_QueryType [of P]
    pres_fold [of P] stable1_upd [OF assms(1), THEN iffD2] stable1_prim [OF assms(1)]
    AddAlbumsRequest_stable [OF assms(1)]
  show ?thesis
    unfolding GetAlbums_def
    by (rule assms(2) | assumption | rule R | simp)+
qed

lemma GetSongs_stable:
  assumes "stable1 P" and "P st"
  shows "P (GetSongs  st)"
proof -
  note R = pres_Let_state [of P] pres_Let_value [of P] pres_if [of P] pres_case_QueryType [of P]
    pres_fold [of P] stable1_upd [OF assms(1), THEN iffD2] stable1_prim [OF assms(1)]
    AddSongsRequest_stable [OF assms(1)]
  show ?thesis
    unfolding GetSongs_def
    by (rule assms(2) | assumption | rule R | simp)+
qed

lemma ArtistsSearch_stable:
  assumes "stable1 P" and "P st"
  shows "P (ArtistsSearch  st)"
proof -
  note R = pres_Let_state [of P] pres_Let_value [of P] pres_if [of P] pres_case_QueryType [of P]
    pres_fold [of P] stable1_upd [OF assms(1), THEN iffD2] stable1_prim [OF assms(1)]
    AddArtistsSearchRequest_stable [OF assms(1)]
  show ?thesis
    unfolding ArtistsSearch_def
    by (rule assms(2) | assumption | rule R | simp)+
qed

lemma AlbumsSearch_stable:
  assumes "stable1 P" and "P st"
  shows "P (AlbumsSearch  st)"
proof -
  note R = pres_Let_state [of P] pres_Let_value [of P] pres_if [of P] pres_case_QueryType [of P]
    pres_fold [of P] stable1_upd [OF assms(1), THEN iffD2] stable1_prim [OF assms(1)]
    AddAlbumsSearchRequest_stable [OF assms(1)]
  show ?thesis
    unfolding AlbumsSearch_def
    by (rule assms(2) | assumption | rule R | simp)+
qed

lemma SongsSearch_stable:
  assumes "stable1 P" and "P st"
  shows "P (SongsSearch  st)"
proof -
  note R = pres_Let_state [of P] pres_Let_value [of P] pres_if [of P] pres_case_QueryType [of P]
    pres_fold [of P] stable1_upd [OF assms(1), THEN iffD2] stable1_prim [OF assms(1)]
    AddSongsSearchRequest_stable [OF assms(1)]
  show ?thesis
    unfolding SongsSearch_def
    by (rule assms(2) | assumption | rule R | simp)+
qed

lemma Process_stable:
  assumes "stable1 P" and "P st"
  shows "P (Process  st)"
proof -
  note R = pres_Let_state [of P] pres_Let_value [of P] pres_if [of P] pres_case_QueryType [of P]
    pres_fold [of P] stable1_upd [OF assms(1), THEN iffD2] stable1_prim [OF assms(1)]
    GetArtists_stable [OF assms(1)]
    GetAlbums_stable [OF assms(1)]
    GetSongs_stable [OF assms(1)]
    ArtistsSearch_stable [OF assms(1)]
    AlbumsSearch_stable [OF assms(1)]
    SongsSearch_stable [OF assms(1)]
    Error_stable [OF stable1_parse [OF assms(1)]]
  show ?thesis
    unfolding Process_def
    by (rule assms(2) | assumption | rule R | simp)+
qed

text \<open>
  The four functions that handle a reply, for predicates that change on the way: one
  that holds while the reply is read, one that holds of what the function returns. Each
  rule asks for the predicate after the first assignments, for what the function hands
  to its finish check, and for the one assignment to \<open>no_results_\<close> under the conditions
  on which the function reaches it.
\<close>

lemma AlbumsReceived_rule:
  assumes p: "parse_stable P"
    and pend: "\<And>a' i t c s. P s \<Longrightarrow> P (add_pending_album a' i t c s)"
    and nr: "\<And>s. P s \<Longrightarrow> offset_requested = 0 \<Longrightarrow> first_page_empty (page ''albums'' reply)
               \<Longrightarrow> albums_flag s \<Longrightarrow> P (s\<lparr>no_results := True\<rparr>)"
    and leaf: "\<And>l' o' t' n' s. P s \<Longrightarrow> R (AlbumsFinishCheck a l' o' t' n' s)"
    and fin: "\<And>s. P s \<Longrightarrow> finished s \<Longrightarrow> R s"
    and early: "r \<notin> set (replies st0) \<Longrightarrow> R st0"
    and head: "r \<in> set (replies st0) \<Longrightarrow> P (st0\<lparr>replies := removeAll r (replies st0)\<rparr>)"
  shows "R (AlbumsReceived E r reply a limit_requested offset_requested st0)"
proof -
  note PR = pres_Let_state [of P] pres_if [of P]
    pres_fold [of P] parse_upd [OF p, THEN iffD2] parse_prim [OF p]
    Error_stable [OF p] report_stable [OF p] received_stable [OF p]
    albums_item_rule [OF p _ pend]
  show ?thesis
    unfolding AlbumsReceived_def
    apply (rule pres_ifc [of _ R])
     apply (erule early)
    apply (rule pres_Let_mid [of P _ R])
     apply (rule head, simp)
    apply (rule pres_Let_mid [of P _ R])
     apply (rule PR, assumption)
    apply (rule pres_Let_unfold [of R])
    apply (rule pres_ifc [of _ R])
     apply (erule (1) fin)
    apply (rule pres_ifc [of _ R])
     apply (erule leaf)
    apply (rule pres_Let_mid [of P _ R])
     apply (rule PR, assumption)
    apply (rule pres_Let_unfold [of R])
    apply (rule pres_ifc [of _ R])
     apply (erule leaf)
    apply (rule pres_Let_unfold [of R])
    apply (rule pres_ifc [of _ R])
     apply (rule leaf, rule PR, assumption)
    apply (rule pres_Let_unfold [of R])
    apply (rule pres_Let_unfold [of R])
    apply (rule pres_ifc [of _ R])
     apply (rule leaf, rule PR, assumption)
    apply (rule pres_Let_mid [of P _ R])
     apply (rule PR, assumption)
    apply (rule pres_Let_unfold [of R])
    apply (rule pres_ifc [of _ R])
     apply (erule leaf)
    apply (rule pres_Let_unfold [of R])
    apply (rule pres_ifc [of _ R])
     apply (rule leaf)
     apply (rule pres_ifc [of _ P])
      apply (rule nr)
         apply assumption
        apply simp
       apply (simp add: first_page_empty_def page_def ExtractItems_def Let_def)
        apply (simp add: albums_flag_def)
     apply assumption
    apply (rule leaf)
    apply (rule pres_fold [of P])
     apply (erule albums_item_rule [OF p _ pend])
    apply assumption+
    done
qed

lemma SongsReceived_rule:
  assumes p: "parse_stable P"
    and nr: "\<And>s. P s \<Longrightarrow> offset_requested = 0 \<Longrightarrow> first_page_empty (page ''tracks'' reply)
               \<Longrightarrow> songs_flag s \<Longrightarrow> P (s\<lparr>no_results := True\<rparr>)"
    and leaf: "\<And>l' o' t' n' s. P s \<Longrightarrow> R (SongsFinishCheck E a al l' o' t' n' s)"
    and fin: "\<And>s. P s \<Longrightarrow> finished s \<Longrightarrow> R s"
    and early: "r \<notin> set (replies st0) \<Longrightarrow> R st0"
    and head: "r \<in> set (replies st0) \<Longrightarrow> P (st0\<lparr>replies := removeAll r (replies st0)\<rparr>)"
  shows "R (SongsReceived E r reply a al limit_requested offset_requested st0)"
proof -
  note PR = pres_Let_state [of P] pres_if [of P]
    pres_fold [of P] parse_upd [OF p, THEN iffD2] parse_prim [OF p]
    Error_stable [OF p] report_stable [OF p] received_stable [OF p]
  show ?thesis
    unfolding SongsReceived_def
    apply (rule pres_ifc [of _ R])
     apply (erule early)
    apply (rule pres_Let_mid [of P _ R])
     apply (rule head, simp)
    apply (rule pres_Let_mid [of P _ R])
     apply (rule PR, assumption)
    apply (rule pres_Let_unfold [of R])
    apply (rule pres_ifc [of _ R])
     apply (erule (1) fin)
    apply (rule pres_ifc [of _ R])
     apply (erule leaf)
    apply (rule pres_Let_mid [of P _ R])
     apply (rule PR, assumption)
    apply (rule pres_Let_unfold [of R])
    apply (rule pres_ifc [of _ R])
     apply (erule leaf)
    apply (rule pres_Let_unfold [of R])
    apply (rule pres_ifc [of _ R])
     apply (rule leaf, rule PR, assumption)
    apply (rule pres_Let_unfold [of R])
    apply (rule pres_Let_unfold [of R])
    apply (rule pres_ifc [of _ R])
     apply (rule leaf, rule PR, assumption)
    apply (rule pres_Let_mid [of P _ R])
     apply (rule PR, assumption)
    apply (rule pres_Let_unfold [of R])
    apply (rule pres_ifc [of _ R])
     apply (erule leaf)
    apply (rule pres_Let_unfold [of R])
    apply (rule pres_ifc [of _ R])
     apply (rule leaf)
     apply (rule pres_ifc [of _ P])
      apply (rule nr)
         apply assumption
        apply simp
       apply (simp add: first_page_empty_def page_def ExtractItems_def Let_def)
      apply (simp add: songs_flag_def)
     apply assumption
    apply (rule pres_Let_unfold [of R])
    apply (rule pres_Let_mid [of P _ R])
     apply (rule pres_fold [of P])
      apply (erule parse_prim [OF p])
     apply (rule songs_items_stable [OF p])
     apply simp
    apply (erule leaf)
    done
qed

lemma ArtistsReplyReceived_rule:
  assumes q: "parse_stable Q" and p: "parse_stable P"
    and dec: "\<And>s. Q s \<Longrightarrow> P (s\<lparr>artists_requests_active := artists_requests_active s - 1\<rparr>)"
    and pend: "\<And>v s. P s \<Longrightarrow> P (artists_item v s)"
    and nr: "\<And>s. P s \<Longrightarrow> offset_requested = 0 \<Longrightarrow> first_page_empty (artists_page reply)
               \<Longrightarrow> P (s\<lparr>no_results := True\<rparr>)"
    and leaf: "\<And>l' o' n' s. P s \<Longrightarrow> R (ArtistsFinishCheck l' o' n' s)"
    and fin: "\<And>s. P s \<Longrightarrow> finished s \<Longrightarrow> R s"
    and early: "r \<notin> set (replies st0) \<Longrightarrow> R st0"
    and head: "r \<in> set (replies st0) \<Longrightarrow> Q (st0\<lparr>replies := removeAll r (replies st0)\<rparr>)"
  shows "R (ArtistsReplyReceived r reply limit_requested offset_requested st0)"
proof -
  note PR = pres_Let_state [of P] pres_if [of P]
    pres_fold [of P] parse_upd [OF p, THEN iffD2] parse_prim [OF p]
    Error_stable [OF p] report_stable [OF p]
  show ?thesis
    unfolding ArtistsReplyReceived_def
    apply (rule pres_ifc [of _ R])
     apply (erule early)
    apply (rule pres_Let_mid [of Q _ R])
     apply (rule head, simp)
    apply (rule pres_Let_mid [of Q _ R])
     apply (erule received_stable [OF q])
    apply (rule pres_Let_unfold [of R])
    apply (rule pres_Let_mid [of P _ R])
     apply (erule dec)
    apply (rule pres_ifc [of _ R])
     apply (erule (1) fin)
    apply (rule pres_ifc [of _ R])
     apply (erule leaf)
    apply (rule pres_Let_mid [of P _ R])
     apply (rule PR, assumption)
    apply (rule pres_Let_unfold [of R])
    apply (rule pres_ifc [of _ R])
     apply (erule leaf)
    apply (rule pres_ifc [of _ R])
     apply (rule leaf, rule PR, assumption)
    apply (rule pres_Let_unfold [of R])
    apply (rule pres_ifc [of _ R])
     apply (rule leaf, rule PR, assumption)
    apply (rule pres_Let_unfold [of R])
    apply (rule pres_Let_unfold [of R])
    apply (rule pres_ifc [of _ R])
     apply (rule leaf, rule PR, assumption)
    apply (rule pres_Let_mid [of P _ R])
     apply (rule PR)
      apply (rule PR, assumption)
     apply assumption
    apply (rule pres_ifc [of _ R])
     apply (rule leaf, rule PR, assumption)
    apply (rule pres_Let_mid [of P _ R])
     apply (rule pres_if [of P])
      apply (rule parse_prim(1) [OF p])
       apply (rule parse_prim(1) [OF p])
        apply assumption
       apply simp
      apply simp
     apply assumption
    apply (rule pres_Let_mid [of P _ R])
     apply (rule PR, assumption)
    apply (rule pres_Let_unfold [of R])
    apply (rule pres_ifc [of _ R])
     apply (erule leaf)
    apply (rule pres_Let_unfold [of R])
    apply (rule pres_ifc [of _ R])
     apply (rule leaf)
     apply (rule pres_ifc [of _ P])
      apply (rule nr)
        apply assumption
       apply simp
      apply (simp add: first_page_empty_def artists_page_def ExtractItems_def Let_def)
     apply assumption
    apply (rule pres_Let_mid [of P _ R])
     apply (rule pres_fold [of P])
      apply (erule pend)
     apply assumption
    apply (rule pres_Let_unfold [of R])
    apply (rule pres_Let_mid [of P _ R])
     apply (simp add: parse_upd [OF p])
    apply (rule pres_Let_mid [of P _ R])
     apply (rule pres_if [of P])
      apply (rule parse_prim(1) [OF p])
       apply assumption
      apply simp
     apply assumption
    apply (erule leaf)
    done
qed

lemma AlbumCoverReceived_rule:
  assumes p1: "parse_stable P1" and p2: "parse_stable P2"
    and rm: "\<And>s. P1 s \<Longrightarrow>
               P2 (s\<lparr>album_covers_requests_sent := qremove al_id (album_covers_requests_sent s)\<rparr>)"
    and saved: "\<And>s. P1 s \<Longrightarrow> P2 (cover_saved al_id filename s)"
    and absent: "\<And>s. P1 s \<Longrightarrow> \<not> qcontains (album_covers_requests_sent s) al_id
                   \<Longrightarrow> R (AlbumCoverFinishCheck s)"
    and leaf: "\<And>s. P2 s \<Longrightarrow> R (AlbumCoverFinishCheck s)"
    and fin: "\<And>s. P1 s \<Longrightarrow> finished s \<Longrightarrow> R s"
    and early: "r \<notin> set (album_cover_replies st0) \<Longrightarrow> R (AlbumCoverFinishCheck st0)"
    and head: "r \<in> set (album_cover_replies st0) \<Longrightarrow>
               P1 (st0\<lparr>album_cover_replies := removeAll r (album_cover_replies st0),
                        album_covers_requests_active := album_covers_requests_active st0 - 1,
                        album_covers_received := album_covers_received st0 + 1\<rparr>)"
  shows "R (AlbumCoverReceived E r reply al_id u filename st0)"
  unfolding AlbumCoverReceived_def
  apply (rule pres_ifc [of _ R])
   apply (erule early)
  apply (rule pres_Let_mid [of P1 _ R])
   apply (rule head, simp)
  apply (rule pres_ifc [of _ R])
   apply (erule (1) fin)
  apply (rule pres_Let_mid [of P1 _ R])
   apply (rule parse_prim(1) [OF p1])
    apply assumption
   apply simp
  apply (rule pres_ifc [of _ R])
   apply (erule (1) absent)
  apply (rule pres_ifc [of _ R])
   apply (rule pres_Let_mid [of P1 _ R])
    apply (erule Error_stable [OF p1])
   apply (rule leaf, erule rm)
  apply (rule pres_ifc [of _ R])
   apply (rule pres_Let_mid [of P1 _ R])
    apply (erule Error_stable [OF p1])
   apply (rule leaf, erule rm)
  apply (rule pres_ifc [of _ R])
   apply (rule pres_Let_mid [of P1 _ R])
    apply (erule Error_stable [OF p1])
   apply (rule leaf, erule rm)
  apply (rule pres_ifc [of _ R])
   apply (rule pres_Let_mid [of P1 _ R])
    apply (erule Error_stable [OF p1])
   apply (rule leaf, erule rm)
  apply (rule pres_ifc [of _ R])
   apply (rule pres_ifc [of _ R])
    apply (rule leaf, erule saved)
   apply (rule pres_Let_mid [of P1 _ R])
    apply (erule Error_stable [OF p1])
   apply (rule leaf, erule rm)
  apply (rule leaf)
  apply (rule Error_stable [OF p2])
  apply (erule rm)
  done


text \<open>The same functions for a predicate of the third class.\<close>

lemma artists_item_stable:
  assumes "stable1 P" and "P st"
  shows "P (artists_item value_item st)"
  by (rule artists_item_rule [OF stable1_parse [OF assms(1)] assms(2)])
     (simp add: stable1_upd [OF assms(1)])

lemma add_pending_album_stable:
  assumes "stable1 P" and "P st"
  shows "P (add_pending_album a i t c st)"
  by (rule add_pending_album_rule [where P = P])
     (simp_all add: assms(2) stable1_upd [OF assms(1)])

lemma ArtistsReplyReceived_stable:
  assumes "stable0 P" and "stable0 Q"
    and qp: "\<And>s. Q s \<Longrightarrow> P s"
    and dec: "\<And>s. Q s \<Longrightarrow> P (s\<lparr>artists_requests_active := artists_requests_active s - 1\<rparr>)"
    and q: "Q st"
  shows "P (ArtistsReplyReceived r reply l off st)"
proof (rule ArtistsReplyReceived_rule [where Q = Q and P = P and R = P])
  note p1 = stable0_stable1 [OF assms(1)] and q1 = stable0_stable1 [OF assms(2)]
  show "parse_stable Q" by (rule stable1_parse [OF q1])
  show "parse_stable P" by (rule stable1_parse [OF p1])
  show "\<And>s. Q s \<Longrightarrow> P (s\<lparr>artists_requests_active := artists_requests_active s - 1\<rparr>)"
    by (rule dec)
  show "\<And>v s. P s \<Longrightarrow> P (artists_item v s)"
    by (rule artists_item_stable [OF p1])
  show "\<And>s. P s \<Longrightarrow> P (s\<lparr>no_results := True\<rparr>)"
    by (rule stable0_no_results [OF assms(1)])
  show "\<And>l' o' n' s. P s \<Longrightarrow> P (ArtistsFinishCheck l' o' n' s)"
    by (rule ArtistsFinishCheck_stable [OF p1])
  show "\<And>s. P s \<Longrightarrow> P s" .
  show "P st" by (rule qp [OF q])
  show "Q (st\<lparr>replies := removeAll r (replies st)\<rparr>)"
    using q by (simp add: stable1_upd [OF q1])
qed

lemma AlbumsReceived_stable:
  assumes "stable0 P" and "P st"
  shows "P (AlbumsReceived E r reply a l off st)"
proof (rule AlbumsReceived_rule [where P = P and R = P])
  note p1 = stable0_stable1 [OF assms(1)]
  show "parse_stable P" by (rule stable1_parse [OF p1])
  show "\<And>a' i t c s. P s \<Longrightarrow> P (add_pending_album a' i t c s)"
    by (rule add_pending_album_stable [OF p1])
  show "\<And>s. P s \<Longrightarrow> P (s\<lparr>no_results := True\<rparr>)"
    by (rule stable0_no_results [OF assms(1)])
  show "\<And>l' o' t' n' s. P s \<Longrightarrow> P (AlbumsFinishCheck a l' o' t' n' s)"
    by (rule AlbumsFinishCheck_stable [OF p1])
  show "\<And>s. P s \<Longrightarrow> P s" .
  show "P st" by (rule assms(2))
  show "P (st\<lparr>replies := removeAll r (replies st)\<rparr>)"
    using assms(2) by (simp add: stable1_upd [OF p1])
qed

lemma SongsReceived_stable:
  assumes "stable0 P" and "P st"
  shows "P (SongsReceived E r reply a al l off st)"
proof (rule SongsReceived_rule [where P = P and R = P])
  note p1 = stable0_stable1 [OF assms(1)]
  show "parse_stable P" by (rule stable1_parse [OF p1])
  show "\<And>s. P s \<Longrightarrow> P (s\<lparr>no_results := True\<rparr>)"
    by (rule stable0_no_results [OF assms(1)])
  show "\<And>l' o' t' n' s. P s \<Longrightarrow> P (SongsFinishCheck E a al l' o' t' n' s)"
    by (rule SongsFinishCheck_stable [OF p1])
  show "\<And>s. P s \<Longrightarrow> P s" .
  show "P st" by (rule assms(2))
  show "P (st\<lparr>replies := removeAll r (replies st)\<rparr>)"
    using assms(2) by (simp add: stable1_upd [OF p1])
qed

lemma AlbumCoverReceived_stable:
  assumes "stable0 P" and "P st"
    and "P (st\<lparr>album_cover_replies := removeAll r (album_cover_replies st),
               album_covers_requests_active := album_covers_requests_active st - 1,
               album_covers_received := album_covers_received st + 1\<rparr>)"
  shows "P (AlbumCoverReceived E r reply al_id u filename st)"
proof (rule AlbumCoverReceived_rule [where ?P1.0 = P and ?P2.0 = P and R = P])
  note p1 = stable0_stable1 [OF assms(1)]
  show "parse_stable P" by (rule stable1_parse [OF p1])
  show "parse_stable P" by (rule stable1_parse [OF p1])
  show "\<And>s. P s \<Longrightarrow>
          P (s\<lparr>album_covers_requests_sent := qremove al_id (album_covers_requests_sent s)\<rparr>)"
    by (simp add: stable1_upd [OF p1])
  show "\<And>s. P s \<Longrightarrow> P (cover_saved al_id filename s)"
    by (rule cover_saved_stable [OF p1])
  show "\<And>s. P s \<Longrightarrow> P (AlbumCoverFinishCheck s)"
    by (rule AlbumCoverFinishCheck_stable [OF p1])
  show "\<And>s. P s \<Longrightarrow> P (AlbumCoverFinishCheck s)"
    by (rule AlbumCoverFinishCheck_stable [OF p1])
  show "\<And>s. P s \<Longrightarrow> P s" .
  show "P (AlbumCoverFinishCheck st)"
    by (rule AlbumCoverFinishCheck_stable [OF p1 assms(2)])
  show "P (st\<lparr>album_cover_replies := removeAll r (album_cover_replies st),
               album_covers_requests_active := album_covers_requests_active st - 1,
               album_covers_received := album_covers_received st + 1\<rparr>)"
    by (rule assms(3))
qed

lemma AlbumsReplyReceived_stable:
  assumes "stable0 P" and "P (st\<lparr>albums_requests_active := albums_requests_active st - 1\<rparr>)"
  shows "P (AlbumsReplyReceived E r reply l off st)"
proof -
  note s1 = stable0_stable1 [OF assms(1)]
  note R = pres_Let_state [of P] pres_Let_value [of P] pres_if [of P] pres_case_QueryType [of P]
    pres_fold [of P] stable1_upd [OF s1, THEN iffD2] stable1_prim [OF s1]
    AlbumsReceived_stable [OF assms(1)]
    FlushAlbumsRequests_stable [OF s1]
  show ?thesis
    unfolding AlbumsReplyReceived_def
    by (rule assms(2) | assumption | rule R | simp)+
qed

lemma ArtistAlbumsReplyReceived_stable:
  assumes "stable0 P" and "P (st\<lparr>artist_albums_requests_active := artist_albums_requests_active st - 1\<rparr>)"
  shows "P (ArtistAlbumsReplyReceived E r reply a off st)"
proof -
  note s1 = stable0_stable1 [OF assms(1)]
  note R = pres_Let_state [of P] pres_Let_value [of P] pres_if [of P] pres_case_QueryType [of P]
    pres_fold [of P] stable1_upd [OF s1, THEN iffD2] stable1_prim [OF s1]
    AlbumsReceived_stable [OF assms(1)]
    FlushArtistAlbumsRequests_stable [OF s1]
  show ?thesis
    unfolding ArtistAlbumsReplyReceived_def
    by (rule assms(2) | assumption | rule R | simp)+
qed

lemma SongsReplyReceived_stable:
  assumes "stable0 P" and "P (st\<lparr>songs_requests_active := songs_requests_active st - 1\<rparr>)"
  shows "P (SongsReplyReceived E r reply l off st)"
proof -
  note s1 = stable0_stable1 [OF assms(1)]
  note R = pres_Let_state [of P] pres_Let_value [of P] pres_if [of P] pres_case_QueryType [of P]
    pres_fold [of P] stable1_upd [OF s1, THEN iffD2] stable1_prim [OF s1]
    AlbumsReceived_stable [OF assms(1)]
    SongsReceived_stable [OF assms(1)]
  show ?thesis
    unfolding SongsReplyReceived_def
    by (rule assms(2) | assumption | rule R | simp)+
qed

lemma AlbumSongsReplyReceived_stable:
  assumes "stable0 P" and "P (st\<lparr>album_songs_requests_active := album_songs_requests_active st - 1\<rparr>)"
  shows "P (AlbumSongsReplyReceived E r reply a al off st)"
proof -
  note s1 = stable0_stable1 [OF assms(1)]
  note R = pres_Let_state [of P] pres_Let_value [of P] pres_if [of P] pres_case_QueryType [of P]
    pres_fold [of P] stable1_upd [OF s1, THEN iffD2] stable1_prim [OF s1]
    SongsReceived_stable [OF assms(1)]
  show ?thesis
    unfolding AlbumSongsReplyReceived_def
    by (rule assms(2) | assumption | rule R | simp)+
qed

text \<open>A stable predicate is kept by every call and every signal.\<close>

lemma step_stable:
  assumes "stable P" and "P st"
  shows "P (step E ev st)"
proof -
  note s0 = stable_stable0 [OF assms(1)]
  note s1 = stable0_stable1 [OF s0]
  note d = stable_dec [OF assms(1)]
  note u = stable1_upd [OF s1]
  have artists: "\<And>r reply l off s. P s \<Longrightarrow> P (ArtistsReplyReceived r reply l off s)"
    by (rule ArtistsReplyReceived_stable [OF s0 s0]) (simp_all add: d)
  have albums: "\<And>r reply l off s. P s \<Longrightarrow> P (AlbumsReplyReceived E r reply l off s)"
    by (rule AlbumsReplyReceived_stable [OF s0]) (simp add: d)
  have songs: "\<And>r reply l off s. P s \<Longrightarrow> P (SongsReplyReceived E r reply l off s)"
    by (rule SongsReplyReceived_stable [OF s0]) (simp add: d)
  have artist_albums:
    "\<And>r reply a off s. P s \<Longrightarrow> P (ArtistAlbumsReplyReceived E r reply a off s)"
    by (rule ArtistAlbumsReplyReceived_stable [OF s0]) (simp add: d)
  have album_songs:
    "\<And>r reply a al off s. P s \<Longrightarrow> P (AlbumSongsReplyReceived E r reply a al off s)"
    by (rule AlbumSongsReplyReceived_stable [OF s0]) (simp add: d)
  have covers:
    "\<And>r reply al_id v filename s. P s \<Longrightarrow> P (AlbumCoverReceived E r reply al_id v filename s)"
    by (rule AlbumCoverReceived_stable [OF s0]) (simp_all add: d u)
  show ?thesis
    using assms(2)
    by (simp add: step_def d artists albums songs artist_albums album_songs covers
          Search_stable [OF s1] Process_stable [OF s1]
          HandleSSLErrors_stable [OF stable1_parse [OF s1]]
          split: event.split option.split continuation.split)
qed

lemma run_stable:
  assumes "stable P" and "P st"
  shows "P (run E evs st)"
  unfolding run_def
  using assms(2) by (rule pres_fold [rotated]) (rule step_stable [OF assms(1)])

section \<open>The crawl keeps its invariants\<close>

lemmas step_defs = FlushArtistsRequests_step_def FlushAlbumsRequests_step_def
  FlushSongsRequests_step_def FlushArtistAlbumsRequests_step_def
  FlushAlbumSongsRequests_step_def FlushAlbumCoverRequests_step_def
  CreateRequest_def network_get_def connect_def emit_def signals_def FinishCheck_def insert_song_def
  cover_saved_step_def disconnect_def

lemma stable_active_bounded: "stable active_bounded"
  unfolding stable_def stable0_def stable1_def parse_stable_def
  by (intro conjI allI impI;
      simp add: active_bounded_def step_defs Let_def split: list.splits option.splits)

lemma results_emit: "\<not> is_Results sig \<Longrightarrow> results (emit sig s) = results s"
  by (simp add: results_def emit_def signals_def)


lemma qmap_insert_keys: "fst ` set (qmap_insert k v m) = insert k (fst ` set m)"
  by (induction k v m rule: qmap_insert.induct) (auto simp: insert_commute)

lemma qmap_insert_set: "set (qmap_insert k v m) \<subseteq> insert (k, v) (set m)"
  by (induction k v m rule: qmap_insert.induct) auto

lemma qmap_insert_sorted:
  "sorted_wrt (<) (map fst m) \<Longrightarrow> sorted_wrt (<) (map fst (qmap_insert k v m))"
proof (induction k v m rule: qmap_insert.induct)
  case (1 k v)
  show ?case by simp
next
  case (2 k v k' v' m)
  show ?case
  proof (cases "k < k'")
    case True
    with 2 show ?thesis by auto
  next
    case False
    show ?thesis
    proof (cases "k = k'")
      case True
      with 2 show ?thesis by auto
    next
      case ne: False
      with False have "k' < k" by simp
      with 2 False ne show ?thesis
        using qmap_insert_keys [of k v m] by auto
    qed
  qed
qed

lemma qmap_insert_map_of:
  "sorted_wrt (<) (map fst m) \<Longrightarrow> map_of (qmap_insert k v m) = (map_of m)(k \<mapsto> v)"
proof (induction k v m rule: qmap_insert.induct)
  case (1 k v)
  show ?case by simp
next
  case (2 k v k' v' m)
  show ?case
  proof (cases "k < k'")
    case True
    then show ?thesis by auto
  next
    case False
    show ?thesis
    proof (cases "k = k'")
      case True
      then show ?thesis by auto
    next
      case ne: False
      with 2 False show ?thesis by (auto simp: fun_upd_twist)
    qed
  qed
qed

lemma qmap_insert_length:
  "sorted_wrt (<) (map fst m) \<Longrightarrow>
   length (qmap_insert k v m) = (if k \<in> fst ` set m then length m else Suc (length m))"
proof (induction k v m rule: qmap_insert.induct)
  case (1 k v)
  show ?case by simp
next
  case (2 k v k' v' m)
  show ?case
  proof (cases "k < k'")
    case True
    with "2.prems" have "k \<notin> fst ` set m" by auto
    with True show ?thesis by auto
  next
    case False
    show ?thesis
    proof (cases "k = k'")
      case True
      then show ?thesis by auto
    next
      case ne: False
      with 2 False show ?thesis by auto
    qed
  qed
qed

lemma songs_keyed_insert:
  "songs_keyed m \<Longrightarrow> song_id s = k \<Longrightarrow> songs_keyed (qmap_insert k s m)"
  unfolding songs_keyed_def
  using qmap_insert_set [of k s m] by (auto simp: qmap_insert_sorted)

lemma set_art_automatic_keys: "map fst (set_art_automatic i u m) = map fst m"
  by (induction m) (simp_all add: set_art_automatic_def)

lemma songs_keyed_set_art:
  assumes "songs_keyed m"
  shows "songs_keyed (set_art_automatic i u m)"
proof -
  have "\<forall>kv \<in> set (set_art_automatic i u m). song_id (snd kv) = fst kv"
    using assms by (auto simp: songs_keyed_def set_art_automatic_def)
  moreover have "sorted_wrt (<) (map fst (set_art_automatic i u m))"
    using assms by (simp only: set_art_automatic_keys songs_keyed_def)
  ultimately show ?thesis
    by (simp only: songs_keyed_def simp_thms)
qed

lemma results_keyed_other: "\<not> is_Results sig \<Longrightarrow> results_keyed sig"
  by (cases sig) simp_all

lemma stable_songs_inv: "stable songs_inv"
  unfolding stable_def stable0_def stable1_def parse_stable_def
  by (intro conjI allI impI;
      simp add: songs_inv_def step_defs Let_def songs_keyed_insert songs_keyed_set_art
                results_keyed_other
           split: list.splits option.splits;
      simp add: songs_keyed_def)


lemmas kMax_defs = kMaxConcurrentArtistsRequests_def kMaxConcurrentAlbumsRequests_def
  kMaxConcurrentSongsRequests_def kMaxConcurrentArtistAlbumsRequests_def
  kMaxConcurrentAlbumSongsRequests_def kMaxConcurrentAlbumCoverRequests_def

text \<open>
  C3: after any sequence of calls of Process and of signals delivered to a crawl, each of
  the six active-request counters is at most its maximum: 3 for artists, albums, songs,
  artist-albums and album-songs, 1 for album covers. A counter grows only in the body of
  its flush loop, which runs while the counter is below the maximum, and every other
  assignment to it is a decrement.
\<close>

theorem active_never_exceeds_max:
  "artists_requests_active (run E evs (SpotifyRequest svc t)) \<le> 3
   \<and> albums_requests_active (run E evs (SpotifyRequest svc t)) \<le> 3
   \<and> songs_requests_active (run E evs (SpotifyRequest svc t)) \<le> 3
   \<and> artist_albums_requests_active (run E evs (SpotifyRequest svc t)) \<le> 3
   \<and> album_songs_requests_active (run E evs (SpotifyRequest svc t)) \<le> 3
   \<and> album_covers_requests_active (run E evs (SpotifyRequest svc t)) \<le> 1"
proof -
  have "active_bounded (SpotifyRequest svc t)"
    by (simp add: active_bounded_def SpotifyRequest_def kMax_defs)
  then have "active_bounded (run E evs (SpotifyRequest svc t))"
    by (rule run_stable [OF stable_active_bounded])
  then show ?thesis
    by (simp add: active_bounded_def kMax_defs)
qed

theorem active_never_exceeds_max_witness:
  "songs_requests_active
      (run example_env [Call_Process, Call_Process, Call_Process, Call_Process]
         (SpotifyRequest example_service QueryType_Songs)) = 3
   \<and> songs_requests_queue
      (run example_env [Call_Process, Call_Process, Call_Process, Call_Process]
         (SpotifyRequest example_service QueryType_Songs)) = [\<lparr>offset = 0, limit = 0\<rparr>]
   \<and> songs_requests_active
      (run example_env [Call_Process, Call_Process, Call_Process, Call_Process]
         (SpotifyRequest example_service QueryType_Songs)) \<le> 3"
proof -
  have "songs_requests_active
      (run example_env [Call_Process, Call_Process, Call_Process, Call_Process]
         (SpotifyRequest example_service QueryType_Songs)) = 3"
    by code_simp
  moreover have "songs_requests_queue
      (run example_env [Call_Process, Call_Process, Call_Process, Call_Process]
         (SpotifyRequest example_service QueryType_Songs)) = [\<lparr>offset = 0, limit = 0\<rparr>]"
    by code_simp
  ultimately show ?thesis
    using active_never_exceeds_max
            [of example_env "[Call_Process, Call_Process, Call_Process, Call_Process]"
                example_service QueryType_Songs]
    by simp
qed














lemma stable_songs_handed: "stable songs_handed"
  unfolding stable_def stable0_def stable1_def parse_stable_def
  by (intro conjI allI impI;
      simp add: songs_handed_def step_defs Let_def members.truncate_def
           split: list.splits option.splits; (case_tac sig; simp)?)

lemma insert_song_map_of:
  assumes "sorted_wrt (<) (map fst (songs st))"
  shows "map_of (songs (insert_song L song st)) =
     (map_of (songs st))
       (song_id song \<mapsto>
          song\<lparr>compilation_detected := compilation L \<or> compilation_detected song,
                disc := if multidisc L then disc song else 0\<rparr>)"
  using assms by (simp add: insert_song_def Let_def qmap_insert_map_of)

text \<open>
  C2: after any sequence of calls and signals, no two entries of \<open>songs_\<close> have the same
  key and every entry is keyed by the song id of its song, and the same holds of the map
  carried by every \<open>Results\<close> signal emitted, which is \<open>songs_\<close> as it was at that
  moment. Inserting a parsed song stores that song (with the compilation flag and the
  disc number that the loop of SongsReceived gives it) under its song id in place of
  whatever was stored under that id, and leaves every other entry as it was: a song whose
  id is present replaces the entry and the number of entries stays, a song whose id is
  absent adds one entry.
\<close>

theorem songs_map_keyed_by_id:
  "distinct (map fst (songs (run E evs (SpotifyRequest svc t))))
   \<and> (\<forall>kv \<in> set (songs (run E evs (SpotifyRequest svc t))). song_id (snd kv) = fst kv)
   \<and> (\<forall>q m e. Results q m e \<in> set (signals (run E evs (SpotifyRequest svc t)))
         \<longrightarrow> distinct (map fst m) \<and> (\<forall>kv \<in> set m. song_id (snd kv) = fst kv))
   \<and> length (songs (insert_song L song (run E evs (SpotifyRequest svc t))))
       = (if song_id song \<in> fst ` set (songs (run E evs (SpotifyRequest svc t)))
          then length (songs (run E evs (SpotifyRequest svc t)))
          else length (songs (run E evs (SpotifyRequest svc t))) + 1)
   \<and> song_id song \<in> fst ` set (songs (insert_song L song (run E evs (SpotifyRequest svc t))))
   \<and> map_of (songs (insert_song L song (run E evs (SpotifyRequest svc t)))) =
       (map_of (songs (run E evs (SpotifyRequest svc t))))
         (song_id song \<mapsto>
            song\<lparr>compilation_detected := compilation L \<or> compilation_detected song,
                  disc := if multidisc L then disc song else 0\<rparr>)
   \<and> list_all results_carry (emitted (run E evs (SpotifyRequest svc t)))"
proof -
  let ?st = "run E evs (SpotifyRequest svc t)"
  have "songs_inv (SpotifyRequest svc t)"
    by (simp add: songs_inv_def songs_keyed_def signals_def SpotifyRequest_def)
  then have i: "songs_inv ?st"
    by (rule run_stable [OF stable_songs_inv])
  have s: "sorted_wrt (<) (map fst (songs ?st))"
    using i by (simp add: songs_inv_def songs_keyed_def)
  have d: "\<And>m. songs_keyed m \<Longrightarrow> distinct (map fst m)"
    by (simp add: songs_keyed_def strict_sorted_iff)
  have 1: "distinct (map fst (songs ?st))"
    using i d by (simp add: songs_inv_def)
  have 2: "\<forall>kv \<in> set (songs ?st). song_id (snd kv) = fst kv"
    using i by (simp add: songs_inv_def songs_keyed_def)
  have 3: "\<forall>q m e. Results q m e \<in> set (signals ?st)
         \<longrightarrow> distinct (map fst m) \<and> (\<forall>kv \<in> set m. song_id (snd kv) = fst kv)"
  proof (intro allI impI)
    fix q m e
    assume "Results q m e \<in> set (signals ?st)"
    with i have "results_keyed (Results q m e)"
      unfolding songs_inv_def by blast
    then have k: "songs_keyed m" by simp
    with d show "distinct (map fst m) \<and> (\<forall>kv \<in> set m. song_id (snd kv) = fst kv)"
      by (simp add: songs_keyed_def)
  qed
  have 4: "length (songs (insert_song L song ?st))
       = (if song_id song \<in> fst ` set (songs ?st) then length (songs ?st)
          else length (songs ?st) + 1)"
    using s by (simp add: insert_song_def Let_def qmap_insert_length)
  have 5: "song_id song \<in> fst ` set (songs (insert_song L song ?st))"
    by (simp add: insert_song_def Let_def qmap_insert_keys)
  have 6: "map_of (songs (insert_song L song ?st)) =
       (map_of (songs ?st))
         (song_id song \<mapsto>
            song\<lparr>compilation_detected := compilation L \<or> compilation_detected song,
                  disc := if multidisc L then disc song else 0\<rparr>)"
    using s by (rule insert_song_map_of)
  have "songs_handed (SpotifyRequest svc t)"
    by (simp add: songs_handed_def SpotifyRequest_def)
  then have "songs_handed ?st"
    by (rule run_stable [OF stable_songs_handed])
  then have 7: "list_all results_carry (emitted ?st)"
    by (simp add: songs_handed_def)
  from 1 2 3 4 5 6 7 show ?thesis by blast
qed

theorem songs_map_keyed_by_id_witness:
  "map fst (songs (run example_env
       [Call_Process, Finished 0 (ok_reply (example_page 0 3 [example_track ''b'' ''first'', example_track ''a'' ''A'', example_track ''b'' ''second'']))]
       (SpotifyRequest (example_service\<lparr>download_album_covers := False\<rparr>) QueryType_Songs))) = [''a'', ''b'']
   \<and> map (title \<circ> snd) (songs (run example_env
       [Call_Process, Finished 0 (ok_reply (example_page 0 3 [example_track ''b'' ''first'', example_track ''a'' ''A'', example_track ''b'' ''second'']))]
       (SpotifyRequest (example_service\<lparr>download_album_covers := False\<rparr>) QueryType_Songs))) = [''A'', ''second'']
   \<and> map (\<lambda>sig. case sig of Results q m e \<Rightarrow> map (title \<circ> snd) m | _ \<Rightarrow> [])
         (results (run example_env
       [Call_Process, Finished 0 (ok_reply (example_page 0 3 [example_track ''b'' ''first'', example_track ''a'' ''A'', example_track ''b'' ''second'']))]
       (SpotifyRequest (example_service\<lparr>download_album_covers := False\<rparr>) QueryType_Songs))) = [[''A'', ''second'']]
   \<and> distinct (map fst (songs (run example_env
       [Call_Process, Finished 0 (ok_reply (example_page 0 3 [example_track ''b'' ''first'', example_track ''a'' ''A'', example_track ''b'' ''second'']))]
       (SpotifyRequest (example_service\<lparr>download_album_covers := False\<rparr>) QueryType_Songs))))
   \<and> map_of (songs (insert_song \<lparr>compilation = False, multidisc = True, parsed = [], songs_received = 0\<rparr>
          (new_Song\<lparr>song_id := ''b'', title := ''third''\<rparr>) (run example_env
       [Call_Process, Finished 0 (ok_reply (example_page 0 3 [example_track ''b'' ''first'', example_track ''a'' ''A'', example_track ''b'' ''second'']))]
       (SpotifyRequest (example_service\<lparr>download_album_covers := False\<rparr>) QueryType_Songs)))) ''b''
       = Some (new_Song\<lparr>song_id := ''b'', title := ''third''\<rparr>)
   \<and> length (songs (insert_song \<lparr>compilation = False, multidisc = True, parsed = [], songs_received = 0\<rparr>
          (new_Song\<lparr>song_id := ''b'', title := ''third''\<rparr>) (run example_env
       [Call_Process, Finished 0 (ok_reply (example_page 0 3 [example_track ''b'' ''first'', example_track ''a'' ''A'', example_track ''b'' ''second'']))]
       (SpotifyRequest (example_service\<lparr>download_album_covers := False\<rparr>) QueryType_Songs)))) = 2"
proof -
  let ?evs = "[Call_Process, Finished 0 (ok_reply (example_page 0 3 [example_track ''b'' ''first'', example_track ''a'' ''A'', example_track ''b'' ''second'']))]"
  let ?svc = "example_service\<lparr>download_album_covers := False\<rparr>"
  let ?st = "run example_env ?evs (SpotifyRequest ?svc QueryType_Songs)"
  let ?L = "\<lparr>compilation = False, multidisc = True, parsed = [], songs_received = 0\<rparr>"
  let ?song = "new_Song\<lparr>song_id := ''b'', title := ''third''\<rparr>"
  note t = songs_map_keyed_by_id [of example_env ?evs ?svc QueryType_Songs ?L ?song]
  have a: "map fst (songs ?st) = [''a'', ''b'']"
    by code_simp
  have b: "map (title \<circ> snd) (songs ?st) = [''A'', ''second'']"
    by code_simp
  have c: "map (\<lambda>sig. case sig of Results q m e \<Rightarrow> map (title \<circ> snd) m | _ \<Rightarrow> [])
         (results ?st) = [[''A'', ''second'']]"
    by code_simp
  have d: "distinct (map fst (songs ?st))"
    using t by blast
  have "map_of (songs (insert_song ?L ?song ?st)) =
          (map_of (songs ?st))
            (song_id ?song \<mapsto>
               ?song\<lparr>compilation_detected := compilation ?L \<or> compilation_detected ?song,
                      disc := if multidisc ?L then disc ?song else 0\<rparr>)"
    using t by blast
  then have "map_of (songs (insert_song ?L ?song ?st)) (song_id ?song) =
          Some (?song\<lparr>compilation_detected := compilation ?L \<or> compilation_detected ?song,
                      disc := if multidisc ?L then disc ?song else 0\<rparr>)"
    by simp
  then have e: "map_of (songs (insert_song ?L ?song ?st)) ''b'' = Some ?song"
    by (simp add: new_Song_def)
  have "fst ` set (songs ?st) = set (map fst (songs ?st))"
    by simp
  then have k: "''b'' \<in> fst ` set (songs ?st)"
    unfolding a by simp
  have "length (songs ?st) = length (map fst (songs ?st))"
    by simp
  then have n: "length (songs ?st) = 2"
    unfolding a by simp
  have "length (songs (insert_song ?L ?song ?st))
       = (if song_id ?song \<in> fst ` set (songs ?st) then length (songs ?st)
          else length (songs ?st) + 1)"
    using t by blast
  moreover have "song_id ?song = ''b''"
    by simp
  ultimately have f: "length (songs (insert_song ?L ?song ?st)) = 2"
    using k n by simp
  from a b c d e f show ?thesis
    by blast
qed

section \<open>The outcome reported at termination\<close>


























text \<open>
  C9 on a songs crawl whose Process ran four times: three requests are active and the
  fourth descriptor waits in the songs queue. When the three replies have finished, the
  descriptor is still in the queue with no request active and none issued for it, and
  the crawl has not finished: SongsFinishCheck flushes the album-songs queue where the
  songs queue is not empty.
\<close>

theorem songs_queue_not_flushed:
  "songs_requests_queue (run example_env
      [Call_Process, Call_Process, Call_Process, Call_Process,
       Finished 0 (ok_reply (example_page 0 0 [])), Finished 1 (ok_reply (example_page 0 0 [])),
       Finished 2 (ok_reply (example_page 0 0 []))]
      (SpotifyRequest example_service QueryType_Songs)) = [\<lparr>offset = 0, limit = 0\<rparr>]
   \<and> songs_requests_active (run example_env
      [Call_Process, Call_Process, Call_Process, Call_Process,
       Finished 0 (ok_reply (example_page 0 0 [])), Finished 1 (ok_reply (example_page 0 0 [])),
       Finished 2 (ok_reply (example_page 0 0 []))]
      (SpotifyRequest example_service QueryType_Songs)) = 0
   \<and> connections (run example_env
      [Call_Process, Call_Process, Call_Process, Call_Process,
       Finished 0 (ok_reply (example_page 0 0 [])), Finished 1 (ok_reply (example_page 0 0 [])),
       Finished 2 (ok_reply (example_page 0 0 []))]
      (SpotifyRequest example_service QueryType_Songs)) = []
   \<and> length (network (run example_env
      [Call_Process, Call_Process, Call_Process, Call_Process,
       Finished 0 (ok_reply (example_page 0 0 [])), Finished 1 (ok_reply (example_page 0 0 [])),
       Finished 2 (ok_reply (example_page 0 0 []))]
      (SpotifyRequest example_service QueryType_Songs))) = 3
   \<and> \<not> finished (run example_env
      [Call_Process, Call_Process, Call_Process, Call_Process,
       Finished 0 (ok_reply (example_page 0 0 [])), Finished 1 (ok_reply (example_page 0 0 [])),
       Finished 2 (ok_reply (example_page 0 0 []))]
      (SpotifyRequest example_service QueryType_Songs))"
  by code_simp

end
